(* ===== verification/Go_Prelude.thy ===== *)
theory Go_Prelude
  imports Main "HOL-Library.Sublist"
begin

text \<open>
  The prelude of the development: the Go values every component uses.

  \<^item> Go strings are byte sequences, here \<^typ>\<open>string\<close>; the operations of the packages
    \<open>strings\<close>, \<open>strconv\<close>, \<open>path\<close> and \<open>net\<close> that the sources call are written out below.
  \<^item> A Go \<open>error\<close> is a value of the datatype \<open>error\<close>; a function that returns
    \<open>(T, error)\<close> returns a value of \<open>'a result\<close>, with \<^const>\<open>Inl\<close> for the error.
  \<^item> The collections \<open>go_string\<close> and \<open>go_result\<close> gather the rewrite rules that the
    component theories use.
\<close>

named_theorems go_string \<open>rewrite rules for Go string operations\<close>
named_theorems go_result \<open>rewrite rules for error values and results\<close>

section \<open>Errors and results\<close>

text \<open>
  \<open>Err\<close> is \<open>errors.New\<close> (or \<open>fmt.Errorf\<close> without a wrapped error), \<open>Wrap\<close> is
  \<open>fmt.Errorf("...: %w", err)\<close> with the text that precedes the wrapped error, and
  \<open>Joined\<close> is \<open>errors.Join\<close>. The remaining constructors are the sentinel errors the
  sources test with \<open>errors.Is\<close> or \<open>os.IsNotExist\<close>.
\<close>

datatype error =
    Err string
  | Wrap string error
  | Joined "error list"
  | ErrNotExist
  | SkipAll
  | ErrProtocolNotFound

type_synonym 'a result = "error + 'a"

text \<open>\<open>errors.Join\<close> returns nil when there is no error to join.\<close>

definition errors_Join :: "error list \<Rightarrow> error option" where
  "errors_Join errs = (if errs = [] then None else Some (Joined errs))"

text \<open>\<open>errors.Is\<close> follows the chain of wrapped errors and the branches of a joined one.\<close>

fun errors_Is :: "error \<Rightarrow> error \<Rightarrow> bool" where
  "errors_Is (Wrap m e) target = (Wrap m e = target \<or> errors_Is e target)"
| "errors_Is (Joined es) target = (Joined es = target \<or> (\<exists>e \<in> set es. errors_Is e target))"
| "errors_Is e target = (e = target)"

definition is_ok :: "'a result \<Rightarrow> bool" where
  "is_ok r = (case r of Inl _ \<Rightarrow> False | Inr _ \<Rightarrow> True)"

definition bind_result :: "'a result \<Rightarrow> ('a \<Rightarrow> 'b result) \<Rightarrow> 'b result" where
  "bind_result r f = (case r of Inl e \<Rightarrow> Inl e | Inr a \<Rightarrow> f a)"

lemma bind_result_simps [simp, go_result]:
  "bind_result (Inl e) f = Inl e"
  "bind_result (Inr a) f = f a"
  by (simp_all add: bind_result_def)

lemma is_ok_simps [simp, go_result]:
  "\<not> is_ok (Inl e)"
  "is_ok (Inr a)"
  by (simp_all add: is_ok_def)

lemma bind_result_eq_Inr [go_result]:
  "bind_result r f = Inr b \<longleftrightarrow> (\<exists>a. r = Inr a \<and> f a = Inr b)"
  by (cases r) auto

text \<open>A call that can panic: it returns a value or unwinds with the text of the panic.\<close>

datatype 'a outcome = Done 'a | Panic string

section \<open>Package strings\<close>

text \<open>\<open>strings.Index\<close>: the position of the first occurrence, \<^const>\<open>None\<close> for -1.\<close>

fun str_Index :: "string \<Rightarrow> string \<Rightarrow> nat option" where
  "str_Index [] sub = (if sub = [] then Some 0 else None)"
| "str_Index (c # s) sub =
     (if prefix sub (c # s) then Some 0 else map_option Suc (str_Index s sub))"

definition str_HasPrefix :: "string \<Rightarrow> string \<Rightarrow> bool" where
  "str_HasPrefix s p = prefix p s"

definition str_Contains :: "string \<Rightarrow> string \<Rightarrow> bool" where
  "str_Contains s sub = (str_Index s sub \<noteq> None)"

definition str_TrimPrefix :: "string \<Rightarrow> string \<Rightarrow> string" where
  "str_TrimPrefix s p = (if prefix p s then drop (length p) s else s)"

text \<open>\<open>strings.Cut\<close> returns the parts before and after the first separator, and whether it occurs.\<close>

definition str_Cut :: "string \<Rightarrow> string \<Rightarrow> string \<times> string \<times> bool" where
  "str_Cut s sep =
     (case str_Index s sep of
        None \<Rightarrow> (s, [], False)
      | Some i \<Rightarrow> (take i s, drop (i + length sep) s, True))"

text \<open>\<open>strings.LastIndex\<close> for a separator of one byte.\<close>

fun str_LastIndexByte :: "string \<Rightarrow> char \<Rightarrow> nat option" where
  "str_LastIndexByte [] c = None"
| "str_LastIndexByte (x # s) c =
     (case str_LastIndexByte s c of
        Some i \<Rightarrow> Some (Suc i)
      | None \<Rightarrow> if x = c then Some 0 else None)"

text \<open>
  \<open>strings.Split\<close> for a separator of one byte (the only separators the sources split at),
  \<open>strings.Join\<close>, and \<open>strings.ReplaceAll\<close> of one byte, which rejoins the split parts.
\<close>

fun str_SplitByte :: "string \<Rightarrow> char \<Rightarrow> string list" where
  "str_SplitByte [] sep = [[]]"
| "str_SplitByte (c # s) sep =
     (if c = sep then [] # str_SplitByte s sep
      else (case str_SplitByte s sep of [] \<Rightarrow> [[c]] | p # ps \<Rightarrow> (c # p) # ps))"

fun str_Join :: "string list \<Rightarrow> string \<Rightarrow> string" where
  "str_Join [] sep = []"
| "str_Join [s] sep = s"
| "str_Join (s # t # ss) sep = s @ sep @ str_Join (t # ss) sep"

definition str_ReplaceAllByte :: "string \<Rightarrow> char \<Rightarrow> string \<Rightarrow> string" where
  "str_ReplaceAllByte s old new = str_Join (str_SplitByte s old) new"

subsection \<open>Facts about the string operations\<close>

lemma str_Index_sound:
  "str_Index s sub = Some i \<Longrightarrow> s = take i s @ sub @ drop (i + length sub) s"
proof (induction s arbitrary: i)
  case Nil
  then show ?case by (simp split: if_splits)
next
  case (Cons c s)
  show ?case
  proof (cases "prefix sub (c # s)")
    case True
    then obtain t where "c # s = sub @ t" by (auto simp: prefix_def)
    moreover from True Cons.prems have "i = 0" by simp
    ultimately show ?thesis by simp
  next
    case False
    with Cons.prems obtain j where "str_Index s sub = Some j" "i = Suc j" by auto
    with Cons.IH [of j] show ?thesis by simp
  qed
qed

lemma str_Index_None_iff: "str_Index s sub = None \<longleftrightarrow> \<not> sublist sub s"
proof (induction s)
  case (Cons c s)
  then show ?case by (auto simp: sublist_Cons_right)
qed auto

lemma str_Contains_iff [go_string]: "str_Contains s sub \<longleftrightarrow> sublist sub s"
  by (simp add: str_Contains_def str_Index_None_iff)

lemma str_Index_byte_None [simp, go_string]: "c \<notin> set s \<Longrightarrow> str_Index s [c] = None"
  by (induction s) (auto simp: prefix_def)

lemma str_Index_byte_Some [simp, go_string]:
  "c \<notin> set s \<Longrightarrow> str_Index (s @ c # t) [c] = Some (length s)"
  by (induction s) (auto simp: prefix_def)

lemma str_Cut_byte_None [simp, go_string]: "c \<notin> set s \<Longrightarrow> str_Cut s [c] = (s, [], False)"
  by (simp add: str_Cut_def)

lemma str_Cut_byte_Some [simp, go_string]:
  "c \<notin> set s \<Longrightarrow> str_Cut (s @ c # t) [c] = (s, t, True)"
  by (simp add: str_Cut_def)

lemma str_LastIndexByte_None_iff: "str_LastIndexByte s c = None \<longleftrightarrow> c \<notin> set s"
  by (induction s) (auto split: option.splits)

lemma str_LastIndexByte_None [simp, go_string]: "c \<notin> set s \<Longrightarrow> str_LastIndexByte s c = None"
  by (simp add: str_LastIndexByte_None_iff)

lemma str_LastIndexByte_Some [simp, go_string]:
  "c \<notin> set t \<Longrightarrow> str_LastIndexByte (s @ c # t) c = Some (length s)"
  by (induction s) auto

lemma str_SplitByte_nonempty [simp, go_string]: "str_SplitByte s sep \<noteq> []"
  by (induction s) (auto split: list.splits)

lemma str_Join_Cons:
  "ss \<noteq> [] \<Longrightarrow> str_Join (s # ss) sep = s @ sep @ str_Join ss sep"
  by (cases ss) auto

lemma str_Join_SplitByte [go_string]: "str_Join (str_SplitByte s sep) [sep] = s"
proof (induction s)
  case (Cons c s)
  show ?case
  proof (cases "c = sep")
    case True
    with Cons show ?thesis by (simp add: str_Join_Cons)
  next
    case False
    obtain p ps where "str_SplitByte s sep = p # ps"
      by (cases "str_SplitByte s sep") auto
    with Cons False show ?thesis by (cases ps) auto
  qed
qed simp

lemma str_SplitByte_parts: "p \<in> set (str_SplitByte s sep) \<Longrightarrow> sep \<notin> set p"
  by (induction s arbitrary: p) (auto split: list.splits if_splits)

lemma str_SplitByte_absent [simp, go_string]: "sep \<notin> set s \<Longrightarrow> str_SplitByte s sep = [s]"
  by (induction s) auto

lemma str_SplitByte_append [simp, go_string]:
  "sep \<notin> set s \<Longrightarrow> str_SplitByte (s @ sep # t) sep = s # str_SplitByte t sep"
  by (induction s) auto

lemma str_SplitByte_Join [go_string]:
  "ss \<noteq> [] \<Longrightarrow> \<forall>s \<in> set ss. sep \<notin> set s \<Longrightarrow> str_SplitByte (str_Join ss [sep]) sep = ss"
  by (induction ss "[sep]" rule: str_Join.induct) auto

text \<open>
  The last occurrence of a byte splits a string in one way only: the fact behind every
  argument that a path is decomposed at its last slash.
\<close>

lemma last_byte_unique:
  fixes c :: char
  assumes "s @ c # t = s' @ c # t'" and "c \<notin> set t" and "c \<notin> set t'"
  shows "s = s' \<and> t = t'"
proof -
  from assms(2) have "str_LastIndexByte (s @ c # t) c = Some (length s)" by simp
  moreover from assms(3) have "str_LastIndexByte (s' @ c # t') c = Some (length s')" by simp
  ultimately have "length s = length s'" using assms(1) by simp
  with assms(1) show ?thesis by simp
qed

section \<open>Package strconv\<close>

text \<open>
  Decimal numerals: \<open>FormatInt\<close> for base 10, and the accumulator of \<open>ParseUint\<close> and \<open>Atoi\<close>
  on a string of digits (\<^const>\<open>None\<close> when a byte is not a digit or the string is empty).
\<close>

definition digit_char :: "nat \<Rightarrow> char" where
  "digit_char d = char_of (48 + d)"

definition digit_value :: "char \<Rightarrow> nat option" where
  "digit_value c = (let n = of_char c in if 48 \<le> n \<and> n \<le> 57 then Some (n - 48) else None)"

fun format_nat :: "nat \<Rightarrow> string" where
  "format_nat n = (if n < 10 then [digit_char n] else format_nat (n div 10) @ [digit_char (n mod 10)])"

declare format_nat.simps [simp del]

definition FormatInt :: "int \<Rightarrow> string" where
  "FormatInt i = (if i < 0 then ''-'' @ format_nat (nat (- i)) else format_nat (nat i))"

fun parse_digits :: "nat \<Rightarrow> string \<Rightarrow> nat option" where
  "parse_digits acc [] = Some acc"
| "parse_digits acc (c # s) =
     (case digit_value c of None \<Rightarrow> None | Some d \<Rightarrow> parse_digits (10 * acc + d) s)"

definition parse_nat :: "string \<Rightarrow> nat option" where
  "parse_nat s = (if s = [] then None else parse_digits 0 s)"

lemma digit_value_char [simp]: "d < 10 \<Longrightarrow> digit_value (digit_char d) = Some d"
  by (simp add: digit_value_def digit_char_def)

lemma parse_digits_append:
  "parse_digits acc (s @ t) = (case parse_digits acc s of None \<Rightarrow> None | Some n \<Rightarrow> parse_digits n t)"
  by (induction s arbitrary: acc) (auto split: option.splits)

lemma format_nat_nonempty [simp]: "format_nat n \<noteq> []"
  by (subst format_nat.simps) simp

lemma parse_format_nat: "parse_nat (format_nat n) = Some n"
proof -
  have "parse_digits 0 (format_nat n) = Some n"
  proof (induction n rule: format_nat.induct)
    case (1 n)
    then show ?case
      by (cases "n < 10") (simp_all add: format_nat.simps [of n] parse_digits_append)
  qed
  then show ?thesis by (simp add: parse_nat_def)
qed

lemma parse_FormatInt: "0 \<le> i \<Longrightarrow> parse_nat (FormatInt i) = Some (nat i)"
  by (simp add: FormatInt_def parse_format_nat)

end
