(* ===== verification/Go_Regexp.thy ===== *)
theory Go_Regexp
  imports Go_Prelude
begin

text \<open>
  Package \<open>regexp\<close> as the sources use it: syntax trees of the operators that occur in their
  patterns, an executable matcher with leftmost-first semantics and captured groups, and
  \<open>FindStringSubmatch\<close> / \<open>FindStringIndex\<close>.

  The matcher \<open>rmatch r b s\<close> lists every way in which \<open>r\<close> matches a prefix of \<open>s\<close>, in the
  order of preference of a backtracking (Perl-like, hence Go) matcher: the first element is
  the match Go reports. Each element holds the consumed text, the remaining text and the
  captured groups, the most recent capture first. The flag \<open>b\<close> says whether \<open>s\<close> starts at
  the beginning of the text, for the anchor \<open>^\<close>.

  The second half relates the matcher to the language of the expression (\<open>rlang\<close>), and gives
  a compositional criterion (\<open>greedy\<close>) under which the alternatives come longest first.
\<close>

section \<open>Syntax\<close>

datatype regex =
    REps
  | RClass "char \<Rightarrow> bool"
  | RSeq regex regex
  | ROpt regex
  | RUpTo regex nat
  | RStar regex
  | RGroup nat regex
  | RBegin
  | REnd

fun RLit :: "string \<Rightarrow> regex" where
  "RLit [] = REps"
| "RLit (c # cs) = RSeq (RClass (\<lambda>x. x = c)) (RLit cs)"

definition RPlus :: "regex \<Rightarrow> regex" where
  "RPlus r = RSeq r (RStar r)"

section \<open>The matcher\<close>

type_synonym captures = "(nat \<times> string) list"
type_synonym rmatch_result = "string \<times> string \<times> captures"

text \<open>A result of what follows, put after text that has been consumed already.\<close>

definition resume :: "string \<Rightarrow> captures \<Rightarrow> rmatch_result \<Rightarrow> rmatch_result" where
  "resume w c = (\<lambda>(w', t', c'). (w @ w', t', c' @ c))"

text \<open>
  Greedy repetition, at most \<open>n\<close> times: each alternative of one more iteration first, then
  stopping. An iteration that consumes nothing is not repeated. For the star, \<open>length s\<close>
  iterations are enough because each consumes a byte.
\<close>

fun rep_upto :: "(bool \<Rightarrow> string \<Rightarrow> rmatch_result list) \<Rightarrow> nat \<Rightarrow> bool \<Rightarrow> string \<Rightarrow> rmatch_result list" where
  "rep_upto m 0 b s = [([], s, [])]"
| "rep_upto m (Suc n) b s =
     concat (map (\<lambda>(w, t, c). map (resume w c) (if w = [] then [] else rep_upto m n False t)) (m b s))
     @ [([], s, [])]"

fun rmatch :: "regex \<Rightarrow> bool \<Rightarrow> string \<Rightarrow> rmatch_result list" where
  "rmatch REps b s = [([], s, [])]"
| "rmatch (RClass P) b s = (case s of [] \<Rightarrow> [] | x # t \<Rightarrow> if P x then [([x], t, [])] else [])"
| "rmatch (RSeq r1 r2) b s =
     concat (map (\<lambda>(w, t, c). map (resume w c) (rmatch r2 (b \<and> w = []) t)) (rmatch r1 b s))"
| "rmatch (ROpt r) b s = rmatch r b s @ [([], s, [])]"
| "rmatch (RUpTo r n) b s = rep_upto (rmatch r) n b s"
| "rmatch (RStar r) b s = rep_upto (rmatch r) (length s) b s"
| "rmatch (RGroup k r) b s = map (\<lambda>(w, t, c). (w, t, (k, w) # c)) (rmatch r b s)"
| "rmatch RBegin b s = (if b then [([], s, [])] else [])"
| "rmatch REnd b s = (if s = [] then [([], s, [])] else [])"

text \<open>The leftmost match: the text before it and the preferred result there.\<close>

fun rfind :: "regex \<Rightarrow> bool \<Rightarrow> string \<Rightarrow> (string \<times> rmatch_result) option" where
  "rfind r b [] = (case rmatch r b [] of [] \<Rightarrow> None | x # _ \<Rightarrow> Some ([], x))"
| "rfind r b (c # s) =
     (case rmatch r b (c # s) of
        x # _ \<Rightarrow> Some ([], x)
      | [] \<Rightarrow> map_option (\<lambda>(p, x). (c # p, x)) (rfind r False s))"

definition capture :: "captures \<Rightarrow> nat \<Rightarrow> string" where
  "capture c k = (case map_of c k of None \<Rightarrow> [] | Some w \<Rightarrow> w)"

text \<open>
  \<open>FindStringSubmatch\<close> of an expression with \<open>n\<close> groups: the whole match and the groups, the
  empty list (nil) when there is no match. \<open>FindStringIndex\<close>: the bounds of the match.
\<close>

definition FindStringSubmatch :: "regex \<Rightarrow> nat \<Rightarrow> string \<Rightarrow> string list" where
  "FindStringSubmatch r n s =
     (case rfind r True s of
        None \<Rightarrow> []
      | Some (p, w, t, c) \<Rightarrow> w # map (capture c) [1..<Suc n])"

definition FindStringIndex :: "regex \<Rightarrow> string \<Rightarrow> (nat \<times> nat) option" where
  "FindStringIndex r s =
     map_option (\<lambda>(p, w, t, c). (length p, length p + length w)) (rfind r True s)"

subsection \<open>Membership in the list of results\<close>

lemma in_map_resume [simp]:
  "(w, t, c) \<in> resume v d ` X \<longleftrightarrow> (\<exists>w' c'. (w', t, c') \<in> X \<and> w = v @ w' \<and> c = c' @ d)"
  by (force simp: resume_def image_iff)

lemma in_rep_upto_Suc:
  "(w, t, c) \<in> set (rep_upto m (Suc n) b s) \<longleftrightarrow>
     (\<exists>v u d w' c'. (v, u, d) \<in> set (m b s) \<and> v \<noteq> [] \<and>
        (w', t, c') \<in> set (rep_upto m n False u) \<and> w = v @ w' \<and> c = c' @ d) \<or>
     (w = [] \<and> t = s \<and> c = [])"
  by (simp add: split_beta Bex_def split_paired_Ex if_distrib) blast

lemma in_rmatch_RSeq:
  "(w, t, c) \<in> set (rmatch (RSeq r1 r2) b s) \<longleftrightarrow>
     (\<exists>v u d w' c'. (v, u, d) \<in> set (rmatch r1 b s) \<and>
        (w', t, c') \<in> set (rmatch r2 (b \<and> v = []) u) \<and> w = v @ w' \<and> c = c' @ d)"
  by (simp add: split_beta Bex_def split_paired_Ex)

lemma in_rmatch_RGroup:
  "(w, t, c) \<in> set (rmatch (RGroup k r) b s) \<longleftrightarrow>
     (\<exists>c'. (w, t, c') \<in> set (rmatch r b s) \<and> c = (k, w) # c')"
  by force

declare rep_upto.simps(2) [simp del]

section \<open>The language of an expression\<close>

text \<open>Concatenations of words of a set, at most \<open>n\<close> of them or any number.\<close>

definition words_upto :: "nat \<Rightarrow> string set \<Rightarrow> string set" where
  "words_upto n A = {concat ws | ws. set ws \<subseteq> A \<and> length ws \<le> n}"

definition words :: "string set \<Rightarrow> string set" where
  "words A = {concat ws | ws. set ws \<subseteq> A}"

fun rlang :: "regex \<Rightarrow> string set" where
  "rlang REps = {[]}"
| "rlang (RClass P) = {[x] | x. P x}"
| "rlang (RSeq r1 r2) = {w1 @ w2 | w1 w2. w1 \<in> rlang r1 \<and> w2 \<in> rlang r2}"
| "rlang (ROpt r) = insert [] (rlang r)"
| "rlang (RUpTo r n) = words_upto n (rlang r)"
| "rlang (RStar r) = words (rlang r)"
| "rlang (RGroup k r) = rlang r"
| "rlang RBegin = {[]}"
| "rlang REnd = {[]}"

fun anchor_free :: "regex \<Rightarrow> bool" where
  "anchor_free (RSeq r1 r2) = (anchor_free r1 \<and> anchor_free r2)"
| "anchor_free (ROpt r) = anchor_free r"
| "anchor_free (RUpTo r n) = anchor_free r"
| "anchor_free (RStar r) = anchor_free r"
| "anchor_free (RGroup k r) = anchor_free r"
| "anchor_free RBegin = False"
| "anchor_free REnd = False"
| "anchor_free r = True"

lemma words_upto_subset: "words_upto n A \<subseteq> words A"
  by (auto simp: words_upto_def words_def)

lemma words_upto_Suc:
  assumes "w \<in> A" and "v \<in> words_upto n A"
  shows "w @ v \<in> words_upto (Suc n) A"
proof -
  from assms(2) obtain ws where "v = concat ws" "set ws \<subseteq> A" "length ws \<le> n"
    by (auto simp: words_upto_def)
  with assms(1) have "w @ v = concat (w # ws) \<and> set (w # ws) \<subseteq> A \<and> length (w # ws) \<le> Suc n"
    by simp
  then show ?thesis unfolding words_upto_def by blast
qed

lemma Nil_in_words_upto [simp]: "[] \<in> words_upto n A"
  by (auto simp: words_upto_def intro: exI [of _ "[]"])

subsection \<open>Soundness: every result is a split of the text at a word of the language\<close>

lemma rep_upto_sound:
  assumes "\<And>b s w t c. (w, t, c) \<in> set (m b s) \<Longrightarrow> s = w @ t \<and> w \<in> A"
    and "(w, t, c) \<in> set (rep_upto m n b s)"
  shows "s = w @ t \<and> w \<in> words_upto n A"
  using assms(2)
proof (induction n arbitrary: b s w t c)
  case (Suc n)
  then show ?case
    by (fastforce simp: in_rep_upto_Suc dest: assms(1) Suc.IH intro: words_upto_Suc)
qed simp

lemma rmatch_sound:
  "(w, t, c) \<in> set (rmatch r b s) \<Longrightarrow> s = w @ t \<and> w \<in> rlang r"
proof (induction r arbitrary: b s w t c)
  case (RSeq r1 r2)
  then show ?case by (fastforce simp: in_rmatch_RSeq simp del: rmatch.simps)
next
  case (RUpTo r n)
  from RUpTo.prems show ?case
    by (simp only: rmatch.simps rlang.simps) (rule rep_upto_sound [OF RUpTo.IH])
next
  case (RStar r)
  from RStar.prems have "s = w @ t \<and> w \<in> words_upto (length s) (rlang r)"
    by (intro rep_upto_sound [of "rmatch r"]) (auto dest: RStar.IH)
  then show ?case using words_upto_subset by auto
qed (auto split: list.splits if_splits)

subsection \<open>Completeness: every such split is a result\<close>

lemma rep_upto_complete:
  assumes "\<And>b w t. w \<in> A \<Longrightarrow> \<exists>c. (w, t, c) \<in> set (m b (w @ t))"
    and "set ws \<subseteq> A" and "length ws \<le> n"
  shows "\<exists>c. (concat ws, t, c) \<in> set (rep_upto m n b (concat ws @ t))"
  using assms(2,3)
proof (induction ws arbitrary: n b)
  case Nil
  then show ?case by (cases n) (auto simp: in_rep_upto_Suc)
next
  case (Cons w ws)
  show ?case
  proof (cases "w = []")
    case True
    with Cons show ?thesis by auto
  next
    case False
    obtain k where n: "n = Suc k" "length ws \<le> k" using Cons.prems by (cases n) auto
    with Cons obtain c where c: "(concat ws, t, c) \<in> set (rep_upto m k False (concat ws @ t))"
      by fastforce
    obtain d where d: "(w, concat ws @ t, d) \<in> set (m b (w @ concat ws @ t))"
      using assms(1) Cons.prems by fastforce
    with c False have "(concat (w # ws), t, c @ d) \<in> set (rep_upto m (Suc k) b (concat (w # ws) @ t))"
      unfolding in_rep_upto_Suc by force
    with n show ?thesis by blast
  qed
qed

lemma concat_nonempty_parts:
  "concat (filter (\<lambda>w. w \<noteq> []) ws) = concat ws \<and>
   length (filter (\<lambda>w. w \<noteq> []) ws) \<le> length (concat ws)"
proof (induction ws)
  case (Cons w ws)
  then show ?case by (cases w) auto
qed simp

lemma rmatch_complete:
  "anchor_free r \<Longrightarrow> w \<in> rlang r \<Longrightarrow> \<exists>c. (w, t, c) \<in> set (rmatch r b (w @ t))"
proof (induction r arbitrary: b w t)
  case (RSeq r1 r2)
  then obtain w1 w2 where w: "w = w1 @ w2" "w1 \<in> rlang r1" "w2 \<in> rlang r2" by auto
  obtain c where c: "(w1, w2 @ t, c) \<in> set (rmatch r1 b (w1 @ w2 @ t))"
    using RSeq w by fastforce
  obtain d where d: "(w2, t, d) \<in> set (rmatch r2 (b \<and> w1 = []) (w2 @ t))"
    using RSeq w by fastforce
  have "(w, t, d @ c) \<in> set (rmatch (RSeq r1 r2) b (w @ t))"
    unfolding in_rmatch_RSeq using w c d by force
  then show ?case by blast
next
  case (RUpTo r n)
  then show ?case
    using rep_upto_complete [of "rlang r" "rmatch r"] by (auto simp: words_upto_def)
next
  case (RStar r)
  then obtain ws where ws: "w = concat ws" "set ws \<subseteq> rlang r" by (auto simp: words_def)
  let ?vs = "filter (\<lambda>w. w \<noteq> []) ws"
  have "concat ?vs = w" "set ?vs \<subseteq> rlang r" "length ?vs \<le> length (w @ t)"
    using ws concat_nonempty_parts [of ws] by auto
  then show ?case
    using RStar rep_upto_complete [of "rlang r" "rmatch r" ?vs "length (w @ t)"] by auto
next
  case (ROpt r)
  then show ?case by (cases "w = []") auto
next
  case (RGroup k r)
  then show ?case unfolding in_rmatch_RGroup by fastforce
qed auto

theorem rmatch_iff_rlang:
  assumes "anchor_free r"
  shows "(\<exists>c. (w, t, c) \<in> set (rmatch r b s)) \<longleftrightarrow> s = w @ t \<and> w \<in> rlang r"
  using rmatch_sound rmatch_complete [OF assms] by blast

section \<open>Greedy expressions\<close>

text \<open>
  Expressions whose alternatives come strictly longest first, and whose later alternatives
  stop before a byte of \<open>F\<close>. The criterion composes: a sequence or a repetition is greedy
  when what follows cannot start with a byte before which the first part may stop early.
\<close>

definition later :: "(char \<Rightarrow> bool) \<Rightarrow> rmatch_result \<Rightarrow> rmatch_result \<Rightarrow> bool" where
  "later F x y \<longleftrightarrow> length (fst y) < length (fst x) \<and> fst (snd y) \<noteq> [] \<and> F (hd (fst (snd y)))"

definition greedy :: "regex \<Rightarrow> (char \<Rightarrow> bool) \<Rightarrow> bool" where
  "greedy r F \<longleftrightarrow> (\<forall>b s. sorted_wrt (later F) (rmatch r b s))"

definition starts :: "regex \<Rightarrow> (char \<Rightarrow> bool) \<Rightarrow> bool" where
  "starts r A \<longleftrightarrow> (\<forall>w \<in> rlang r. w \<noteq> [] \<longrightarrow> A (hd w))"

lemma greedyD: "greedy r F \<Longrightarrow> sorted_wrt (later F) (rmatch r b s)"
  by (simp add: greedy_def)

lemma later_mono: "later F x y \<Longrightarrow> (\<And>c. F c \<Longrightarrow> G c) \<Longrightarrow> later G x y"
  by (auto simp: later_def)

lemma later_resume: "later F x y \<Longrightarrow> later F (resume w c x) (resume w c y)"
  by (auto simp: later_def resume_def split: prod.splits)

lemma sorted_concat_resume:
  assumes "sorted_wrt (later F) L"
    and "\<And>w t. sorted_wrt (later G) (h w t)"
    and "\<And>w t w' t' c'. (w', t', c') \<in> set (h w t) \<Longrightarrow> t = w' @ t' \<and> (w' \<noteq> [] \<longrightarrow> A (hd w'))"
    and "\<And>x. A x \<Longrightarrow> \<not> F x"
  shows "sorted_wrt (later (\<lambda>x. F x \<or> G x)) (concat (map (\<lambda>(w, t, c). map (resume w c) (h w t)) L))"
  using assms(1)
proof (induction L)
  case (Cons x L)
  obtain w t c where x: "x = (w, t, c)" by (cases x)
  have "sorted_wrt (later (\<lambda>x. F x \<or> G x)) (map (resume w c) (h w t))"
    unfolding sorted_wrt_map
    by (rule sorted_wrt_mono_rel [OF _ assms(2)]) (auto intro: later_mono later_resume)
  moreover have "later (\<lambda>x. F x \<or> G x) (resume w c y) (resume w' c' z)"
    if y: "y \<in> set (h w t)" and x': "(w', t', c') \<in> set L" and z: "z \<in> set (h w' t')"
    for y z w' t' c'
  proof -
    from x' x Cons.prems have l: "length w' < length w" "t' \<noteq> []" "F (hd t')"
      by (auto simp: later_def)
    obtain v u d where zz: "z = (v, u, d)" by (cases z)
    with z assms(3) have "t' = v @ u" "v \<noteq> [] \<longrightarrow> A (hd v)" by auto
    with l assms(4) have "v = []" by (cases v) auto
    with zz l \<open>t' = v @ u\<close> show ?thesis by (auto simp: later_def resume_def split: prod.splits)
  qed
  ultimately show ?case using Cons x by (auto simp: sorted_wrt_append simp del: in_map_resume)
qed simp

lemma greedy_RSeq:
  assumes "greedy r1 F" and "greedy r2 G" and "starts r2 A" and "\<And>x. A x \<Longrightarrow> \<not> F x"
  shows "greedy (RSeq r1 r2) (\<lambda>x. F x \<or> G x)"
  unfolding greedy_def rmatch.simps
proof (intro allI)
  fix b s
  have "t = w' @ t' \<and> (w' \<noteq> [] \<longrightarrow> A (hd w'))"
    if "(w', t', c') \<in> set (rmatch r2 (b \<and> w = []) t)" for w t w' t' c'
    using rmatch_sound [OF that] assms(3) by (auto simp: starts_def)
  then show "sorted_wrt (later (\<lambda>x. F x \<or> G x))
      (concat (map (\<lambda>(w, t, c). map (resume w c) (rmatch r2 (b \<and> w = []) t)) (rmatch r1 b s)))"
    by (rule sorted_concat_resume [OF greedyD [OF assms(1)] greedyD [OF assms(2)] _ assms(4)])
qed

lemma starts_words:
  assumes "starts r A" and "w \<in> words (rlang r)" and "w \<noteq> []"
  shows "A (hd w)"
proof -
  from assms(2) obtain ws where "w = concat ws" "set ws \<subseteq> rlang r" by (auto simp: words_def)
  with assms(1,3) show ?thesis
  proof (induction ws arbitrary: w)
    case (Cons v ws)
    then show ?case by (cases "v = []") (auto simp: starts_def)
  qed simp
qed

lemma greedy_rep_upto:
  assumes "greedy r F" and "starts r A" and "\<And>x. A x \<Longrightarrow> \<not> F x"
  shows "sorted_wrt (later (\<lambda>x. F x \<or> A x)) (rep_upto (rmatch r) n b s)"
proof (induction n arbitrary: b s)
  case (Suc n)
  have sound: "t = w' @ t' \<and> (w' \<noteq> [] \<longrightarrow> A (hd w'))"
    if "(w', t', c') \<in> set (rep_upto (rmatch r) m b t)" for w' t' c' t m b
  proof -
    have "t = w' @ t' \<and> w' \<in> words_upto m (rlang r)"
      by (rule rep_upto_sound [OF rmatch_sound that])
    then show ?thesis using starts_words [OF assms(2)] words_upto_subset by blast
  qed
  let ?K = "concat (map (\<lambda>(w, t, c). map (resume w c)
              (if w = [] then [] else rep_upto (rmatch r) n False t)) (rmatch r b s))"
  have "sorted_wrt (later (\<lambda>x. F x \<or> (F x \<or> A x))) ?K"
    by (rule sorted_concat_resume [OF greedyD [OF assms(1)], where A = A])
       (use Suc sound assms(3) in \<open>auto split: if_splits\<close>)
  moreover have "later (\<lambda>x. F x \<or> (F x \<or> A x)) y ([], s, [])" if "y \<in> set ?K" for y
  proof -
    obtain w t c where y: "y = (w, t, c)" by (cases y)
    from that have "y \<in> set (rep_upto (rmatch r) (Suc n) b s)" by (simp add: rep_upto.simps)
    with y sound have "s = w @ t" "w \<noteq> [] \<longrightarrow> A (hd w)" by blast+
    moreover from that y have "w \<noteq> []" by (auto simp: split_beta split: if_splits)
    ultimately show ?thesis by (auto simp: later_def y)
  qed
  ultimately show ?case by (simp add: rep_upto.simps sorted_wrt_append)
qed simp

lemma greedy_RStar:
  assumes "greedy r F" and "starts r A" and "\<And>x. A x \<Longrightarrow> \<not> F x"
  shows "greedy (RStar r) (\<lambda>x. F x \<or> A x)"
  unfolding greedy_def rmatch.simps using greedy_rep_upto [OF assms] by blast

lemma greedy_RGroup: "greedy r F \<Longrightarrow> greedy (RGroup k r) F"
  by (simp add: greedy_def sorted_wrt_map later_def [abs_def] split_beta)

lemma greedy_RClass: "greedy (RClass P) (\<lambda>_. False)"
  by (auto simp: greedy_def split: list.splits)

lemma starts_RClass: "starts (RClass P) P"
  by (auto simp: starts_def)

lemma starts_RSeq: "starts r1 A \<Longrightarrow> [] \<notin> rlang r1 \<Longrightarrow> starts (RSeq r1 r2) A"
  unfolding starts_def by (auto, (metis hd_append2)+)

lemma starts_RStar: "starts r A \<Longrightarrow> starts (RStar r) A"
  using starts_words by (auto simp: starts_def)

lemma starts_RGroup: "starts r A \<Longrightarrow> starts (RGroup k r) A"
  by (simp add: starts_def)

section \<open>Finding a match\<close>

lemma rfind_here: "rmatch r b s = x # xs \<Longrightarrow> rfind r b s = Some ([], x)"
  by (cases s) auto

lemma rfind_sound:
  "rfind r b s = Some (p, w, t, c) \<Longrightarrow> s = p @ w @ t \<and> (\<exists>b'. (w, t, c) \<in> set (rmatch r b' (w @ t)))"
proof (induction r b s arbitrary: p rule: rfind.induct)
  case (1 r b)
  then have "(w, t, c) \<in> set (rmatch r b [])" "p = []" by (auto split: list.splits)
  with rmatch_sound [of w t c r b "[]"] show ?case by auto
next
  case (2 r b ch s)
  show ?case
  proof (cases "rmatch r b (ch # s)")
    case Nil
    with 2 show ?thesis by fastforce
  next
    case (Cons x xs)
    with "2.prems" have "(w, t, c) \<in> set (rmatch r b (ch # s))" "p = []" by auto
    with rmatch_sound [of w t c r b "ch # s"] show ?thesis by auto
  qed
qed

lemma rfind_None:
  "rfind r b s = None \<Longrightarrow> s = p @ u \<Longrightarrow> rmatch r (b \<and> p = []) u = []"
proof (induction r b s arbitrary: p rule: rfind.induct)
  case (1 r b)
  then show ?case by (auto split: list.splits)
next
  case (2 r b c s)
  from "2.prems"(1) have empty: "rmatch r b (c # s) = []" "rfind r False s = None"
    by (auto split: list.splits)
  show ?case
  proof (cases p)
    case Nil
    with empty 2 show ?thesis by simp
  next
    case (Cons d q)
    with "2.IH" [of q] empty "2.prems" show ?thesis by simp
  qed
qed

text \<open>Any match at the start of the text makes the search succeed there.\<close>

lemma rfind_at_start:
  assumes "(w, t, c) \<in> set (rmatch r True s)"
  obtains w' t' c' where "rfind r True s = Some ([], w', t', c')"
    and "hd (rmatch r True s) = (w', t', c')" and "(w', t', c') \<in> set (rmatch r True s)"
proof -
  from assms obtain x xs where x: "rmatch r True s = x # xs" by (cases "rmatch r True s") auto
  obtain w' t' c' where "x = (w', t', c')" by (cases x)
  with x rfind_here [OF x] that show ?thesis by auto
qed

lemma RLit_match:
  "rmatch (RLit l) b s = (if prefix l s then [(l, drop (length l) s, [])] else [])"
proof (induction l arbitrary: b s)
  case (Cons c l)
  then show ?case by (cases s) (auto simp: resume_def)
qed simp

lemma rlang_RLit [simp]: "rlang (RLit l) = {l}"
  by (induction l) auto

lemma anchor_free_RLit [simp]: "anchor_free (RLit l)"
  by (induction l) auto

declare RLit.simps [simp del]

text \<open>A greedy expression that can consume the whole text prefers to.\<close>

lemma greedy_whole:
  assumes "greedy r F" and "(s, [], c) \<in> set (rmatch r b s)"
  shows "\<exists>c' xs. rmatch r b s = (s, [], c') # xs"
proof -
  obtain w t d xs where x: "rmatch r b s = (w, t, d) # xs"
    using assms(2) by (cases "rmatch r b s") auto
  with rmatch_sound [of w t d r b s] have "s = w @ t" by simp
  moreover have "length s \<le> length w"
    using greedyD [OF assms(1), of b s] assms(2) x by (auto simp: later_def)
  ultimately show ?thesis using x by simp
qed

section \<open>Captured groups\<close>

fun groups :: "regex \<Rightarrow> nat set" where
  "groups (RSeq r1 r2) = groups r1 \<union> groups r2"
| "groups (ROpt r) = groups r"
| "groups (RUpTo r n) = groups r"
| "groups (RStar r) = groups r"
| "groups (RGroup k r) = insert k (groups r)"
| "groups r = {}"

lemma rep_upto_groups:
  assumes "\<And>b s w t c. (w, t, c) \<in> set (m b s) \<Longrightarrow> fst ` set c \<subseteq> G"
  shows "(w, t, c) \<in> set (rep_upto m n b s) \<Longrightarrow> fst ` set c \<subseteq> G"
proof (induction n arbitrary: b s w t c)
  case (Suc n)
  then show ?case unfolding in_rep_upto_Suc using assms by (fastforce simp: image_Un)
qed simp

lemma rmatch_groups: "(w, t, c) \<in> set (rmatch r b s) \<Longrightarrow> fst ` set c \<subseteq> groups r"
proof (induction r arbitrary: b s w t c)
  case (RSeq r1 r2)
  then show ?case unfolding in_rmatch_RSeq by (fastforce simp: image_Un)
next
  case (RUpTo r n)
  then show ?case using rep_upto_groups [of "rmatch r" "groups r"] by simp
next
  case (RStar r)
  then show ?case using rep_upto_groups [of "rmatch r" "groups r"] by simp
next
  case (RGroup k r)
  then show ?case unfolding in_rmatch_RGroup by fastforce
next
  case (ROpt r)
  then show ?case by fastforce
qed (auto split: list.splits if_splits)

lemma capture_simps [simp]:
  "capture [] k = []"
  "capture ((k, w) # c) k = w"
  "j \<noteq> k \<Longrightarrow> capture ((j, w) # c) k = capture c k"
  by (auto simp: capture_def)

lemma capture_append_left [simp]: "k \<notin> fst ` set c \<Longrightarrow> capture (c @ d) k = capture d k"
proof -
  assume "k \<notin> fst ` set c"
  then have "map_of c k = None" by (simp add: map_of_eq_None_iff)
  then show ?thesis by (simp add: capture_def map_add_def)
qed

section \<open>The bytes of a language\<close>

fun over :: "(char \<Rightarrow> bool) \<Rightarrow> regex \<Rightarrow> bool" where
  "over P (RClass Q) = (\<forall>x. Q x \<longrightarrow> P x)"
| "over P (RSeq r1 r2) = (over P r1 \<and> over P r2)"
| "over P (ROpt r) = over P r"
| "over P (RUpTo r n) = over P r"
| "over P (RStar r) = over P r"
| "over P (RGroup k r) = over P r"
| "over P r = True"

lemma words_chars:
  assumes "\<And>v x. v \<in> A \<Longrightarrow> x \<in> set v \<Longrightarrow> P x"
  shows "w \<in> words A \<Longrightarrow> x \<in> set w \<Longrightarrow> P x"
  using assms by (fastforce simp: words_def)

lemma rlang_over: "over P r \<Longrightarrow> w \<in> rlang r \<Longrightarrow> x \<in> set w \<Longrightarrow> P x"
proof (induction r arbitrary: w x)
  case (RUpTo r n)
  then show ?case using words_chars [of "rlang r" P w x] words_upto_subset by fastforce
next
  case (RStar r)
  then show ?case using words_chars [of "rlang r" P w x] by fastforce
qed auto

section \<open>Classes, anchors and searches\<close>

lemma rlang_RPlus: "rlang (RPlus r) = {v @ w | v w. v \<in> rlang r \<and> w \<in> words (rlang r)}"
  by (simp add: RPlus_def)

lemma greedy_RPlus_class: "greedy (RPlus (RClass P)) P"
proof -
  have "greedy (RStar (RClass P)) (\<lambda>x. False \<or> P x)"
    by (rule greedy_RStar [OF greedy_RClass starts_RClass]) simp
  then have "greedy (RSeq (RClass P) (RStar (RClass P))) (\<lambda>x. False \<or> (False \<or> P x))"
    by (rule greedy_RSeq [OF greedy_RClass _ starts_RStar [OF starts_RClass]]) simp
  then show ?thesis by (simp add: RPlus_def)
qed

lemma words_class: "w \<in> words {[x] | x. P x} \<longleftrightarrow> (\<forall>x \<in> set w. P x)"
proof
  assume "\<forall>x \<in> set w. P x"
  then have "w = concat (map (\<lambda>x. [x]) w) \<and> set (map (\<lambda>x. [x]) w) \<subseteq> {[x] | x. P x}"
    by (auto simp: concat_map_singleton)
  then show "w \<in> words {[x] | x. P x}" unfolding words_def by blast
qed (fastforce simp: words_def)

lemma in_rmatch_RSeq_REnd:
  "(w, t, c) \<in> set (rmatch (RSeq r REnd) b s) \<longleftrightarrow> (w, t, c) \<in> set (rmatch r b s) \<and> t = []"
  unfolding in_rmatch_RSeq by (auto split: if_splits)

lemma in_RSeq_tail:
  assumes "\<And>b s w c. (w, t, c) \<in> set (rmatch r2' b s) \<longleftrightarrow> (w, t, c) \<in> set (rmatch r2 b s) \<and> P"
  shows "(w, t, c) \<in> set (rmatch (RSeq r1 r2') b s) \<longleftrightarrow> (w, t, c) \<in> set (rmatch (RSeq r1 r2) b s) \<and> P"
  unfolding in_rmatch_RSeq assms by blast

lemma FindStringSubmatch_Nil: "FindStringSubmatch r n s = [] \<longleftrightarrow> rfind r True s = None"
  by (auto simp: FindStringSubmatch_def split: option.splits)

text \<open>An expression that starts with the anchor is only found at the start of the text.\<close>

lemma in_rmatch_RBegin:
  "(w, t, c) \<in> set (rmatch (RSeq RBegin r) b s) \<longleftrightarrow> b \<and> (w, t, c) \<in> set (rmatch r b s)"
  unfolding in_rmatch_RSeq by (cases b) auto

lemma rmatch_RBegin_False [simp]: "rmatch (RSeq RBegin r) False s = []"
  by simp

lemma rfind_RBegin_False: "rfind (RSeq RBegin r) False s = None"
proof (induction s)
  case (Cons c s)
  then show ?case unfolding rfind.simps rmatch_RBegin_False by simp
qed simp

lemma rfind_RBegin:
  "rfind (RSeq RBegin r) True s =
     (case rmatch (RSeq RBegin r) True s of [] \<Rightarrow> None | x # _ \<Rightarrow> Some ([], x))"
proof (cases s)
  case (Cons c u)
  then show ?thesis by (simp only: rfind.simps rfind_RBegin_False split: list.split) simp
qed simp

end
