(* ===== verification/Distribution.thy ===== *)
theory Distribution
  imports Go_Regexp
begin

text \<open>
  \<open>pkg/registry/distribution.go\<close>: the reference a request path stands for, the regular
  expressions of the OCI distribution paths and \<open>parsePathComponents\<close>.
\<close>

section \<open>References\<close>

type_synonym referenceKind = string
type_synonym digest = string

definition referenceKindManifest :: referenceKind where
  "referenceKindManifest = ''Manifest''"

definition referenceKindBlob :: referenceKind where
  "referenceKindBlob = ''Blob''"

record reference =
  ref_kind :: referenceKind
  ref_name :: string
  ref_dgst :: digest
  ref_originalRegistry :: string

definition hasLatestTag :: "reference \<Rightarrow> bool" where
  "hasLatestTag r =
     (if ref_name r = '''' then False
      else (let (_, tag, _) = str_Cut (ref_name r) '':'' in tag = ''latest''))"

section \<open>The path expressions\<close>

definition lower_digit :: "char \<Rightarrow> bool" where
  "lower_digit c = (c \<in> set ''abcdefghijklmnopqrstuvwxyz0123456789'')"

definition separator :: "char \<Rightarrow> bool" where
  "separator c = (c \<in> set ''._-'')"

definition tag_first :: "char \<Rightarrow> bool" where
  "tag_first c =
     (c \<in> set ''abcdefghijklmnopqrstuvwxyzABCDEFGHIJKLMNOPQRSTUVWXYZ0123456789_'')"

definition tag_char :: "char \<Rightarrow> bool" where
  "tag_char c = (tag_first c \<or> c = CHR ''.'' \<or> c = CHR ''-'')"

text \<open>\<open>[a-z0-9]+([._-][a-z0-9]+)*\<close> with its inner group numbered \<open>k\<close>.\<close>

definition componentRegex :: "nat \<Rightarrow> regex" where
  "componentRegex k =
     RSeq (RPlus (RClass lower_digit))
       (RStar (RGroup k (RSeq (RClass separator) (RPlus (RClass lower_digit)))))"

definition nameRegex :: regex where
  "nameRegex =
     RGroup 1 (RSeq (componentRegex 2)
       (RStar (RGroup 3 (RSeq (RClass (\<lambda>c. c = CHR ''/'')) (componentRegex 4)))))"

definition tagRegex :: regex where
  "tagRegex = RGroup 5 (RSeq (RClass tag_first) (RUpTo (RClass tag_char) 127))"

text \<open>The group \<open>(.*)\<close>: without the flag \<open>s\<close> the dot does not match a newline.\<close>

definition anyRegex :: regex where
  "anyRegex = RGroup 5 (RStar (RClass (\<lambda>c. c \<noteq> CHR 0x0A)))"

definition manifestRegexTag :: regex where
  "manifestRegexTag =
     RSeq (RLit ''/v2/'') (RSeq nameRegex (RSeq (RLit ''/manifests/'') (RSeq tagRegex REnd)))"

definition manifestRegexDigest :: regex where
  "manifestRegexDigest =
     RSeq (RLit ''/v2/'') (RSeq nameRegex (RSeq (RLit ''/manifests/'') anyRegex))"

definition blobsRegexDigest :: regex where
  "blobsRegexDigest =
     RSeq (RLit ''/v2/'') (RSeq nameRegex (RSeq (RLit ''/blobs/'') anyRegex))"

section \<open>Parsing a path\<close>

definition parsePathComponents :: "string \<Rightarrow> string \<Rightarrow> reference result" where
  "parsePathComponents originalRegistry path =
     (let comps = FindStringSubmatch manifestRegexTag 5 path in
      if length comps = 6 then
        if originalRegistry = '''' then
          Inl (Err ''registry parameter needs to be set for tag references'')
        else
          Inr \<lparr>ref_kind = referenceKindManifest,
               ref_name = originalRegistry @ ''/'' @ comps ! 1 @ '':'' @ comps ! 5,
               ref_dgst = '''',
               ref_originalRegistry = originalRegistry\<rparr>
      else
        let comps = FindStringSubmatch manifestRegexDigest 5 path in
        if length comps = 6 then
          Inr \<lparr>ref_kind = referenceKindManifest,
               ref_name = '''',
               ref_dgst = comps ! 5,
               ref_originalRegistry = originalRegistry\<rparr>
        else
          let comps = FindStringSubmatch blobsRegexDigest 5 path in
          if length comps = 6 then
            Inr \<lparr>ref_kind = referenceKindBlob,
                 ref_name = '''',
                 ref_dgst = comps ! 5,
                 ref_originalRegistry = originalRegistry\<rparr>
          else Inl (Err ''distribution path could not be parsed''))"

section \<open>Names, tags and digests\<close>

lemma class_disjoint [simp]:
  "separator c \<Longrightarrow> \<not> lower_digit c"
  "\<not> lower_digit (CHR ''/'')" "\<not> separator (CHR ''/'')"
  by (auto simp: separator_def lower_digit_def)

lemma greedy_component: "greedy (componentRegex k) (\<lambda>c. lower_digit c \<or> separator c)"
proof -
  let ?G = "RGroup k (RSeq (RClass separator) (RPlus (RClass lower_digit)))"
  have plus: "starts (RPlus (RClass P)) P" for P
    unfolding RPlus_def by (rule starts_RSeq [OF starts_RClass]) simp
  have "greedy (RSeq (RClass separator) (RPlus (RClass lower_digit))) (\<lambda>x. False \<or> lower_digit x)"
    by (rule greedy_RSeq [OF greedy_RClass greedy_RPlus_class plus]) simp
  then have G: "greedy ?G lower_digit" by (auto dest: greedy_RGroup)
  have st: "starts ?G separator"
    by (rule starts_RGroup, rule starts_RSeq [OF starts_RClass]) simp
  have "greedy (RStar ?G) (\<lambda>x. lower_digit x \<or> separator x)"
    by (rule greedy_RStar [OF G st]) simp
  then have "greedy (componentRegex k) (\<lambda>x. lower_digit x \<or> (lower_digit x \<or> separator x))"
    unfolding componentRegex_def
    by (rule greedy_RSeq [OF greedy_RPlus_class _ starts_RStar [OF st]]) simp
  then show ?thesis by simp
qed

lemma greedy_nameRegex:
  "greedy nameRegex (\<lambda>c. lower_digit c \<or> separator c \<or> c = CHR ''/'')"
proof -
  let ?slash = "RClass (\<lambda>c. c = CHR ''/'')"
  let ?G = "RGroup 3 (RSeq ?slash (componentRegex 4))"
  have st_comp: "starts (componentRegex k) lower_digit" for k
    unfolding componentRegex_def RPlus_def
    by (rule starts_RSeq, rule starts_RSeq [OF starts_RClass]) auto
  have "greedy (RSeq ?slash (componentRegex 4)) (\<lambda>x. False \<or> (lower_digit x \<or> separator x))"
    by (rule greedy_RSeq [OF greedy_RClass greedy_component st_comp]) simp
  then have G: "greedy ?G (\<lambda>x. lower_digit x \<or> separator x)" by (auto dest: greedy_RGroup)
  have st: "starts ?G (\<lambda>c. c = CHR ''/'')"
    by (rule starts_RGroup, rule starts_RSeq [OF starts_RClass]) simp
  have "greedy (RStar ?G) (\<lambda>x. (lower_digit x \<or> separator x) \<or> x = CHR ''/'')"
    by (rule greedy_RStar [OF G st]) auto
  then have "greedy (RSeq (componentRegex 2) (RStar ?G))
      (\<lambda>x. (lower_digit x \<or> separator x) \<or> ((lower_digit x \<or> separator x) \<or> x = CHR ''/''))"
    by (rule greedy_RSeq [OF greedy_component _ starts_RStar [OF st]]) auto
  then have "greedy nameRegex
      (\<lambda>x. (lower_digit x \<or> separator x) \<or> ((lower_digit x \<or> separator x) \<or> x = CHR ''/''))"
    unfolding nameRegex_def by (rule greedy_RGroup)
  then show ?thesis by (simp add: disj_ac)
qed

text \<open>
  Valid names and tags, as executable tests: the expression matches the whole text. A digest
  that appears in a path has an algorithm and a colon, no slash and no newline.
\<close>

definition matches_all :: "regex \<Rightarrow> string \<Rightarrow> bool" where
  "matches_all r s = list_ex (\<lambda>(w, t, c). t = []) (rmatch r True s)"

definition path_digest :: "string \<Rightarrow> bool" where
  "path_digest d = (CHR '':'' \<in> set d \<and> CHR ''/'' \<notin> set d \<and> CHR 0x0A \<notin> set d)"

lemma matches_all_iff: "anchor_free r \<Longrightarrow> matches_all r s \<longleftrightarrow> s \<in> rlang r"
  using rmatch_iff_rlang [of r s "[]" True s]
  by (auto simp: matches_all_def list_ex_iff dest: rmatch_sound)

lemma anchor_free_path_parts [simp]:
  "anchor_free nameRegex" "anchor_free tagRegex" "anchor_free anyRegex"
  by (simp_all add: nameRegex_def tagRegex_def anyRegex_def componentRegex_def RPlus_def)

lemma rlang_anyRegex: "d \<in> rlang anyRegex \<longleftrightarrow> CHR 0x0A \<notin> set d"
  using words_class [of d "\<lambda>c. c \<noteq> CHR 0x0A"] by (auto simp: anyRegex_def)

lemma tag_char_not [simp]: "\<not> tag_char (CHR ''/'')" "\<not> tag_char (CHR '':'')"
  by (simp_all add: tag_char_def tag_first_def)

lemma over_tagRegex: "over tag_char tagRegex"
  by (simp add: tagRegex_def tag_char_def)

lemmas rlang_tagRegex_chars = rlang_over [OF over_tagRegex]

lemma tag_no_slash_colon:
  assumes "g \<in> rlang tagRegex"
  shows "CHR ''/'' \<notin> set g" and "CHR '':'' \<notin> set g"
  using rlang_tagRegex_chars [OF assms] tag_char_not by blast+

section \<open>The three expressions on a path\<close>

text \<open>Every match of such an expression splits the path into name and tail, and captures both.\<close>

lemma path_match:
  assumes "(w, t, c) \<in> set (rmatch (RSeq (RLit a) (RSeq nameRegex (RSeq (RLit k) (RGroup 5 r)))) b s)"
    and "groups r = {}"
  obtains n v where "s = a @ n @ k @ v @ t" and "n \<in> rlang nameRegex" and "v \<in> rlang r"
    and "capture c 1 = n" and "capture c 5 = v"
proof -
  from assms(1) obtain n u v cn cv b1 b2 where
    n: "(n, u, cn) \<in> set (rmatch nameRegex b1 (drop (length a) s))" and
    v: "(v, t, cv) \<in> set (rmatch r b2 (drop (length k) u))" and
    p: "prefix a s" "prefix k u" and c: "c = ((5, v) # cv) @ cn"
    unfolding in_rmatch_RSeq in_rmatch_RGroup RLit_match by (auto split: if_splits)
  from n obtain cn' where cn: "cn = (1, n) # cn'"
    unfolding nameRegex_def in_rmatch_RGroup by blast
  have "cv = []" using rmatch_groups [OF v] assms(2) by simp
  with c cn have "capture c 1 = n" "capture c 5 = v" by simp_all
  moreover have "s = a @ n @ k @ v @ t"
    using rmatch_sound [OF n] rmatch_sound [OF v] p by (auto simp: prefix_def)
  ultimately show ?thesis using that rmatch_sound [OF n] rmatch_sound [OF v] by blast
qed

lemma in_manifestRegexTag:
  "(w, t, c) \<in> set (rmatch manifestRegexTag b s) \<longleftrightarrow>
   (w, t, c) \<in> set (rmatch (RSeq (RLit ''/v2/'') (RSeq nameRegex (RSeq (RLit ''/manifests/'') tagRegex))) b s)
   \<and> t = []"
  unfolding manifestRegexTag_def
  by (intro in_RSeq_tail in_rmatch_RSeq_REnd)

lemma manifestRegexTag_match:
  assumes "(w, t, c) \<in> set (rmatch manifestRegexTag b s)"
  obtains n g where "s = ''/v2/'' @ n @ ''/manifests/'' @ g" and "n \<in> rlang nameRegex"
    and "g \<in> rlang tagRegex" and "capture c 1 = n" and "capture c 5 = g"
proof -
  from assms have "t = []"
    and "(w, t, c) \<in> set (rmatch (RSeq (RLit ''/v2/'') (RSeq nameRegex (RSeq (RLit ''/manifests/'')
           (RGroup 5 (RSeq (RClass tag_first) (RUpTo (RClass tag_char) 127)))))) b s)"
    unfolding in_manifestRegexTag tagRegex_def by blast+
  from path_match [OF this(2)] this(1) that show ?thesis by (auto simp: tagRegex_def)
qed

lemma path_complete:
  assumes "n \<in> rlang nameRegex" and "v \<in> rlang r" and "anchor_free r"
  shows "\<exists>c. (a @ n @ k @ v, t, c) \<in> set (rmatch (RSeq (RLit a) (RSeq nameRegex (RSeq (RLit k) r))) b
                                          (a @ n @ k @ v @ t))"
proof -
  have "a @ n @ k @ v \<in> rlang (RSeq (RLit a) (RSeq nameRegex (RSeq (RLit k) r)))"
    using assms by auto
  from rmatch_complete [OF _ this] show ?thesis using assms by simp
qed

lemma FindStringSubmatch_5:
  assumes "rfind r True s = Some (p, w, t, c)"
  shows "length (FindStringSubmatch r 5 s) = 6"
    and "FindStringSubmatch r 5 s ! 1 = capture c 1"
    and "FindStringSubmatch r 5 s ! 5 = capture c 5"
  using assms by (simp_all add: FindStringSubmatch_def nth_Cons' del: upt_Suc)

text \<open>Tags: the decomposition is unique because a tag has no slash.\<close>

lemma find_manifestRegexTag:
  assumes "n \<in> rlang nameRegex" and "g \<in> rlang tagRegex"
  obtains w t c where "rfind manifestRegexTag True (''/v2/'' @ n @ ''/manifests/'' @ g) = Some ([], w, t, c)"
    and "capture c 1 = n" and "capture c 5 = g"
proof -
  let ?s = "''/v2/'' @ n @ ''/manifests/'' @ g"
  from path_complete [OF assms, of "''/v2/''" "''/manifests/''" "[]" True]
  obtain c0 where "(?s, [], c0) \<in> set (rmatch manifestRegexTag True ?s)"
    unfolding in_manifestRegexTag append_Nil2 using anchor_free_path_parts(2) by blast
  then obtain w t c where f: "rfind manifestRegexTag True ?s = Some ([], w, t, c)"
    and m: "(w, t, c) \<in> set (rmatch manifestRegexTag True ?s)" by (rule rfind_at_start)
  from m obtain n' g' where s: "?s = ''/v2/'' @ n' @ ''/manifests/'' @ g'"
    and g': "g' \<in> rlang tagRegex" and cap: "capture c 1 = n'" "capture c 5 = g'"
    by (rule manifestRegexTag_match)
  from s g' assms(2) tag_no_slash_colon last_byte_unique [of "n @ ''/manifests''" "CHR ''/''" g "n' @ ''/manifests''" g']
  have "n' = n \<and> g' = g" by simp
  with f cap that show ?thesis by blast
qed

text \<open>Digests: the name is the longest one, and no other can be, because a digest has no slash.\<close>

lemma longest_name_unique:
  fixes n w k d t :: string
  assumes "n @ k @ ''/'' @ d = w @ k @ ''/'' @ t" and "CHR ''/'' \<notin> set d" and "length n \<le> length w"
  shows "w = n"
proof -
  have "t = drop (length w - length n) d"
    using arg_cong [OF assms(1), of "drop (length w + length k + 1)"] assms(3)
    by (simp add: Suc_diff_le)
  with assms(2) have "CHR ''/'' \<notin> set t" by (metis in_set_dropD)
  with assms(1,2) last_byte_unique [of "n @ k" "CHR ''/''" d "w @ k" t] show ?thesis by simp
qed

lemma anyRegex_whole:
  assumes "CHR 0x0A \<notin> set d"
  shows "\<exists>xs. rmatch anyRegex b d = (d, [], [(5, d)]) # xs"
proof -
  let ?r = "RStar (RClass (\<lambda>c. c \<noteq> CHR 0x0A))"
  have g: "greedy ?r (\<lambda>x. False \<or> x \<noteq> CHR 0x0A)"
    by (rule greedy_RStar [OF greedy_RClass starts_RClass]) simp
  have "d \<in> rlang ?r" using assms rlang_anyRegex [of d] by (simp add: anyRegex_def)
  then obtain c where "(d, [], c) \<in> set (rmatch ?r b d)"
    using rmatch_complete [of ?r d "[]" b] by auto
  from greedy_whole [OF g this] obtain c' xs where x: "rmatch ?r b d = (d, [], c') # xs" by blast
  then have "(d, [], c') \<in> set (rmatch ?r b d)" by simp
  from rmatch_groups [OF this] have "c' = []" by simp
  with x show ?thesis by (simp add: anyRegex_def)
qed

lemma concat_map_drop_empty:
  assumes "\<forall>y \<in> set ys. h y = []"
  shows "concat (map h (ys @ x # zs)) = h x @ concat (map h zs)"
  using assms by (induction ys) auto

lemma find_digest:
  assumes "n \<in> rlang nameRegex" and "CHR ''/'' \<notin> set d" and "CHR 0x0A \<notin> set d"
  obtains w t c where
    "rfind (RSeq (RLit ''/v2/'') (RSeq nameRegex (RSeq (RLit (k @ ''/'')) anyRegex))) True
       (''/v2/'' @ n @ (k @ ''/'') @ d) = Some ([], w, t, c)"
    and "capture c 5 = d"
proof -
  let ?K = "k @ ''/''" and ?s = "n @ (k @ ''/'') @ d"
  let ?h = "\<lambda>(w, t, c). map (resume w c) (rmatch (RSeq (RLit ?K) anyRegex) (False \<and> w = []) t)"
  obtain cn where "(n, ?K @ d, cn) \<in> set (rmatch nameRegex False ?s)"
    using rmatch_complete [of nameRegex n "?K @ d" False] assms(1) by auto
  then obtain ys zs where L: "rmatch nameRegex False ?s = ys @ (n, ?K @ d, cn) # zs"
    by (meson split_list)
  have "?h y = []" if "y \<in> set ys" for y
  proof -
    obtain w t c where y: "y = (w, t, c)" by (cases y)
    have "length n < length w" using greedyD [OF greedy_nameRegex, of False ?s] that y L
      by (auto simp: sorted_wrt_append later_def)
    moreover have "?s = w @ t" using rmatch_sound [of w t c nameRegex False ?s] that y L by simp
    ultimately have "\<not> prefix ?K t"
      using longest_name_unique [of n k d w] assms(2) by (auto simp: prefix_def)
    then show ?thesis by (simp add: y RLit_match)
  qed
  then have "\<forall>y \<in> set ys. ?h y = []" by blast
  then have h: "concat (map ?h (rmatch nameRegex False ?s)) = ?h (n, ?K @ d, cn) @ concat (map ?h zs)"
    unfolding L by (rule concat_map_drop_empty)
  obtain xs where xs: "rmatch anyRegex False d = (d, [], [(5, d)]) # xs"
    using anyRegex_whole [OF assms(3)] by blast
  have "rmatch (RSeq (RLit ''/v2/'') (RSeq nameRegex (RSeq (RLit ?K) anyRegex))) True (''/v2/'' @ ?s)
      = map (resume ''/v2/'' []) (concat (map ?h (rmatch nameRegex False ?s)))"
    by (simp add: RLit_match)
  also have "\<dots> = (''/v2/'' @ n @ ?K @ d, [], [(5, d)] @ cn)
      # map (resume ''/v2/'' []) (map (resume n cn) (map (resume ?K []) xs) @ concat (map ?h zs))"
    unfolding h by (simp add: RLit_match xs resume_def)
  finally show ?thesis using that rfind_here by fastforce
qed

section \<open>Properties of parsing\<close>

lemma parse_tag_path:
  assumes "n \<in> rlang nameRegex" and "g \<in> rlang tagRegex"
  shows "parsePathComponents reg (''/v2/'' @ n @ ''/manifests/'' @ g) =
     (if reg = [] then Inl (Err ''registry parameter needs to be set for tag references'')
      else Inr \<lparr>ref_kind = referenceKindManifest, ref_name = reg @ ''/'' @ n @ '':'' @ g,
                ref_dgst = '''', ref_originalRegistry = reg\<rparr>)"
proof -
  obtain w t c where "rfind manifestRegexTag True (''/v2/'' @ n @ ''/manifests/'' @ g) = Some ([], w, t, c)"
    and cap: "capture c 1 = n" "capture c 5 = g"
    using find_manifestRegexTag [OF assms] by blast
  from FindStringSubmatch_5 [OF this(1)] cap show ?thesis
    by (simp add: parsePathComponents_def Let_def)
qed

lemma find_manifestRegexTag_None:
  assumes "\<And>n g p. n \<in> rlang nameRegex \<Longrightarrow> g \<in> rlang tagRegex \<Longrightarrow> s \<noteq> p @ ''/v2/'' @ n @ ''/manifests/'' @ g"
  shows "FindStringSubmatch manifestRegexTag 5 s = []"
proof (rule ccontr)
  assume "FindStringSubmatch manifestRegexTag 5 s \<noteq> []"
  then obtain p w t c where "rfind manifestRegexTag True s = Some (p, w, t, c)"
    by (auto simp: FindStringSubmatch_Nil)
  from rfind_sound [OF this] obtain b where "s = p @ w @ t"
    and "(w, t, c) \<in> set (rmatch manifestRegexTag b (w @ t))" by blast
  from manifestRegexTag_match [OF this(2)] this(1) assms show False by (metis append.assoc)
qed

lemma find_digest_None:
  assumes "\<And>n p v. n \<in> rlang nameRegex \<Longrightarrow> s \<noteq> p @ ''/v2/'' @ n @ k @ v"
  shows "FindStringSubmatch (RSeq (RLit ''/v2/'') (RSeq nameRegex (RSeq (RLit k) anyRegex))) 5 s = []"
    (is "FindStringSubmatch ?r 5 s = []")
proof (rule ccontr)
  assume "FindStringSubmatch ?r 5 s \<noteq> []"
  then obtain p w t c where "rfind ?r True s = Some (p, w, t, c)"
    by (auto simp: FindStringSubmatch_Nil)
  from rfind_sound [OF this] obtain b where s: "s = p @ w @ t"
    and m: "(w, t, c) \<in> set (rmatch ?r b (w @ t))" by blast
  from m [unfolded anyRegex_def] obtain n v where "n \<in> rlang nameRegex"
    and "w @ t = ''/v2/'' @ n @ k @ v @ t"
    by (rule path_match) auto
  with s assms [of n p "v @ t"] show False by simp
qed

text \<open>On a path whose last segment is a digest the tag expression does not match.\<close>

lemma tag_regex_not_digest:
  assumes "path_digest d"
  shows "FindStringSubmatch manifestRegexTag 5 (a @ ''/'' @ d) = []"
proof (rule find_manifestRegexTag_None)
  fix n g p assume g: "g \<in> rlang tagRegex"
  have d: "CHR ''/'' \<notin> set d" "CHR '':'' \<in> set d" using assms by (simp_all add: path_digest_def)
  show "a @ ''/'' @ d \<noteq> p @ ''/v2/'' @ n @ ''/manifests/'' @ g"
  proof
    assume "a @ ''/'' @ d = p @ ''/v2/'' @ n @ ''/manifests/'' @ g"
    then have "d = g"
      using d(1) tag_no_slash_colon [OF g]
        last_byte_unique [of a "CHR ''/''" d "p @ ''/v2/'' @ n @ ''/manifests''" g] by simp
    with d(2) tag_no_slash_colon [OF g] show False by blast
  qed
qed

lemma sublist_before_slash:
  fixes a d x k v :: string
  assumes "a @ ''/'' @ d = x @ (k @ ''/'') @ v" and "CHR ''/'' \<notin> set d"
  shows "sublist (k @ ''/'') (a @ ''/'')"
proof -
  from assms(1) have "(a @ ''/'') @ d = (x @ k @ ''/'') @ v" by simp
  then consider us where "a @ ''/'' = (x @ k @ ''/'') @ us"
    | us where "(a @ ''/'') @ us = x @ k @ ''/''" "d = us @ v"
    by (meson append_eq_append_conv2)
  then show ?thesis
  proof cases
    case 1
    then show ?thesis by (metis append.assoc sublist_appendI)
  next
    case 2
    with assms(2) have "CHR ''/'' \<notin> set us" by simp
    with 2(1) have "us = []" by (cases us rule: rev_cases) auto
    with 2(1) show ?thesis by (metis append.assoc append_Nil2 sublist_append_leftI)
  qed
qed

lemma parse_manifest_digest_path:
  assumes "n \<in> rlang nameRegex" and "path_digest d"
  shows "parsePathComponents reg (''/v2/'' @ n @ ''/manifests/'' @ d) =
     Inr \<lparr>ref_kind = referenceKindManifest, ref_name = [], ref_dgst = d, ref_originalRegistry = reg\<rparr>"
proof -
  let ?s = "''/v2/'' @ n @ ''/manifests/'' @ d"
  have "FindStringSubmatch manifestRegexTag 5 ?s = []"
    using tag_regex_not_digest [OF assms(2), of "''/v2/'' @ n @ ''/manifests''"] by simp
  moreover obtain w t c where "rfind manifestRegexDigest True ?s = Some ([], w, t, c)"
    and "capture c 5 = d"
    using find_digest [OF assms(1), of d "''/manifests''"] assms(2)
    unfolding manifestRegexDigest_def by (auto simp: path_digest_def)
  ultimately show ?thesis
    using FindStringSubmatch_5 [of manifestRegexDigest ?s "[]" w t c]
    by (simp add: parsePathComponents_def Let_def)
qed

lemma parse_blob_path:
  assumes "n \<in> rlang nameRegex" and "path_digest d"
    and "\<not> sublist ''/manifests/'' (''/v2/'' @ n @ ''/blobs/'')"
  shows "parsePathComponents reg (''/v2/'' @ n @ ''/blobs/'' @ d) =
     Inr \<lparr>ref_kind = referenceKindBlob, ref_name = [], ref_dgst = d, ref_originalRegistry = reg\<rparr>"
proof -
  let ?s = "''/v2/'' @ n @ ''/blobs/'' @ d"
  have d: "CHR ''/'' \<notin> set d" "CHR 0x0A \<notin> set d" using assms(2) by (simp_all add: path_digest_def)
  have "FindStringSubmatch manifestRegexTag 5 ?s = []"
    using tag_regex_not_digest [OF assms(2), of "''/v2/'' @ n @ ''/blobs''"] by simp
  moreover have "FindStringSubmatch manifestRegexDigest 5 ?s = []"
    unfolding manifestRegexDigest_def
  proof (rule find_digest_None)
    fix n' p v
    show "?s \<noteq> p @ ''/v2/'' @ n' @ ''/manifests/'' @ v"
      using sublist_before_slash [of "''/v2/'' @ n @ ''/blobs''" d "p @ ''/v2/'' @ n'" "''/manifests''" v]
        d(1) assms(3) by auto
  qed
  moreover obtain w t c where "rfind blobsRegexDigest True ?s = Some ([], w, t, c)"
    and "capture c 5 = d"
    using find_digest [OF assms(1) d, of "''/blobs''"] unfolding blobsRegexDigest_def by auto
  ultimately show ?thesis
    using FindStringSubmatch_5 [of blobsRegexDigest ?s "[]" w t c]
    by (simp add: parsePathComponents_def Let_def)
qed

lemma find_digest_iff:
  "FindStringSubmatch (RSeq (RLit ''/v2/'') (RSeq nameRegex (RSeq (RLit k) anyRegex))) 5 s = [] \<longleftrightarrow>
   (\<forall>n p v. n \<in> rlang nameRegex \<longrightarrow> s \<noteq> p @ ''/v2/'' @ n @ k @ v)"
  (is "FindStringSubmatch ?r 5 s = [] \<longleftrightarrow> ?none")
proof
  assume "FindStringSubmatch ?r 5 s = []"
  then have none: "rfind ?r True s = None" by (simp add: FindStringSubmatch_Nil)
  show ?none
  proof (intro allI impI notI)
    fix n p v assume n: "n \<in> rlang nameRegex" and s: "s = p @ ''/v2/'' @ n @ k @ v"
    have "\<exists>c. (''/v2/'' @ n @ k @ [], v, c) \<in> set (rmatch ?r (True \<and> p = []) (''/v2/'' @ n @ k @ [] @ v))"
      by (rule path_complete [OF n]) (simp_all add: rlang_anyRegex)
    with rfind_None [OF none s] show False by (simp del: rmatch.simps)
  qed
next
  assume ?none
  then show "FindStringSubmatch ?r 5 s = []" using find_digest_None by blast
qed

lemma find_digest_Some:
  assumes "length (FindStringSubmatch (RSeq (RLit ''/v2/'') (RSeq nameRegex (RSeq (RLit k) anyRegex))) 5 s) = 6"
  shows "\<exists>p n v t. s = p @ ''/v2/'' @ n @ k @ v @ t \<and> n \<in> rlang nameRegex \<and> CHR 0x0A \<notin> set v \<and>
     FindStringSubmatch (RSeq (RLit ''/v2/'') (RSeq nameRegex (RSeq (RLit k) anyRegex))) 5 s ! 5 = v"
  (is "\<exists>p n v t. _ \<and> _ \<and> _ \<and> FindStringSubmatch ?r 5 s ! 5 = v")
proof -
  from assms obtain p w t c where f: "rfind ?r True s = Some (p, w, t, c)"
    using FindStringSubmatch_Nil [of ?r 5 s] by (cases "rfind ?r True s") auto
  from rfind_sound [OF f] obtain b where s: "s = p @ w @ t"
    and m: "(w, t, c) \<in> set (rmatch ?r b (w @ t))" by blast
  from m [unfolded anyRegex_def] obtain n v where "n \<in> rlang nameRegex"
    and "w @ t = ''/v2/'' @ n @ k @ v @ t" and "v \<in> rlang (RStar (RClass (\<lambda>c. c \<noteq> CHR 0x0A)))"
    and "capture c 5 = v"
    by (rule path_match) auto
  moreover from this(3) have "CHR 0x0A \<notin> set v" using rlang_anyRegex [of v] by (simp add: anyRegex_def)
  ultimately show ?thesis using s FindStringSubmatch_5(3) [OF f] by metis
qed

lemma find_tag_Some:
  assumes "length (FindStringSubmatch manifestRegexTag 5 s) = 6"
  shows "\<exists>p n g. s = p @ ''/v2/'' @ n @ ''/manifests/'' @ g \<and> n \<in> rlang nameRegex \<and> g \<in> rlang tagRegex \<and>
     FindStringSubmatch manifestRegexTag 5 s ! 1 = n \<and> FindStringSubmatch manifestRegexTag 5 s ! 5 = g"
proof -
  from assms obtain p w t c where f: "rfind manifestRegexTag True s = Some (p, w, t, c)"
    using FindStringSubmatch_Nil [of manifestRegexTag 5 s] by (cases "rfind manifestRegexTag True s") auto
  from rfind_sound [OF f] obtain b where s: "s = p @ w @ t"
    and m: "(w, t, c) \<in> set (rmatch manifestRegexTag b (w @ t))" by blast
  from m obtain n g where "w @ t = ''/v2/'' @ n @ ''/manifests/'' @ g" "n \<in> rlang nameRegex"
    "g \<in> rlang tagRegex" "capture c 1 = n" "capture c 5 = g"
    by (rule manifestRegexTag_match)
  with s FindStringSubmatch_5(2,3) [OF f] show ?thesis by metis
qed

section \<open>The contract of parsePathComponents\<close>

text \<open>
  C30. A manifest request by tag: for every valid repository name and tag the path parses to
  the reference \<open>registry/name:tag\<close>, and without a registry parameter it is refused.
\<close>

theorem parsePathComponents_tag:
  assumes "matches_all nameRegex n" and "matches_all tagRegex g"
  shows "parsePathComponents reg (''/v2/'' @ n @ ''/manifests/'' @ g) =
     (if reg = [] then Inl (Err ''registry parameter needs to be set for tag references'')
      else Inr \<lparr>ref_kind = referenceKindManifest, ref_name = reg @ ''/'' @ n @ '':'' @ g,
                ref_dgst = [], ref_originalRegistry = reg\<rparr>)"
  using assms by (simp only: matches_all_iff anchor_free_path_parts parse_tag_path)

theorem parsePathComponents_tag_witness:
  "parsePathComponents ''example.com'' (''/v2/'' @ ''foo/bar'' @ ''/manifests/'' @ ''hello-world'') =
     Inr \<lparr>ref_kind = referenceKindManifest, ref_name = ''example.com/foo/bar:hello-world'',
          ref_dgst = [], ref_originalRegistry = ''example.com''\<rparr>"
proof -
  have "matches_all nameRegex ''foo/bar''" "matches_all tagRegex ''hello-world''" by code_simp+
  from parsePathComponents_tag [OF this, of "''example.com''"] show ?thesis by simp
qed

text \<open>
  C31. Requests by digest: a manifest path and a blob path parse to the digest of their last
  segment and to the right kind. A repository name may contain the segment \<open>blobs\<close>; for a
  blob path it must not contain the segment \<open>manifests\<close>.
\<close>

theorem parsePathComponents_digest:
  assumes "matches_all nameRegex n" and "path_digest d"
  shows "parsePathComponents reg (''/v2/'' @ n @ ''/manifests/'' @ d) =
       Inr \<lparr>ref_kind = referenceKindManifest, ref_name = [], ref_dgst = d, ref_originalRegistry = reg\<rparr> \<and>
     (\<not> str_Contains (''/v2/'' @ n @ ''/blobs/'') ''/manifests/'' \<longrightarrow>
       parsePathComponents reg (''/v2/'' @ n @ ''/blobs/'' @ d) =
         Inr \<lparr>ref_kind = referenceKindBlob, ref_name = [], ref_dgst = d, ref_originalRegistry = reg\<rparr>)"
  using assms parse_manifest_digest_path parse_blob_path
  unfolding str_Contains_iff matches_all_iff [OF anchor_free_path_parts(1)] by blast

theorem parsePathComponents_digest_witness:
  "parsePathComponents ''docker.io'' (''/v2/'' @ ''library/blobs/nginx'' @ ''/blobs/'' @ ''sha256:295c7be0'') =
     Inr \<lparr>ref_kind = referenceKindBlob, ref_name = [], ref_dgst = ''sha256:295c7be0'',
          ref_originalRegistry = ''docker.io''\<rparr>"
proof -
  have "matches_all nameRegex ''library/blobs/nginx''" "path_digest ''sha256:295c7be0''" by code_simp+
  moreover have "\<not> str_Contains (''/v2/'' @ ''library/blobs/nginx'' @ ''/blobs/'') ''/manifests/''" by code_simp
  ultimately show ?thesis using parsePathComponents_digest by blast
qed

text \<open>
  Exactly which paths are refused as unparsable: those in which no repository name is
  followed by a manifest or a blob segment.
\<close>

theorem parsePathComponents_unparsable:
  "parsePathComponents reg path = Inl (Err ''distribution path could not be parsed'') \<longleftrightarrow>
     \<not> (\<exists>p n v. matches_all nameRegex n \<and>
          (path = p @ ''/v2/'' @ n @ ''/manifests/'' @ v \<or> path = p @ ''/v2/'' @ n @ ''/blobs/'' @ v))"
proof -
  have len: "length (FindStringSubmatch r 5 s) = 6 \<longleftrightarrow> FindStringSubmatch r 5 s \<noteq> []" for r s
    by (auto simp: FindStringSubmatch_def split: option.splits)
  have tag: "FindStringSubmatch manifestRegexTag 5 path \<noteq> [] \<Longrightarrow>
      \<exists>p n v. n \<in> rlang nameRegex \<and> path = p @ ''/v2/'' @ n @ ''/manifests/'' @ v"
    using find_tag_Some [of path] unfolding len by blast
  have "parsePathComponents reg path = Inl (Err ''distribution path could not be parsed'') \<longleftrightarrow>
      FindStringSubmatch manifestRegexTag 5 path = [] \<and> FindStringSubmatch manifestRegexDigest 5 path = [] \<and>
      FindStringSubmatch blobsRegexDigest 5 path = []"
    unfolding parsePathComponents_def Let_def len by simp
  also have "\<dots> \<longleftrightarrow> FindStringSubmatch manifestRegexDigest 5 path = [] \<and> FindStringSubmatch blobsRegexDigest 5 path = []"
    using tag unfolding manifestRegexDigest_def find_digest_iff by blast
  also have "\<dots> \<longleftrightarrow> \<not> (\<exists>p n v. n \<in> rlang nameRegex \<and>
          (path = p @ ''/v2/'' @ n @ ''/manifests/'' @ v \<or> path = p @ ''/v2/'' @ n @ ''/blobs/'' @ v))"
    unfolding manifestRegexDigest_def blobsRegexDigest_def find_digest_iff by blast
  finally show ?thesis by (simp only: matches_all_iff anchor_free_path_parts)
qed

lemma lower_digit_colon [simp]: "\<not> lower_digit (CHR '':'')" "\<not> separator (CHR '':'')"
  by (simp_all add: lower_digit_def separator_def)

lemma over_nameRegex: "over (\<lambda>x. lower_digit x \<or> separator x \<or> x = CHR ''/'') nameRegex"
  by (simp add: nameRegex_def componentRegex_def RPlus_def)

lemmas rlang_name_chars = rlang_over [OF over_nameRegex]

lemma name_no_colon: "n \<in> rlang nameRegex \<Longrightarrow> CHR '':'' \<notin> set n"
  using rlang_name_chars [of n "CHR '':''"] by auto

text \<open>
  When a tag reference counts as the latest tag: exactly when its tag is \<open>latest\<close> and the
  registry of the request has no port. The cut is at the first colon of the name, so for a
  registry with a port the tag is never recognised.
\<close>

theorem hasLatestTag_parsed:
  assumes "matches_all nameRegex n" and "matches_all tagRegex g"
    and "parsePathComponents reg (''/v2/'' @ n @ ''/manifests/'' @ g) = Inr r"
  shows "hasLatestTag r \<longleftrightarrow> g = ''latest'' \<and> CHR '':'' \<notin> set reg"
proof -
  have n: "n \<in> rlang nameRegex" and g: "g \<in> rlang tagRegex"
    using assms(1,2) by (simp_all only: matches_all_iff anchor_free_path_parts)
  have name: "ref_name r = reg @ ''/'' @ n @ '':'' @ g"
    using parse_tag_path [OF n g, of reg] assms(3) by (auto split: if_splits)
  show ?thesis
  proof (cases "CHR '':'' \<in> set reg")
    case False
    then have "CHR '':'' \<notin> set (reg @ ''/'' @ n)" using name_no_colon [OF n] by simp
    from str_Cut_byte_Some [OF this, of g] False show ?thesis
      by (simp add: hasLatestTag_def name)
  next
    case True
    then obtain h p where "reg = h @ '':'' @ p" "CHR '':'' \<notin> set h"
      using split_list_first by fastforce
    with str_Cut_byte_Some [of "CHR '':''" h "p @ ''/'' @ n @ '':'' @ g"] True show ?thesis
      by (auto simp: hasLatestTag_def name append_eq_Cons_conv)
  qed
qed

theorem hasLatestTag_parsed_witness:
  "\<not> hasLatestTag \<lparr>ref_kind = referenceKindManifest, ref_name = ''localhost:5000/nginx:latest'',
                  ref_dgst = [], ref_originalRegistry = ''localhost:5000''\<rparr>"
proof -
  let ?r = "\<lparr>ref_kind = referenceKindManifest, ref_name = ''localhost:5000/nginx:latest'',
             ref_dgst = [], ref_originalRegistry = ''localhost:5000''\<rparr>"
  have "matches_all nameRegex ''nginx''" "matches_all tagRegex ''latest''" by code_simp+
  moreover have "parsePathComponents ''localhost:5000'' (''/v2/'' @ ''nginx'' @ ''/manifests/'' @ ''latest'') = Inr ?r"
    by code_simp
  ultimately show ?thesis using hasLatestTag_parsed by fastforce
qed

text \<open>
  A blob of a repository whose name has a segment \<open>manifests\<close> is taken for a manifest: the
  manifest expression is tried first and its group \<open>(.*)\<close> accepts slashes.
\<close>

lemma blob_path_taken_for_manifest:
  "matches_all nameRegex ''foo/manifests/bar'' \<and>
   parsePathComponents ''docker.io'' ''/v2/foo/manifests/bar/blobs/sha256:ab'' =
     Inr \<lparr>ref_kind = referenceKindManifest, ref_name = [], ref_dgst = ''bar/blobs/sha256:ab'',
          ref_originalRegistry = ''docker.io''\<rparr>"
  by code_simp

end
