(* ===== verification/Go_Url.thy ===== *)
theory Go_Url
  imports Go_Prelude
begin

text \<open>
  Package \<open>net/url\<close> as the sources use it: percent decoding, \<open>url.Parse\<close>, \<open>url.ParseQuery\<close>.
  The texts of the errors are shortened: the sources only test whether there is an error.
\<close>

section \<open>Percent decoding\<close>

datatype encoding = encodePath | encodeHost | encodeZone | encodeUserPassword
  | encodeQueryComponent | encodeFragment

abbreviation byte :: "char \<Rightarrow> nat" where
  "byte c \<equiv> of_char c"

definition ishex :: "char \<Rightarrow> bool" where
  "ishex c = (c \<in> set ''0123456789abcdefABCDEF'')"

definition unhex :: "char \<Rightarrow> nat" where
  "unhex c =
     (if c \<in> set ''0123456789'' then byte c - 48
      else if c \<in> set ''abcdef'' then byte c - 87
      else if c \<in> set ''ABCDEF'' then byte c - 55
      else 0)"

text \<open>\<open>shouldEscape\<close> for the modes host and zone, the only ones the decoder asks it for.\<close>

definition shouldEscape_host :: "char \<Rightarrow> bool" where
  "shouldEscape_host c =
     (c \<notin> set (''abcdefghijklmnopqrstuvwxyzABCDEFGHIJKLMNOPQRSTUVWXYZ0123456789'' @
               ''!$&()*+,;=:[]<>-_.~'' @ [CHR 0x22, CHR 0x27]))"

fun unescape :: "encoding \<Rightarrow> string \<Rightarrow> string result" where
  "unescape m [] = Inr []"
| "unescape m (c # s) =
     (if c = CHR ''%'' then
        (case s of
           a # b # rest \<Rightarrow>
             (let is25 = (a = CHR ''2'' \<and> b = CHR ''5''); v = char_of (16 * unhex a + unhex b) in
              if \<not> (ishex a \<and> ishex b) then Inl (Err ''invalid URL escape'')
              else if m = encodeHost \<and> unhex a < 8 \<and> \<not> is25 then Inl (Err ''invalid URL escape'')
              else if m = encodeZone \<and> \<not> is25 \<and> v \<noteq> CHR '' '' \<and> shouldEscape_host v
              then Inl (Err ''invalid URL escape'')
              else bind_result (unescape m rest) (\<lambda>r. Inr (v # r)))
         | _ \<Rightarrow> Inl (Err ''invalid URL escape''))
      else if (m = encodeHost \<or> m = encodeZone) \<and> byte c < 128 \<and> shouldEscape_host c
      then Inl (Err ''invalid character in host name'')
      else bind_result (unescape m s)
             (\<lambda>r. Inr ((if m = encodeQueryComponent \<and> c = CHR ''+'' then CHR '' '' else c) # r)))"

section \<open>Parsing\<close>

text \<open>The username and, when one is given, the password.\<close>

type_synonym userinfo = "string \<times> string option"

record URL =
  url_Scheme :: string
  url_Opaque :: string
  url_User :: "userinfo option"
  url_Host :: string
  url_Path :: string
  url_RawQuery :: string
  url_Fragment :: string

definition ctl_byte :: "char \<Rightarrow> bool" where
  "ctl_byte c = (byte c < 32 \<or> byte c = 127)"

definition letter :: "char \<Rightarrow> bool" where
  "letter c = (c \<in> set ''abcdefghijklmnopqrstuvwxyzABCDEFGHIJKLMNOPQRSTUVWXYZ'')"

definition digit :: "char \<Rightarrow> bool" where
  "digit c = (c \<in> set ''0123456789'')"

text \<open>\<open>getScheme\<close>: \<open>pre\<close> holds the bytes read so far.\<close>

fun getScheme_from :: "string \<Rightarrow> string \<Rightarrow> (string \<times> string) result" where
  "getScheme_from pre [] = Inr ([], pre)"
| "getScheme_from pre (c # s) =
     (if letter c then getScheme_from (pre @ [c]) s
      else if digit c \<or> c = CHR ''+'' \<or> c = CHR ''-'' \<or> c = CHR ''.'' then
        if pre = [] then Inr ([], c # s) else getScheme_from (pre @ [c]) s
      else if c = CHR '':'' then
        if pre = [] then Inl (Err ''missing protocol scheme'') else Inr (pre, s)
      else Inr ([], pre @ c # s))"

definition getScheme :: "string \<Rightarrow> (string \<times> string) result" where
  "getScheme rawURL = getScheme_from [] rawURL"

definition to_lower :: "char \<Rightarrow> char" where
  "to_lower c = (if 65 \<le> byte c \<and> byte c \<le> 90 then char_of (byte c + 32) else c)"

definition validOptionalPort :: "string \<Rightarrow> bool" where
  "validOptionalPort port =
     (case port of [] \<Rightarrow> True | c # ds \<Rightarrow> c = CHR '':'' \<and> list_all digit ds)"

definition parseHost :: "string \<Rightarrow> string result" where
  "parseHost host =
     (if prefix ''['' host then
        (case str_LastIndexByte host (CHR '']'') of
           None \<Rightarrow> Inl (Err ''missing ']' in host'')
         | Some i \<Rightarrow>
             if \<not> validOptionalPort (drop (i + 1) host) then Inl (Err ''invalid port after host'')
             else (case str_Index (take i host) ''%25'' of
                 Some zone \<Rightarrow>
                   bind_result (unescape encodeHost (take zone host)) (\<lambda>host1.
                   bind_result (unescape encodeZone (drop zone (take i host))) (\<lambda>host2.
                   bind_result (unescape encodeHost (drop i host)) (\<lambda>host3.
                   Inr (host1 @ host2 @ host3))))
               | None \<Rightarrow> unescape encodeHost host))
      else
        (case str_LastIndexByte host (CHR '':'') of
           Some i \<Rightarrow>
             if \<not> validOptionalPort (drop i host) then Inl (Err ''invalid port after host'')
             else unescape encodeHost host
         | None \<Rightarrow> unescape encodeHost host))"

definition validUserinfo :: "string \<Rightarrow> bool" where
  "validUserinfo s =
     list_all (\<lambda>c. letter c \<or> digit c \<or> c \<in> set ''-._:~!$&()*+,;=%@'' \<or> c = CHR 0x27) s"

definition parseAuthority :: "string \<Rightarrow> (userinfo option \<times> string) result" where
  "parseAuthority authority =
     (case str_LastIndexByte authority (CHR ''@'') of
        None \<Rightarrow> bind_result (parseHost authority) (\<lambda>host. Inr (None, host))
      | Some i \<Rightarrow>
          bind_result (parseHost (drop (i + 1) authority)) (\<lambda>host.
          let userinfo = take i authority in
          if \<not> validUserinfo userinfo then Inl (Err ''net/url: invalid userinfo'')
          else if \<not> str_Contains userinfo '':'' then
            bind_result (unescape encodeUserPassword userinfo) (\<lambda>u. Inr (Some (u, None), host))
          else
            (let (username, password, _) = str_Cut userinfo '':'' in
             bind_result (unescape encodeUserPassword username) (\<lambda>u.
             bind_result (unescape encodeUserPassword password) (\<lambda>p.
             Inr (Some (u, Some p), host))))))"

definition setPath :: "URL \<Rightarrow> string \<Rightarrow> URL result" where
  "setPath u p = bind_result (unescape encodePath p) (\<lambda>path. Inr (u\<lparr>url_Path := path\<rparr>))"

text \<open>
  The private function \<open>parse\<close> for \<open>viaRequest = false\<close>. The query is split off at the first
  question mark; a single trailing one is dropped, which leaves the same empty query.
\<close>

definition url_parse :: "string \<Rightarrow> URL result" where
  "url_parse rawURL =
     (if list_ex ctl_byte rawURL then Inl (Err ''net/url: invalid control character in URL'')
      else
        let url = \<lparr>url_Scheme = [], url_Opaque = [], url_User = None, url_Host = [], url_Path = [],
                   url_RawQuery = [], url_Fragment = []\<rparr> in
        if rawURL = ''*'' then Inr (url\<lparr>url_Path := ''*''\<rparr>)
        else
          bind_result (getScheme rawURL) (\<lambda>(scheme, rest0).
          let (rest, query, _) = str_Cut rest0 ''?'';
              url = url\<lparr>url_Scheme := map to_lower scheme, url_RawQuery := query\<rparr> in
          if \<not> prefix ''/'' rest \<and> scheme \<noteq> [] then Inr (url\<lparr>url_Opaque := rest\<rparr>)
          else if \<not> prefix ''/'' rest \<and> CHR '':'' \<in> set (fst (str_Cut rest ''/'')) then
            Inl (Err ''first path segment in URL cannot contain colon'')
          else if (scheme \<noteq> [] \<or> \<not> prefix ''///'' rest) \<and> prefix ''//'' rest then
            (let after = drop 2 rest;
                 (authority, path) =
                   (case str_Index after ''/'' of
                      Some i \<Rightarrow> (take i after, drop i after)
                    | None \<Rightarrow> (after, [])) in
             bind_result (parseAuthority authority) (\<lambda>(user, host).
             setPath (url\<lparr>url_User := user, url_Host := host\<rparr>) path))
          else setPath url rest))"

definition url_Parse :: "string \<Rightarrow> URL result" where
  "url_Parse rawURL =
     (let (u, frag, _) = str_Cut rawURL ''#'' in
      bind_result (url_parse u) (\<lambda>url.
      if frag = [] then Inr url
      else bind_result (unescape encodeFragment frag) (\<lambda>f. Inr (url\<lparr>url_Fragment := f\<rparr>))))"

section \<open>Queries\<close>

text \<open>
  \<open>URL.Query\<close>: the values of each key in order; a pair that contains a semicolon or cannot be
  decoded is skipped, because \<open>Query\<close> drops the error of \<open>ParseQuery\<close>.
\<close>

definition query_pair :: "string \<Rightarrow> (string \<times> string) list" where
  "query_pair p =
     (if p = [] \<or> CHR '';'' \<in> set p then []
      else (let (k, v, _) = str_Cut p ''='' in
            case unescape encodeQueryComponent k of
              Inl _ \<Rightarrow> []
            | Inr k' \<Rightarrow> (case unescape encodeQueryComponent v of Inl _ \<Rightarrow> [] | Inr v' \<Rightarrow> [(k', v')])))"

definition ParseQuery :: "string \<Rightarrow> (string \<times> string) list" where
  "ParseQuery q = concat (map query_pair (str_SplitByte q (CHR ''&'')))"

text \<open>\<open>Values.Get\<close>: the first value of a key, the empty string when there is none.\<close>

definition query_Get :: "(string \<times> string) list \<Rightarrow> string \<Rightarrow> string" where
  "query_Get vs k = (case map_of vs k of None \<Rightarrow> [] | Some v \<Rightarrow> v)"

section \<open>Strings that decode to themselves\<close>

text \<open>A byte that every mode leaves as it is; host names and repository paths consist of them.\<close>

definition plain_byte :: "char \<Rightarrow> bool" where
  "plain_byte c = (letter c \<or> digit c \<or> c \<in> set ''-_.~'')"

lemma unescape_id:
  assumes "\<forall>c \<in> set s. c \<noteq> CHR ''%'' \<and> (m = encodeQueryComponent \<longrightarrow> c \<noteq> CHR ''+'') \<and>
             (m = encodeHost \<or> m = encodeZone \<longrightarrow> \<not> shouldEscape_host c)"
  shows "unescape m s = Inr s"
  using assms by (induction s) auto

lemma unescape_path: "CHR ''%'' \<notin> set s \<Longrightarrow> unescape encodePath s = Inr s"
  by (rule unescape_id) auto

section \<open>Printing\<close>

text \<open>\<open>shouldEscape\<close> for the modes that printing uses.\<close>

definition shouldEscape :: "encoding \<Rightarrow> char \<Rightarrow> bool" where
  "shouldEscape m c =
     (if letter c \<or> digit c then False
      else if m = encodeHost \<or> m = encodeZone then shouldEscape_host c
      else if c \<in> set ''-_.~'' then False
      else if c \<in> set ''$&+,/:;=?@'' then
        (case m of
           encodePath \<Rightarrow> c = CHR ''?''
         | encodeUserPassword \<Rightarrow> c \<in> set ''@/?:''
         | encodeQueryComponent \<Rightarrow> True
         | _ \<Rightarrow> False)
      else if m = encodeFragment \<and> c \<in> set ''!()*'' then False
      else True)"

definition upperhex :: "nat \<Rightarrow> char" where
  "upperhex n = ''0123456789ABCDEF'' ! n"

definition url_escape :: "encoding \<Rightarrow> string \<Rightarrow> string" where
  "url_escape m s =
     concat (map (\<lambda>c. if shouldEscape m c then
                        if c = CHR '' '' \<and> m = encodeQueryComponent then ''+''
                        else [CHR ''%'', upperhex (byte c div 16), upperhex (byte c mod 16)]
                      else [c]) s)"

definition userinfo_String :: "userinfo \<Rightarrow> string" where
  "userinfo_String u =
     url_escape encodeUserPassword (fst u) @
     (case snd u of None \<Rightarrow> [] | Some p \<Rightarrow> '':'' @ url_escape encodeUserPassword p)"

text \<open>\<open>URL.String\<close>, for a URL whose path and fragment have their default encoding.\<close>

definition url_String :: "URL \<Rightarrow> string" where
  "url_String u =
     (let scheme = (if url_Scheme u \<noteq> [] then url_Scheme u @ '':'' else []);
          authority =
            (if url_Scheme u \<noteq> [] \<or> url_Host u \<noteq> [] \<or> url_User u \<noteq> None then
               (if url_Host u \<noteq> [] \<or> url_Path u \<noteq> [] \<or> url_User u \<noteq> None then ''//'' else []) @
               (case url_User u of None \<Rightarrow> [] | Some ui \<Rightarrow> userinfo_String ui @ ''@'') @
               url_escape encodeHost (url_Host u)
             else []);
          path = (if url_Path u = ''*'' then ''*'' else url_escape encodePath (url_Path u));
          slash = (if path \<noteq> [] \<and> hd path \<noteq> CHR ''/'' \<and> url_Host u \<noteq> [] then ''/'' else []);
          dot = (if scheme @ authority @ slash = [] \<and> CHR '':'' \<in> set (fst (str_Cut path ''/'')) then ''./'' else []) in
      scheme @
      (if url_Opaque u \<noteq> [] then url_Opaque u else authority @ slash @ dot @ path) @
      (if url_RawQuery u \<noteq> [] then ''?'' @ url_RawQuery u else []) @
      (if url_Fragment u \<noteq> [] then ''#'' @ url_escape encodeFragment (url_Fragment u) else []))"

end
