(* ===== verification/Image.thy ===== *)
theory Image
  imports Distribution Go_Url
begin

text \<open>
  \<open>pkg/oci/image.go\<close>: images, image events and the parser of image references.
\<close>

section \<open>Images\<close>

record Image =
  img_Name :: string
  img_Registry :: string
  img_Repository :: string
  img_Tag :: string
  img_Digest :: digest

type_synonym EventType = string

definition CreateEvent :: EventType where "CreateEvent = ''CREATE''"
definition UpdateEvent :: EventType where "UpdateEvent = ''UPDATE''"
definition DeleteEvent :: EventType where "DeleteEvent = ''DELETE''"

lemmas event_type_defs = CreateEvent_def UpdateEvent_def DeleteEvent_def

lemma event_types_distinct [simp]:
  "CreateEvent \<noteq> UpdateEvent" "CreateEvent \<noteq> DeleteEvent" "UpdateEvent \<noteq> DeleteEvent"
  "UpdateEvent \<noteq> CreateEvent" "DeleteEvent \<noteq> CreateEvent" "DeleteEvent \<noteq> UpdateEvent"
  by (simp_all add: event_type_defs)

record ImageEvent =
  ev_Image :: Image
  ev_Type :: EventType

definition NewImage :: "string \<Rightarrow> string \<Rightarrow> string \<Rightarrow> string \<Rightarrow> digest \<Rightarrow> Image result" where
  "NewImage name registry repository tag dgst =
     (if name = [] then Inl (Err ''image needs to contain a name'')
      else if registry = [] then Inl (Err ''image needs to contain a registry'')
      else if repository = [] then Inl (Err ''image needs to repository a digest'')
      else if dgst = [] then Inl (Err ''image needs to contain a digest'')
      else Inr \<lparr>img_Name = name, img_Registry = registry, img_Repository = repository,
                img_Tag = tag, img_Digest = dgst\<rparr>)"

definition IsLatestTag :: "Image \<Rightarrow> bool" where
  "IsLatestTag i = (img_Tag i = ''latest'')"

definition image_String :: "Image \<Rightarrow> string" where
  "image_String i =
     (let tag = (if img_Tag i \<noteq> [] then '':'' @ img_Tag i else []) in
      img_Registry i @ ''/'' @ img_Repository i @ tag @ ''@'' @ img_Digest i)"

definition TagName :: "Image \<Rightarrow> string \<times> bool" where
  "TagName i =
     (if img_Tag i = [] then ([], False)
      else (img_Registry i @ ''/'' @ img_Repository i @ '':'' @ img_Tag i, True))"

section \<open>Parsing a reference\<close>

definition splitRe :: regex where
  "splitRe = RClass (\<lambda>c. c = CHR '':'' \<or> c = CHR ''@'')"

text \<open>\<open>strings.SplitAfterN(obj, "@", 2)\<close> keeps the separator at the end of the first part.\<close>

definition str_SplitAfter2 :: "string \<Rightarrow> string \<Rightarrow> string list" where
  "str_SplitAfter2 s sep =
     (case str_Index s sep of
        None \<Rightarrow> [s]
      | Some i \<Rightarrow> [take (i + length sep) s, drop (i + length sep) s])"

definition splitObject :: "string \<Rightarrow> string \<times> digest" where
  "splitObject obj =
     (let parts = str_SplitAfter2 obj ''@'' in
      if length parts < 2 then (parts ! 0, []) else (parts ! 0, parts ! 1))"

definition Parse :: "string \<Rightarrow> digest \<Rightarrow> Image result" where
  "Parse s extraDgst =
     (if str_Contains s ''://'' then Inl (Err ''invalid reference'')
      else bind_result (url_Parse (''dummy://'' @ s)) (\<lambda>u.
        if url_Scheme u \<noteq> ''dummy'' then Inl (Err ''invalid reference'')
        else if url_Host u = [] then Inl (Err ''hostname required'')
        else
          let (object, path) =
                (case FindStringIndex splitRe (url_Path u) of
                   None \<Rightarrow> ([], url_Path u)
                 | Some (i, _) \<Rightarrow>
                     (let object = drop i (url_Path u) in
                      (if take 1 object = '':'' then drop 1 object else object, take i (url_Path u))));
              (tag0, dgst0) = splitObject object;
              (tag, _, _) = str_Cut tag0 ''@'';
              repository = str_TrimPrefix path ''/'';
              dgst = (if dgst0 = [] then extraDgst else dgst0) in
          if extraDgst \<noteq> [] \<and> dgst \<noteq> extraDgst then
            Inl (Err (''invalid digest set does not match parsed digest: '' @ s @ '' '' @ dgst))
          else NewImage s (url_Host u) repository tag dgst))"

section \<open>Facts about the parts of the parser\<close>

lemma FindStringIndex_class_None:
  assumes "\<forall>x \<in> set s. \<not> P x"
  shows "FindStringIndex (RClass P) s = None"
proof -
  from assms have "rfind (RClass P) b s = None" for b by (induction s arbitrary: b) auto
  then show ?thesis by (simp add: FindStringIndex_def)
qed

lemma FindStringIndex_class_Some:
  assumes "\<forall>x \<in> set s. \<not> P x" and "P c"
  shows "FindStringIndex (RClass P) (s @ c # t) = Some (length s, Suc (length s))"
proof -
  from assms have "rfind (RClass P) b (s @ c # t) = Some (s, [c], t, [])" for b
    by (induction s arbitrary: b) auto
  then show ?thesis by (simp add: FindStringIndex_def)
qed

lemma splitObject_none: "CHR ''@'' \<notin> set obj \<Longrightarrow> splitObject obj = (obj, [])"
  by (simp add: splitObject_def str_SplitAfter2_def)

lemma splitObject_at: "CHR ''@'' \<notin> set t \<Longrightarrow> splitObject (t @ ''@'' @ d) = (t @ ''@'', d)"
  by (simp add: splitObject_def str_SplitAfter2_def)

text \<open>What the parser guarantees of every image it returns.\<close>

definition image_ok :: "Image \<Rightarrow> bool" where
  "image_ok i \<longleftrightarrow> img_Name i \<noteq> [] \<and> img_Registry i \<noteq> [] \<and> img_Repository i \<noteq> [] \<and> img_Digest i \<noteq> []"

lemma NewImage_ok: "NewImage n r p t d = Inr i \<Longrightarrow> image_ok i \<and> img_Name i = n \<and> img_Digest i = d"
  by (auto simp: NewImage_def image_ok_def split: if_splits)

lemma Parse_Inr:
  assumes "Parse s e = Inr i"
  shows "image_ok i \<and> img_Name i = s \<and> (e \<noteq> [] \<longrightarrow> img_Digest i = e)"
  using assms unfolding Parse_def bind_result_def
  by (auto simp: Let_def split: if_splits sum.splits option.splits prod.splits dest!: NewImage_ok)

section \<open>Well-formed references\<close>

text \<open>
  Executable predicates for the parts of a reference as registries use them: a host name with
  an optional port, a repository path, a tag and a digest; and the reference they make up.
\<close>

definition registry_host :: "string \<Rightarrow> bool" where
  "registry_host h =
     (h \<noteq> [] \<and> list_all (\<lambda>c. plain_byte c \<or> c = CHR '':'') h \<and>
      (case str_LastIndexByte h (CHR '':'') of None \<Rightarrow> True | Some i \<Rightarrow> validOptionalPort (drop i h)))"

definition repository_path :: "string \<Rightarrow> bool" where
  "repository_path r = (r \<noteq> [] \<and> hd r \<noteq> CHR ''/'' \<and> list_all (\<lambda>c. plain_byte c \<or> c = CHR ''/'') r)"

definition tag_or_empty :: "string \<Rightarrow> bool" where
  "tag_or_empty t = list_all tag_char t"

definition digest_or_empty :: "string \<Rightarrow> bool" where
  "digest_or_empty d = list_all (\<lambda>c. plain_byte c \<or> c = CHR '':'' \<or> c = CHR ''+'') d"

definition image_ref :: "string \<Rightarrow> string \<Rightarrow> string \<Rightarrow> digest \<Rightarrow> string" where
  "image_ref reg repo tag dgst =
     reg @ ''/'' @ repo @ (if tag = [] then [] else '':'' @ tag) @ (if dgst = [] then [] else ''@'' @ dgst)"

lemma byte_classes:
  "plain_byte c \<Longrightarrow> \<not> ctl_byte c \<and> c \<noteq> CHR ''%'' \<and> c \<noteq> CHR ''?'' \<and> c \<noteq> CHR ''#'' \<and> c \<noteq> CHR ''/'' \<and>
     c \<noteq> CHR '':'' \<and> c \<noteq> CHR ''@'' \<and> c \<noteq> CHR ''['' \<and> \<not> shouldEscape_host c"
  "tag_char c \<Longrightarrow> plain_byte c"
  by (auto simp: plain_byte_def letter_def digit_def ctl_byte_def shouldEscape_host_def
      tag_char_def tag_first_def)

lemma not_plain_byte [simp]:
  "\<not> plain_byte (CHR ''%'')" "\<not> plain_byte (CHR ''?'')" "\<not> plain_byte (CHR ''#'')"
  "\<not> plain_byte (CHR ''/'')" "\<not> plain_byte (CHR '':'')" "\<not> plain_byte (CHR ''@'')"
  using byte_classes(1) by blast+

lemma special_bytes [simp]:
  "\<not> ctl_byte (CHR ''/'')" "\<not> ctl_byte (CHR '':'')" "\<not> ctl_byte (CHR ''@'')" "\<not> ctl_byte (CHR ''+'')"
  "\<not> shouldEscape_host (CHR '':'')"
  by (simp_all add: ctl_byte_def shouldEscape_host_def)

lemma registry_host_bytes:
  assumes "registry_host h" and "c \<in> set h"
  shows "\<not> ctl_byte c \<and> c \<noteq> CHR ''%'' \<and> c \<noteq> CHR ''?'' \<and> c \<noteq> CHR ''#'' \<and> c \<noteq> CHR ''/'' \<and> c \<noteq> CHR ''@'' \<and>
    c \<noteq> CHR ''['' \<and> \<not> shouldEscape_host c"
proof -
  from assms have "plain_byte c \<or> c = CHR '':''" by (simp add: registry_host_def list_all_iff)
  then show ?thesis
  proof
    assume "plain_byte c"
    from byte_classes(1) [OF this] show ?thesis by simp
  qed simp
qed

lemma parseAuthority_registry_host:
  assumes "registry_host h"
  shows "parseAuthority h = Inr (None, h)"
proof -
  have "unescape encodeHost h = Inr h"
    by (rule unescape_id) (use registry_host_bytes [OF assms] in auto)
  moreover have "\<not> prefix ''['' h"
    using registry_host_bytes [OF assms] by (cases h) auto
  ultimately have "parseHost h = Inr h"
    using assms unfolding parseHost_def registry_host_def
    by (cases "str_LastIndexByte h (CHR '':'')") simp_all
  moreover have "str_LastIndexByte h (CHR ''@'') = None"
    by (intro str_LastIndexByte_None) (use registry_host_bytes [OF assms] in auto)
  ultimately show ?thesis by (simp add: parseAuthority_def)
qed

lemma getScheme_dummy: "getScheme (''dummy:'' @ s) = Inr (''dummy'', s)"
  by (simp add: getScheme_def letter_def digit_def)

lemma url_Parse_dummy:
  assumes h: "registry_host h"
    and p: "\<forall>c \<in> set p. \<not> ctl_byte c \<and> c \<noteq> CHR ''%'' \<and> c \<noteq> CHR ''?'' \<and> c \<noteq> CHR ''#''"
  shows "url_Parse (''dummy://'' @ h @ ''/'' @ p) =
     Inr \<lparr>url_Scheme = ''dummy'', url_Opaque = [], url_User = None, url_Host = h, url_Path = ''/'' @ p,
          url_RawQuery = [], url_Fragment = []\<rparr>"
proof -
  let ?s = "''//'' @ h @ ''/'' @ p"
  note hb = registry_host_bytes [OF h]
  have "str_Cut (''dummy:'' @ ?s) ''#'' = (''dummy:'' @ ?s, [], False)"
    by (rule str_Cut_byte_None) (use hb p in auto)
  moreover have "str_Cut ?s ''?'' = (?s, [], False)"
    by (rule str_Cut_byte_None) (use hb p in auto)
  moreover have "\<not> list_ex ctl_byte (''dummy:'' @ ?s)"
    using hb p by (auto simp: list_ex_iff ctl_byte_def)
  moreover have "str_Index (h @ ''/'' @ p) ''/'' = Some (length h)"
    unfolding append.append_Cons append.append_Nil by (rule str_Index_byte_Some) (use hb in auto)
  moreover have "unescape encodePath (''/'' @ p) = Inr (''/'' @ p)"
    by (rule unescape_path) (use p in auto)
  moreover have "map to_lower ''dummy'' = ''dummy''" by (simp add: to_lower_def)
  ultimately show ?thesis
    using getScheme_dummy [of ?s] parseAuthority_registry_host [OF h]
    by (simp add: url_Parse_def url_parse_def setPath_def)
qed

lemma no_scheme_separator:
  assumes "registry_host reg" and "repository_path repo" and "CHR ''/'' \<notin> set u"
  shows "\<not> str_Contains (reg @ ''/'' @ repo @ u) ''://''"
proof
  assume "str_Contains (reg @ ''/'' @ repo @ u) ''://''"
  then obtain x y where xy: "reg @ ''/'' @ repo @ u = x @ ''://'' @ y"
    unfolding str_Contains_iff sublist_def by blast
  have colon: "CHR '':'' \<notin> set repo"
    using assms(2) byte_classes(1) by (fastforce simp: repository_path_def list_all_iff)
  have slash: "CHR ''/'' \<notin> set reg" using registry_host_bytes [OF assms(1)] by blast
  from xy consider us where "reg = x @ us" "us @ ''/'' @ repo @ u = ''://'' @ y"
    | us where "x = reg @ us" "''/'' @ repo @ u = us @ ''://'' @ y"
    by (auto simp: append_eq_append_conv2)
  then show False
  proof cases
    case 1
    then show ?thesis using slash assms(2) by (cases us) (auto simp: append_eq_Cons_conv repository_path_def)
  next
    case 2
    then obtain vs where vs: "us = CHR ''/'' # vs" "repo @ u = vs @ ''://'' @ y" by (cases us) auto
    then have "CHR ''/'' \<in> set u \<or> CHR '':'' \<in> set repo"
      by (auto simp: append_eq_append_conv2 append_eq_Cons_conv)
    with assms(3) colon show ?thesis by blast
  qed
qed

text \<open>The parser on a path that splits into a repository without separators and an object.\<close>

lemma Parse_split:
  assumes "\<not> str_Contains s ''://''"
    and "url_Parse (''dummy://'' @ s) = Inr u" and "url_Scheme u = ''dummy''" and "url_Host u \<noteq> []"
    and "url_Path u = ''/'' @ repo @ obj" and "\<forall>c \<in> set repo. c \<noteq> CHR '':'' \<and> c \<noteq> CHR ''@''"
    and "obj = [] \<or> obj = '':'' @ object \<or> obj = ''@'' @ v \<and> object = obj"
    and "obj = [] \<longrightarrow> object = []"
    and "splitObject object = (tag0, d0)" and "str_Cut tag0 ''@'' = (tag, rest)"
  shows "Parse s e =
     (let dgst = (if d0 = [] then e else d0) in
      if e \<noteq> [] \<and> dgst \<noteq> e then
        Inl (Err (''invalid digest set does not match parsed digest: '' @ s @ '' '' @ dgst))
      else NewImage s (url_Host u) repo tag dgst)"
proof -
  have "(case FindStringIndex splitRe (url_Path u) of None \<Rightarrow> ([], url_Path u)
      | Some (i, _) \<Rightarrow> (let object = drop i (url_Path u) in
            (if take 1 object = '':'' then drop 1 object else object, take i (url_Path u))))
      = (object, ''/'' @ repo)"
  proof (cases "obj = []")
    case True
    have "FindStringIndex splitRe (''/'' @ repo) = None"
      unfolding splitRe_def by (rule FindStringIndex_class_None) (use assms(6) in auto)
    with True assms(5,8) show ?thesis by simp
  next
    case False
    with assms(7) obtain c t where obj: "obj = c # t" "c = CHR '':'' \<or> c = CHR ''@''" by auto
    have "FindStringIndex splitRe ((''/'' @ repo) @ c # t) = Some (length (''/'' @ repo), Suc (length (''/'' @ repo)))"
      unfolding splitRe_def by (rule FindStringIndex_class_Some) (use assms(6) obj(2) in auto)
    with obj assms(5,7) show ?thesis by auto
  qed
  moreover have "str_TrimPrefix (''/'' @ repo) ''/'' = repo" by (simp add: str_TrimPrefix_def)
  ultimately show ?thesis
    using assms(1-4,9,10) by (cases rest) (simp add: Parse_def)
qed

lemma Parse_image_ref:
  assumes reg: "registry_host reg" and repo: "repository_path repo"
    and tag: "tag_or_empty tag" and dg: "digest_or_empty dgst"
  shows "Parse (image_ref reg repo tag dgst) e =
     (let d = (if dgst = [] then e else dgst) in
      if e \<noteq> [] \<and> d \<noteq> e then
        Inl (Err (''invalid digest set does not match parsed digest: '' @ image_ref reg repo tag dgst @ '' '' @ d))
      else NewImage (image_ref reg repo tag dgst) reg repo tag d)"
proof -
  let ?u = "(if tag = [] then [] else '':'' @ tag) @ (if dgst = [] then [] else ''@'' @ dgst)"
  have ref: "image_ref reg repo tag dgst = reg @ ''/'' @ repo @ ?u" by (simp add: image_ref_def)
  have bytes: "\<forall>c \<in> set repo. plain_byte c \<or> c = CHR ''/''" "\<forall>c \<in> set tag. plain_byte c"
    "\<forall>c \<in> set dgst. plain_byte c \<or> c = CHR '':'' \<or> c = CHR ''+''"
    using repo tag dg byte_classes(2)
    by (auto simp: repository_path_def tag_or_empty_def digest_or_empty_def list_all_iff)
  have noslash: "CHR ''/'' \<notin> set ?u" using bytes by (auto split: if_splits)
  have "\<forall>c \<in> set (repo @ ?u). plain_byte c \<or> c \<in> {CHR ''/'', CHR '':'', CHR ''@'', CHR ''+''}"
    using bytes by auto
  then have p: "\<forall>c \<in> set (repo @ ?u). \<not> ctl_byte c \<and> c \<noteq> CHR ''%'' \<and> c \<noteq> CHR ''?'' \<and> c \<noteq> CHR ''#''"
    using byte_classes(1) by fastforce
  have sep: "\<forall>c \<in> set repo. c \<noteq> CHR '':'' \<and> c \<noteq> CHR ''@''" "CHR ''@'' \<notin> set tag"
    using bytes by auto
  let ?object = "tag @ (if dgst = [] then [] else ''@'' @ dgst)"
  obtain tag0 rest where split: "splitObject ?object = (tag0, dgst)" and cut: "str_Cut tag0 ''@'' = (tag, rest)"
  proof (cases "dgst = []")
    case True
    then show ?thesis using that [of tag] sep(2) splitObject_none by simp
  next
    case False
    then show ?thesis using that [of "tag @ ''@''"] sep(2) splitObject_at [of tag dgst] by simp
  qed
  have "reg \<noteq> []" using reg by (simp add: registry_host_def)
  then show ?thesis
    unfolding ref
    by (subst Parse_split [OF no_scheme_separator [OF reg repo noslash] url_Parse_dummy [OF reg p] _ _ _ sep(1) _ _ split cut,
          where v = dgst]) (auto split: if_splits)
qed

section \<open>The contract of the parser\<close>

text \<open>
  C33. The parser on every well-formed reference: the parts come back exactly, the digest
  argument is used when the reference has none, a digest that differs from the argument is an
  error, and so is a reference without any digest.
\<close>

theorem Parse_reference:
  assumes "registry_host reg" and "repository_path repo" and "tag_or_empty tag" and "digest_or_empty dgst"
  shows "Parse (image_ref reg repo tag dgst) e =
     (if dgst \<noteq> [] \<and> e \<noteq> [] \<and> dgst \<noteq> e then
        Inl (Err (''invalid digest set does not match parsed digest: '' @ image_ref reg repo tag dgst @ '' '' @ dgst))
      else if dgst = [] \<and> e = [] then Inl (Err ''image needs to contain a digest'')
      else Inr \<lparr>img_Name = image_ref reg repo tag dgst, img_Registry = reg, img_Repository = repo,
                img_Tag = tag, img_Digest = (if dgst = [] then e else dgst)\<rparr>)"
proof -
  have "image_ref reg repo tag dgst \<noteq> []" by (simp add: image_ref_def)
  moreover have "reg \<noteq> []" "repo \<noteq> []" using assms by (simp_all add: registry_host_def repository_path_def)
  ultimately show ?thesis using Parse_image_ref [OF assms, of e] by (auto simp: Let_def NewImage_def)
qed

theorem Parse_reference_witness:
  "Parse ''localhost:5000/library/ubuntu:latest'' ''sha256:b060'' =
     Inr \<lparr>img_Name = ''localhost:5000/library/ubuntu:latest'', img_Registry = ''localhost:5000'',
          img_Repository = ''library/ubuntu'', img_Tag = ''latest'', img_Digest = ''sha256:b060''\<rparr>"
proof -
  have "registry_host ''localhost:5000''" "repository_path ''library/ubuntu''" "tag_or_empty ''latest''"
    "digest_or_empty ''''" by code_simp+
  from Parse_reference [OF this, of "''sha256:b060''"] show ?thesis by (simp add: image_ref_def)
qed

text \<open>
  C32. Printing and parsing: the text of a well-formed image parses back to the same image,
  with that text as its name.
\<close>

theorem Parse_image_String:
  assumes "registry_host (img_Registry i)" and "repository_path (img_Repository i)"
    and "tag_or_empty (img_Tag i)" and "digest_or_empty (img_Digest i)" and "img_Digest i \<noteq> []"
  shows "Parse (image_String i) [] = Inr (i\<lparr>img_Name := image_String i\<rparr>)"
proof -
  have "image_String i = image_ref (img_Registry i) (img_Repository i) (img_Tag i) (img_Digest i)"
    using assms(5) by (simp add: image_String_def image_ref_def)
  moreover have "image_ref (img_Registry i) (img_Repository i) (img_Tag i) (img_Digest i) \<noteq> []"
    by (simp add: image_ref_def)
  ultimately show ?thesis
    using Parse_image_ref [OF assms(1-4), of "[]"] assms
    by (cases i) (simp add: NewImage_def registry_host_def repository_path_def Let_def)
qed

theorem Parse_image_String_witness:
  "Parse ''ghcr.io/spegel-org/spegel:v0.0.9@sha256:fa32'' [] =
     Inr \<lparr>img_Name = ''ghcr.io/spegel-org/spegel:v0.0.9@sha256:fa32'', img_Registry = ''ghcr.io'',
          img_Repository = ''spegel-org/spegel'', img_Tag = ''v0.0.9'', img_Digest = ''sha256:fa32''\<rparr>"
proof -
  let ?i = "\<lparr>img_Name = ''x'', img_Registry = ''ghcr.io'', img_Repository = ''spegel-org/spegel'',
             img_Tag = ''v0.0.9'', img_Digest = ''sha256:fa32''\<rparr>"
  have "registry_host (img_Registry ?i)" "repository_path (img_Repository ?i)"
    "tag_or_empty (img_Tag ?i)" "digest_or_empty (img_Digest ?i)" "img_Digest ?i \<noteq> []" by code_simp+
  from Parse_image_String [OF this] show ?thesis by (simp add: image_String_def)
qed

text \<open>
  C34. Whatever the reference, a parsed image has a name, a registry, a repository and a
  digest, its name is the text that was parsed, and a digest argument is its digest.
\<close>

theorem Parse_image_ok:
  assumes "Parse s e = Inr i"
  shows "image_ok i \<and> img_Name i = s \<and> (e \<noteq> [] \<longrightarrow> img_Digest i = e)"
  using assms by (rule Parse_Inr)

theorem Parse_image_ok_witness:
  "image_ok \<lparr>img_Name = ''quay.io/a/b@sha256:13fd'', img_Registry = ''quay.io'', img_Repository = ''a/b'',
            img_Tag = [], img_Digest = ''sha256:13fd''\<rparr>"
proof -
  have "Parse ''quay.io/a/b@sha256:13fd'' ''sha256:13fd'' =
    Inr \<lparr>img_Name = ''quay.io/a/b@sha256:13fd'', img_Registry = ''quay.io'', img_Repository = ''a/b'',
         img_Tag = [], img_Digest = ''sha256:13fd''\<rparr>" by code_simp
  from Parse_image_ok [OF this] show ?thesis by blast
qed

end
