(* ===== verification/Go_Http.thy ===== *)
theory Go_Http
  imports Go_Prelude
begin

text \<open>
  Packages \<open>net/http\<close>, \<open>net\<close>, \<open>io\<close> and \<open>path\<close> as the sources use them: headers, requests, the
  server's response writer, readers and \<open>io.Copy\<close>, \<open>net.SplitHostPort\<close> and \<open>path.Clean\<close>.
\<close>

section \<open>Headers and requests\<close>

text \<open>
  A header maps canonical keys to their values. The sources only use keys that are in
  canonical form already, and the server brings the keys of a request into it.
\<close>

type_synonym header = "string \<rightharpoonup> string list"

definition header_Get :: "header \<Rightarrow> string \<Rightarrow> string" where
  "header_Get h k = (case h k of Some (v # _) \<Rightarrow> v | _ \<Rightarrow> [])"

definition header_Set :: "header \<Rightarrow> string \<Rightarrow> string \<Rightarrow> header" where
  "header_Set h k v = h(k \<mapsto> [v])"

lemma header_Get_Set [simp]:
  "header_Get (header_Set h k v) k' = (if k' = k then v else header_Get h k')"
  by (simp add: header_Get_def header_Set_def)

text \<open>
  A request of the server. Its context is given by what a handler can see of it: \<open>req_Done\<close> is the
  number of rounds after which a select that also waits for something else finds the context
  done (\<^const>\<open>None\<close> when it never does), \<open>req_ctxErr\<close> the error of the context then.
\<close>

record Request =
  req_Method :: string
  req_Path :: string
  req_RawQuery :: string
  req_Header :: header
  req_Host :: string
  req_RemoteAddr :: string
  req_TLS :: bool
  req_Done :: "nat option"
  req_ctxErr :: error

definition MethodGet :: string where "MethodGet = ''GET''"
definition MethodHead :: string where "MethodHead = ''HEAD''"

section \<open>The server's response writer\<close>

text \<open>
  The state of \<open>http.response\<close>: the header map the handler edits, what has been sent (status,
  header, body, informational responses), the declared content length, whether the request
  is a HEAD request, how many more bytes of body the connection accepts before it fails
  (\<^const>\<open>None\<close> for a connection that does not fail), and whether the handler has taken the
  connection over.
\<close>

record http_writer =
  hw_head :: bool
  hw_header :: header
  hw_wroteHeader :: bool
  hw_status :: int
  hw_sentHeader :: header
  hw_informational :: "int list"
  hw_contentLength :: "nat option"
  hw_written :: nat
  hw_body :: string
  hw_conn :: "nat option"
  hw_hijacked :: bool

definition http_new_writer :: "bool \<Rightarrow> nat option \<Rightarrow> http_writer" where
  "http_new_writer head conn =
     \<lparr>hw_head = head, hw_header = Map.empty, hw_wroteHeader = False, hw_status = 0,
      hw_sentHeader = Map.empty, hw_informational = [], hw_contentLength = None, hw_written = 0,
      hw_body = [], hw_conn = conn, hw_hijacked = False\<rparr>"

definition http_informational :: "int \<Rightarrow> bool" where
  "http_informational code = (100 \<le> code \<and> code \<le> 199 \<and> code \<noteq> 101)"

text \<open>
  \<open>WriteHeader\<close>: nothing is sent on a connection that was taken over, a second final status is ignored (and logged), an informational status is sent
  at once and does not count, any other one is recorded with the header as it is now. The
  sources pass constants between 100 and 999, the codes that do not panic.
\<close>

definition http_WriteHeader :: "http_writer \<Rightarrow> int \<Rightarrow> http_writer" where
  "http_WriteHeader w code =
     (if hw_hijacked w then w
      else if hw_wroteHeader w then w
      else if http_informational code then w\<lparr>hw_informational := hw_informational w @ [code]\<rparr>
      else w\<lparr>hw_wroteHeader := True, hw_status := code, hw_sentHeader := hw_header w,
             hw_contentLength := parse_nat (header_Get (hw_header w) ''Content-Length'')\<rparr>)"

definition body_allowed :: "int \<Rightarrow> bool" where
  "body_allowed code = (\<not> (100 \<le> code \<and> code \<le> 199) \<and> code \<noteq> 204 \<and> code \<noteq> 304)"

definition ErrHijacked :: error where "ErrHijacked = Err ''http: connection has been hijacked''"

definition http_Write :: "http_writer \<Rightarrow> string \<Rightarrow> http_writer \<times> nat \<times> error option" where
  "http_Write w0 b =
     (if hw_hijacked w0 then (w0, 0, Some ErrHijacked)
      else
      let w = http_WriteHeader w0 200; w' = w\<lparr>hw_written := hw_written w + length b\<rparr> in
      if b = [] then (w, 0, None)
      else if \<not> body_allowed (hw_status w) then
        (w, 0, Some (Err ''http: request method or response status code does not allow body''))
      else if (case hw_contentLength w of None \<Rightarrow> False | Some n \<Rightarrow> n < hw_written w') then
        (w', 0, Some (Err ''http: wrote more than the declared Content-Length''))
      else if hw_head w then (w', length b, None)
      else
        (case hw_conn w of
           None \<Rightarrow> (w'\<lparr>hw_body := hw_body w @ b\<rparr>, length b, None)
         | Some k \<Rightarrow>
             if length b \<le> k then (w'\<lparr>hw_body := hw_body w @ b, hw_conn := Some (k - length b)\<rparr>, length b, None)
             else (w'\<lparr>hw_body := hw_body w @ take k b, hw_conn := Some 0\<rparr>, k, Some (Err ''write failed''))))"

text \<open>\<open>Hijack\<close>: a connection can be taken over once.\<close>

definition http_Hijack :: "http_writer \<Rightarrow> http_writer \<times> unit result" where
  "http_Hijack w =
     (if hw_hijacked w then (w, Inl ErrHijacked) else (w\<lparr>hw_hijacked := True\<rparr>, Inr ()))"

definition http_Flush :: "http_writer \<Rightarrow> http_writer" where
  "http_Flush w = http_WriteHeader w 200"

text \<open>The status the client sees once the handler has returned.\<close>

definition wire_status :: "http_writer \<Rightarrow> int" where
  "wire_status w = (if hw_wroteHeader w then hw_status w else 200)"

text \<open>The header the client sees: the one sent with the status, or the handler's when nothing was written.\<close>

definition wire_header :: "http_writer \<Rightarrow> header" where
  "wire_header w = (if hw_wroteHeader w then hw_sentHeader w else hw_header w)"

lemma http_WriteHeader_wrote [simp]: "hw_wroteHeader w \<Longrightarrow> http_WriteHeader w code = w"
  by (simp add: http_WriteHeader_def)

lemma http_WriteHeader_200:
  "\<not> hw_hijacked w \<Longrightarrow> hw_wroteHeader (http_WriteHeader w 200)"
  "wire_status (http_WriteHeader w 200) = wire_status w"
  "wire_header (http_WriteHeader w 200) = wire_header w"
  "hw_hijacked (http_WriteHeader w 200) = hw_hijacked w"
  by (simp_all add: http_WriteHeader_def http_informational_def wire_status_def wire_header_def)

lemma http_Write_frame:
  assumes "http_Write w b = (w', n, e)"
  shows "(\<not> hw_hijacked w \<longrightarrow> hw_wroteHeader w') \<and> wire_status w' = wire_status w \<and>
    wire_header w' = wire_header w \<and> hw_head w' = hw_head w \<and> hw_hijacked w' = hw_hijacked w"
proof (cases "hw_hijacked w")
  case False
  let ?v = "http_WriteHeader w 200"
  from assms False have "hw_wroteHeader w' = hw_wroteHeader ?v" "hw_hijacked w' = hw_hijacked ?v" "hw_status w' = hw_status ?v"
    "hw_sentHeader w' = hw_sentHeader ?v" "hw_header w' = hw_header ?v" "hw_head w' = hw_head ?v"
    by (auto simp: http_Write_def Let_def split: if_splits option.splits)
  with http_WriteHeader_200 [of w] show ?thesis
    by (simp add: wire_status_def wire_header_def http_WriteHeader_def split: if_splits)
qed (use assms in \<open>auto simp: http_Write_def\<close>)

section \<open>Readers and io.Copy\<close>

text \<open>A reader: the pieces its reads return, and the error (other than EOF) that ends it, if any.\<close>

type_synonym reader = "string list \<times> error option"

fun io_Copy_chunks :: "('w \<Rightarrow> string \<Rightarrow> 'w \<times> nat \<times> error option) \<Rightarrow> 'w \<Rightarrow> nat \<Rightarrow> string list \<Rightarrow>
    error option \<Rightarrow> 'w \<times> nat \<times> error option" where
  "io_Copy_chunks wr w n [] e = (w, n, e)"
| "io_Copy_chunks wr w n (b # bs) e =
     (if b = [] then io_Copy_chunks wr w n bs e
      else
        (case wr w b of (w', k, err) \<Rightarrow>
           (case err of
              Some x \<Rightarrow> (w', n + k, Some x)
            | None \<Rightarrow>
                if k \<noteq> length b then (w', n + k, Some (Err ''short write''))
                else io_Copy_chunks wr w' (n + k) bs e)))"

definition io_Copy :: "('w \<Rightarrow> string \<Rightarrow> 'w \<times> nat \<times> error option) \<Rightarrow> 'w \<Rightarrow> reader \<Rightarrow> 'w \<times> nat \<times> error option" where
  "io_Copy wr w rd = io_Copy_chunks wr w 0 (fst rd) (snd rd)"

text \<open>A property that every write keeps is kept by a copy.\<close>

lemma io_Copy_chunks_invariant:
  assumes "\<And>w b w' k err. P w \<Longrightarrow> wr w b = (w', k, err) \<Longrightarrow> P w'"
  shows "P w \<Longrightarrow> io_Copy_chunks wr w n bs e = (w', m, err) \<Longrightarrow> P w'"
proof (induction bs arbitrary: w n)
  case (Cons b bs)
  obtain v k x where wr: "wr w b = (v, k, x)" by (cases "wr w b")
  with assms Cons.prems(1) have "P v" by blast
  with Cons wr show ?case by (auto split: if_splits option.splits)
qed simp

lemma io_Copy_invariant:
  assumes "\<And>w b w' k err. P w \<Longrightarrow> wr w b = (w', k, err) \<Longrightarrow> P w'"
    and "P w" and "io_Copy wr w rd = (w', m, err)"
  shows "P w'"
  by (rule io_Copy_chunks_invariant [of P wr, OF assms(1) assms(2) assms(3) [unfolded io_Copy_def]])

text \<open>A copy from a reader without error, when every write accepts all its bytes.\<close>

lemma io_Copy_chunks_total:
  assumes "\<And>w b. P w (length b) \<Longrightarrow> b \<noteq> [] \<Longrightarrow> \<exists>w'. wr w b = (w', length b, None) \<and> body w' = body w @ b \<and>
             (\<forall>k. P w (length b + k) \<longrightarrow> P w' k)"
    and "\<And>w k k'. P w k \<Longrightarrow> k' \<le> k \<Longrightarrow> P w k'"
    and "P w (length (concat bs))"
  shows "\<exists>w'. io_Copy_chunks wr w n bs e = (w', n + length (concat bs), e) \<and> body w' = body w @ concat bs"
  using assms(3)
proof (induction bs arbitrary: w n)
  case (Cons b bs)
  show ?case
  proof (cases "b = []")
    case True
    with Cons show ?thesis by simp
  next
    case False
    have "P w (length b)" using assms(2) [of w "length (concat (b # bs))"] Cons.prems by simp
    then obtain v where v: "wr w b = (v, length b, None)" "body v = body w @ b" "P v (length (concat bs))"
      using assms(1) [of w b] Cons.prems False by auto
    with Cons.IH [OF v(3), of "n + length b"] False show ?thesis by (auto simp: algebra_simps)
  qed
qed simp

section \<open>Package net\<close>

text \<open>\<open>net.SplitHostPort\<close>, with the checks in the order of the library.\<close>

definition SplitHostPort :: "string \<Rightarrow> (string \<times> string) result" where
  "SplitHostPort hostport =
     (case str_LastIndexByte hostport (CHR '':'') of
        None \<Rightarrow> Inl (Err ''missing port in address'')
      | Some i \<Rightarrow>
          bind_result
            (if prefix ''['' hostport then
               (case str_Index hostport '']'' of
                  None \<Rightarrow> Inl (Err ''missing ']' in address'')
                | Some e \<Rightarrow>
                    if e + 1 = length hostport then Inl (Err ''missing port in address'')
                    else if e + 1 = i then Inr (drop 1 (take e hostport), 1, e + 1)
                    else if hostport ! (e + 1) = CHR '':'' then Inl (Err ''too many colons in address'')
                    else Inl (Err ''missing port in address''))
             else if CHR '':'' \<in> set (take i hostport) then Inl (Err ''too many colons in address'')
             else Inr (take i hostport, 0, 0))
            (\<lambda>(host, j, k).
              if CHR ''['' \<in> set (drop j hostport) then Inl (Err ''unexpected '[' in address'')
              else if CHR '']'' \<in> set (drop k hostport) then Inl (Err ''unexpected ']' in address'')
              else Inr (host, drop (i + 1) hostport)))"

lemma SplitHostPort_plain:
  assumes "\<forall>c \<in> set h. c \<noteq> CHR '':'' \<and> c \<noteq> CHR ''['' \<and> c \<noteq> CHR '']''"
    and "\<forall>c \<in> set p. c \<noteq> CHR '':'' \<and> c \<noteq> CHR ''['' \<and> c \<noteq> CHR '']''"
  shows "SplitHostPort (h @ '':'' @ p) = Inr (h, p)"
proof -
  have bytes: "CHR '':'' \<notin> set h" "CHR ''['' \<notin> set h" "CHR '']'' \<notin> set h"
    "CHR '':'' \<notin> set p" "CHR ''['' \<notin> set p" "CHR '']'' \<notin> set p"
    using assms by blast+
  moreover have "str_LastIndexByte (h @ '':'' @ p) (CHR '':'') = Some (length h)"
    using str_LastIndexByte_Some [OF bytes(4), of h] by simp
  moreover have "\<not> prefix ''['' (h @ '':'' @ p)" using bytes(2) by (cases h) auto
  ultimately show ?thesis by (simp add: SplitHostPort_def)
qed

section \<open>Package path\<close>

text \<open>
  \<open>path.Clean\<close>: empty and \<open>.\<close> elements are dropped, \<open>..\<close> removes the element before it (at the
  root, nothing), and an empty result is \<open>.\<close>. The stack holds the kept elements, last first.
\<close>

fun clean_elements :: "bool \<Rightarrow> string list \<Rightarrow> string list \<Rightarrow> string list" where
  "clean_elements rooted stack [] = rev stack"
| "clean_elements rooted stack (c # cs) =
     (if c = [] \<or> c = ''.'' then clean_elements rooted stack cs
      else if c = ''..'' then
        (case stack of
           [] \<Rightarrow> clean_elements rooted (if rooted then [] else [c]) cs
         | prev # rest \<Rightarrow>
             if prev = ''..'' then clean_elements rooted (c # stack) cs
             else clean_elements rooted rest cs)
      else clean_elements rooted (c # stack) cs)"

definition path_Clean :: "string \<Rightarrow> string" where
  "path_Clean p =
     (if p = [] then ''.''
      else
        let rooted = prefix ''/'' p;
            s = str_Join (clean_elements rooted [] (str_SplitByte p (CHR ''/''))) ''/'' in
        if rooted then ''/'' @ s else if s = [] then ''.'' else s)"

text \<open>\<open>path.Join\<close>: the non-empty elements joined with slashes, cleaned; empty when all are.\<close>

definition path_Join :: "string list \<Rightarrow> string" where
  "path_Join elems =
     (let es = dropWhile (\<lambda>e. e = []) elems in
      if es = [] then [] else path_Clean (str_Join (filter (\<lambda>e. e \<noteq> []) es) ''/''))"

section \<open>Writes that are accepted\<close>

text \<open>
  A writer that accepts \<open>k\<close> more bytes: the connection does not fail and is still the server's, the request is not a HEAD
  request, the status allows a body and the declared length, if any, is not exceeded.
\<close>

definition http_accepts :: "http_writer \<Rightarrow> nat \<Rightarrow> bool" where
  "http_accepts w k \<longleftrightarrow> hw_conn w = None \<and> \<not> hw_hijacked w \<and> \<not> hw_head w \<and> body_allowed (wire_status w) \<and>
     (case (if hw_wroteHeader w then hw_contentLength w
            else parse_nat (header_Get (hw_header w) ''Content-Length'')) of
        None \<Rightarrow> True | Some n \<Rightarrow> hw_written w + k \<le> n)"

lemma http_accepts_mono: "http_accepts w k \<Longrightarrow> k' \<le> k \<Longrightarrow> http_accepts w k'"
  by (auto simp: http_accepts_def split: option.splits if_splits)

lemma http_Write_accepts:
  assumes "http_accepts w (length b)" and "b \<noteq> []"
  shows "\<exists>w'. http_Write w b = (w', length b, None) \<and> hw_body w' = hw_body w @ b \<and>
    (\<forall>k. http_accepts w (length b + k) \<longrightarrow> http_accepts w' k)"
  using assms
  by (auto simp: http_Write_def http_accepts_def http_WriteHeader_def http_informational_def wire_status_def Let_def
      split: option.splits if_splits)

lemma io_Copy_http_accepts:
  assumes "http_accepts w (length (concat (fst rd)))"
  shows "\<exists>w'. io_Copy http_Write w rd = (w', length (concat (fst rd)), snd rd) \<and> hw_body w' = hw_body w @ concat (fst rd)"
proof -
  have "\<exists>w'. io_Copy_chunks http_Write w 0 (fst rd) (snd rd) = (w', 0 + length (concat (fst rd)), snd rd) \<and>
      hw_body w' = hw_body w @ concat (fst rd)"
    by (rule io_Copy_chunks_total [where P = http_accepts and body = hw_body])
      (fact http_Write_accepts http_accepts_mono assms)+
  then show ?thesis by (simp add: io_Copy_def)
qed

end
