(* ===== verification/Oci.thy ===== *)
theory Oci
  imports Image Go_Http
begin

text \<open>
  \<open>pkg/oci/oci.go\<close> and \<open>pkg/oci/mock.go\<close>: the interface of an OCI client, and the mock client.
  The context argument of the Go methods only carries cancellation and is left out.
\<close>

record UnknownDocument =
  ud_MediaType :: string

text \<open>
  The Go interface as a record of operations on the content the client sees. \<open>Subscribe\<close> returns
  two channels; what they deliver is an input of the tracking loop, so only its error is here.
\<close>

record Client =
  cl_Name :: string
  cl_Verify :: "error option"
  cl_Subscribe :: "error option"
  cl_ListImages :: "Image list result"
  cl_AllIdentifiers :: "Image \<Rightarrow> string list result"
  cl_Resolve :: "string \<Rightarrow> digest result"
  cl_Size :: "digest \<Rightarrow> int result"
  cl_GetManifest :: "digest \<Rightarrow> (string \<times> string) result"
  cl_GetBlob :: "digest \<Rightarrow> reader result"

record MockClient =
  mock_images :: "Image list"

definition NewMockClient :: "Image list \<Rightarrow> MockClient" where
  "NewMockClient images = \<lparr>mock_images = images\<rparr>"

text \<open>The reader of a mock blob is nil; it is never used and stands here as an empty one.\<close>

definition mock_client :: "MockClient \<Rightarrow> Client" where
  "mock_client m =
     \<lparr>cl_Name = ''mock'',
      cl_Verify = None,
      cl_Subscribe = None,
      cl_ListImages = Inr (mock_images m),
      cl_AllIdentifiers = (\<lambda>img. Inr [img_Digest img]),
      cl_Resolve = (\<lambda>ref. Inr []),
      cl_Size = (\<lambda>dgst. Inr 0),
      cl_GetManifest = (\<lambda>dgst. Inr ([], [])),
      cl_GetBlob = (\<lambda>dgst. Inr ([], None))\<rparr>"

end
