(* ===== verification/Router.thy ===== *)
theory Router
  imports Go_Prelude "HOL-Library.Word"
begin

text \<open>
  \<open>pkg/routing/routing.go\<close> and \<open>pkg/routing/memory.go\<close>: the router interface, its contract as a
  locale, and the router that keeps the providers of each key in memory.
\<close>

section \<open>The interface\<close>

text \<open>\<open>netip.AddrPort\<close>: the text of an address and a 16 bit port.\<close>

record AddrPort =
  ap_Addr :: string
  ap_Port :: "16 word"

definition AddrPort_String :: "AddrPort \<Rightarrow> string" where
  "AddrPort_String ap =
     (if CHR '':'' \<in> set (ap_Addr ap) then ''['' @ ap_Addr ap @ '']'' else ap_Addr ap) @ '':'' @
     format_nat (unat (ap_Port ap))"

text \<open>
  The Go interface as a record of operations on a state \<open>'r\<close>. \<open>Resolve\<close> returns a channel; here
  the addresses it delivers before it is closed. It can panic because it makes a channel
  whose size is an argument.
\<close>

record 'r Router =
  rt_Ready :: "'r \<Rightarrow> bool result \<times> 'r"
  rt_Resolve :: "'r \<Rightarrow> string \<Rightarrow> bool \<Rightarrow> int \<Rightarrow> AddrPort list result outcome"
  rt_Advertise :: "'r \<Rightarrow> string list \<Rightarrow> error option \<times> 'r"

text \<open>
  What a router promises its clients, over the providers it knows of for each key: advertising
  adds this node for the given keys and changes nothing else, a failed call adds it for some of
  them at most, asking for readiness changes nothing, and a resolved address is a provider.
\<close>

locale router_contract =
  fixes R :: "'r Router"
    and providers :: "'r \<Rightarrow> string \<Rightarrow> AddrPort set"
    and self :: "'r \<Rightarrow> AddrPort"
  assumes advertise_ok:
      "rt_Advertise R r keys = (None, r') \<Longrightarrow>
         providers r' k = (if k \<in> set keys then insert (self r) (providers r k) else providers r k)"
    and advertise_failed:
      "rt_Advertise R r keys = (Some e, r') \<Longrightarrow>
         providers r k \<subseteq> providers r' k \<and>
         providers r' k \<subseteq> (if k \<in> set keys then insert (self r) (providers r k) else providers r k)"
    and advertise_self: "rt_Advertise R r keys = (err, r') \<Longrightarrow> self r' = self r"
    and ready_frame: "rt_Ready R r = (b, r') \<Longrightarrow> providers r' k = providers r k \<and> self r' = self r"
    and resolve_sound:
      "rt_Resolve R r key allowSelf count = Done (Inr ps) \<Longrightarrow> set ps \<subseteq> providers r key"
begin

lemma advertise_mono: "rt_Advertise R r keys = (e, r') \<Longrightarrow> providers r k \<subseteq> providers r' k"
  using advertise_ok [of r keys r' k] advertise_failed [of r keys _ r' k] by (cases e) auto

lemma advertise_adds: "rt_Advertise R r keys = (None, r') \<Longrightarrow> k \<in> set keys \<Longrightarrow> self r \<in> providers r' k"
  by (simp add: advertise_ok)

lemma advertise_only:
  assumes "rt_Advertise R r keys = (e, r')" and "ap \<in> providers r' k" and "ap \<notin> providers r k"
  shows "ap = self r \<and> k \<in> set keys"
proof -
  have "providers r' k \<subseteq> (if k \<in> set keys then insert (self r) (providers r k) else providers r k)"
    using assms(1) advertise_ok [of r keys r' k] advertise_failed [of r keys _ r' k] by (cases e) auto
  with assms(2,3) show ?thesis by (auto split: if_splits)
qed

end

section \<open>The memory router\<close>

record MemoryRouter =
  mr_resolver :: "string \<rightharpoonup> AddrPort list"
  mr_self :: AddrPort

definition NewMemoryRouter :: "(string \<rightharpoonup> AddrPort list) \<Rightarrow> AddrPort \<Rightarrow> MemoryRouter" where
  "NewMemoryRouter resolver self = \<lparr>mr_resolver = resolver, mr_self = self\<rparr>"

definition memory_Ready :: "MemoryRouter \<Rightarrow> bool result \<times> MemoryRouter" where
  "memory_Ready m = (Inr (mr_resolver m \<noteq> Map.empty), m)"

text \<open>
  The channel has room for \<open>count\<close> addresses; a negative size panics. The goroutine sends every
  address, waiting for the reader when the channel is full, and closes it.
\<close>

definition memory_Resolve :: "MemoryRouter \<Rightarrow> string \<Rightarrow> bool \<Rightarrow> int \<Rightarrow> AddrPort list result outcome" where
  "memory_Resolve m key allowSelf count =
     (if count < 0 then Panic ''makechan: size out of range''
      else
        (case mr_resolver m key of
           None \<Rightarrow> Done (Inr [])
         | Some peers \<Rightarrow> Done (Inr peers)))"

definition memory_Add :: "MemoryRouter \<Rightarrow> string \<Rightarrow> AddrPort \<Rightarrow> MemoryRouter" where
  "memory_Add m key ap =
     (case mr_resolver m key of
        Some v \<Rightarrow> m\<lparr>mr_resolver := (mr_resolver m)(key \<mapsto> v @ [ap])\<rparr>
      | None \<Rightarrow> m\<lparr>mr_resolver := (mr_resolver m)(key \<mapsto> [ap])\<rparr>)"

fun memory_Advertise :: "MemoryRouter \<Rightarrow> string list \<Rightarrow> error option \<times> MemoryRouter" where
  "memory_Advertise m [] = (None, m)"
| "memory_Advertise m (key # keys) = memory_Advertise (memory_Add m key (mr_self m)) keys"

definition memory_Lookup :: "MemoryRouter \<Rightarrow> string \<Rightarrow> AddrPort list \<times> bool" where
  "memory_Lookup m key = (case mr_resolver m key of None \<Rightarrow> ([], False) | Some v \<Rightarrow> (v, True))"

definition memory_router :: "MemoryRouter Router" where
  "memory_router = \<lparr>rt_Ready = memory_Ready, rt_Resolve = memory_Resolve, rt_Advertise = memory_Advertise\<rparr>"

text \<open>The providers of a key that the memory router knows of.\<close>

definition memory_providers :: "MemoryRouter \<Rightarrow> string \<Rightarrow> AddrPort list" where
  "memory_providers m key = fst (memory_Lookup m key)"

lemma memory_Add_self [simp]: "mr_self (memory_Add m k ap) = mr_self m"
  by (simp add: memory_Add_def split: option.splits)

lemma memory_providers_Add [simp]:
  "memory_providers (memory_Add m k ap) k' = memory_providers m k' @ (if k' = k then [ap] else [])"
  by (auto simp: memory_providers_def memory_Lookup_def memory_Add_def split: option.splits)

text \<open>Advertising appends this node once for every occurrence of a key in the list.\<close>

lemma memory_Advertise_spec:
  "memory_Advertise m keys = (e, m') \<Longrightarrow>
     e = None \<and> mr_self m' = mr_self m \<and>
     memory_providers m' k = memory_providers m k @ replicate (count_list keys k) (mr_self m)"
proof (induction keys arbitrary: m)
  case (Cons key keys)
  from Cons.IH [of "memory_Add m key (mr_self m)"] Cons.prems show ?case
    by (cases "key = k") (simp_all add: replicate_app_Cons_same)
qed auto

lemma memory_Advertise_ok: "fst (memory_Advertise m keys) = None"
  by (induction keys arbitrary: m) simp_all

lemma memory_router_simps [simp]:
  "rt_Ready memory_router = memory_Ready" "rt_Resolve memory_router = memory_Resolve"
  "rt_Advertise memory_router = memory_Advertise"
  by (simp_all add: memory_router_def)

lemma memory_Resolve_peers:
  "0 \<le> count \<Longrightarrow> memory_Resolve m key allowSelf count = Done (Inr (memory_providers m key))"
  by (simp add: memory_Resolve_def memory_providers_def memory_Lookup_def split: option.splits)

interpretation memory: router_contract memory_router "\<lambda>m k. set (memory_providers m k)" mr_self
proof
  fix r r' keys k
  assume "rt_Advertise memory_router r keys = (None, r')"
  from memory_Advertise_spec [OF this [unfolded memory_router_simps], of k]
  show "set (memory_providers r' k) =
      (if k \<in> set keys then insert (mr_self r) (set (memory_providers r k)) else set (memory_providers r k))"
    by (auto simp: count_list_0_iff)
next
  fix r r' :: MemoryRouter and keys k e
  assume "rt_Advertise memory_router r keys = (Some e, r')"
  from memory_Advertise_spec [OF this [unfolded memory_router_simps]]
  show "set (memory_providers r k) \<subseteq> set (memory_providers r' k) \<and>
      set (memory_providers r' k) \<subseteq>
      (if k \<in> set keys then insert (mr_self r) (set (memory_providers r k)) else set (memory_providers r k))"
    by simp
next
  fix r r' :: MemoryRouter and keys err
  assume "rt_Advertise memory_router r keys = (err, r')"
  from memory_Advertise_spec [OF this [unfolded memory_router_simps]]
  show "mr_self r' = mr_self r" by simp
next
  fix r r' :: MemoryRouter and b k
  assume "rt_Ready memory_router r = (b, r')"
  then show "set (memory_providers r' k) = set (memory_providers r k) \<and> mr_self r' = mr_self r"
    by (simp add: memory_Ready_def)
next
  fix r key allowSelf count ps
  assume "rt_Resolve memory_router r key allowSelf count = Done (Inr ps)"
  then show "set ps \<subseteq> set (memory_providers r key)"
    by (auto simp: memory_Resolve_def memory_providers_def memory_Lookup_def split: if_splits option.splits)
qed

section \<open>The contract of the memory router\<close>

text \<open>
  Advertising and resolving: after keys have been advertised, resolving a key delivers the
  addresses known before and then this node, once per time the key was advertised; the router
  is then ready, and other keys resolve as before.
\<close>

theorem memory_advertise_resolve:
  assumes "0 \<le> count" and "memory_Advertise m keys = (e, m')"
  shows "e = None \<and>
    memory_Resolve m' k allowSelf count =
      Done (Inr (memory_providers m k @ replicate (count_list keys k) (mr_self m))) \<and>
    (keys \<noteq> [] \<longrightarrow> memory_Ready m' = (Inr True, m'))"
proof -
  note spec = memory_Advertise_spec [OF assms(2)]
  have "mr_resolver m' \<noteq> Map.empty" if "keys = x # xs" for x xs
  proof
    assume "mr_resolver m' = Map.empty"
    then have "memory_providers m' x = []" by (simp add: memory_providers_def memory_Lookup_def)
    with spec [of x] that show False by simp
  qed
  then show ?thesis
    using spec [of k] memory_Resolve_peers [OF assms(1), of m' k allowSelf]
    by (cases keys) (auto simp: memory_Ready_def)
qed

theorem memory_advertise_resolve_witness:
  "memory_Resolve
     (snd (memory_Advertise (NewMemoryRouter Map.empty \<lparr>ap_Addr = ''10.0.0.1'', ap_Port = 5000\<rparr>) [''foo'']))
     ''foo'' True 3 = Done (Inr [\<lparr>ap_Addr = ''10.0.0.1'', ap_Port = 5000\<rparr>])"
proof -
  let ?m = "NewMemoryRouter Map.empty \<lparr>ap_Addr = ''10.0.0.1'', ap_Port = 5000\<rparr>"
  have "(0::int) \<le> 3" by simp
  moreover have "memory_Advertise ?m [''foo''] = (None, snd (memory_Advertise ?m [''foo'']))"
    by (simp add: NewMemoryRouter_def memory_Add_def)
  ultimately have "memory_Resolve (snd (memory_Advertise ?m [''foo''])) ''foo'' True 3 =
      Done (Inr (memory_providers ?m ''foo'' @ replicate (count_list [''foo''] ''foo'') (mr_self ?m)))"
    using memory_advertise_resolve by blast
  then show ?thesis
    by (simp add: memory_providers_def memory_Lookup_def NewMemoryRouter_def)
qed

end
