(* ===== verification/Mux.thy ===== *)
theory Mux
  imports Go_Http
begin

text \<open>
  \<open>internal/mux\<close>: the response writer that records status, size and error of a response
  (\<open>response.go\<close>) and the handler wrapper (\<open>mux.go\<close>).
\<close>

section \<open>The recording response writer\<close>

record response =
  resp_rw :: http_writer
  resp_error :: "error option"
  resp_status :: int
  resp_size :: int
  resp_writtenHeader :: bool

definition new_response :: "http_writer \<Rightarrow> response" where
  "new_response w =
     \<lparr>resp_rw = w, resp_error = None, resp_status = 0, resp_size = 0, resp_writtenHeader = False\<rparr>"

definition WriteHeader :: "response \<Rightarrow> int \<Rightarrow> response" where
  "WriteHeader r statusCode =
     (let r1 = (if \<not> resp_writtenHeader r
                then r\<lparr>resp_writtenHeader := True, resp_status := statusCode\<rparr> else r) in
      r1\<lparr>resp_rw := http_WriteHeader (resp_rw r1) statusCode\<rparr>)"

definition Write :: "response \<Rightarrow> string \<Rightarrow> response \<times> nat \<times> error option" where
  "Write r b =
     (let r1 = r\<lparr>resp_writtenHeader := True\<rparr>;
          (w, n, err) = http_Write (resp_rw r1) b in
      (r1\<lparr>resp_rw := w, resp_size := resp_size r1 + int n\<rparr>, n, err))"

definition WriteError :: "response \<Rightarrow> int \<Rightarrow> error \<Rightarrow> response" where
  "WriteError r statusCode err = WriteHeader (r\<lparr>resp_error := Some err\<rparr>) statusCode"

definition Flush :: "response \<Rightarrow> response" where
  "Flush r = r\<lparr>resp_writtenHeader := True, resp_rw := http_Flush (resp_rw r)\<rparr>"

text \<open>\<open>Hijack\<close> hands the connection of the wrapped writer over; nothing is recorded.\<close>

definition Hijack :: "response \<Rightarrow> response \<times> unit result" where
  "Hijack r = (let (w, res) = http_Hijack (resp_rw r) in (r\<lparr>resp_rw := w\<rparr>, res))"

definition ReadFrom :: "response \<Rightarrow> reader \<Rightarrow> response \<times> nat \<times> error option" where
  "ReadFrom r rd =
     (let (w, n, err) = io_Copy http_Write (resp_rw r) rd in
      (r\<lparr>resp_rw := w, resp_size := resp_size r + int n\<rparr>, n, err))"

definition Status :: "response \<Rightarrow> int" where
  "Status r = (if resp_status r = 0 then 200 else resp_status r)"

definition response_Error :: "response \<Rightarrow> error option" where
  "response_Error r = resp_error r"

definition response_Size :: "response \<Rightarrow> int" where
  "response_Size r = resp_size r"

definition Unwrap :: "response \<Rightarrow> http_writer" where
  "Unwrap r = resp_rw r"

text \<open>The handler edits the header map of the wrapped writer.\<close>

definition set_header :: "response \<Rightarrow> string \<Rightarrow> string \<Rightarrow> response" where
  "set_header r k v = r\<lparr>resp_rw := (resp_rw r)\<lparr>hw_header := header_Set (hw_header (resp_rw r)) k v\<rparr>\<rparr>"

section \<open>The handler wrapper\<close>

text \<open>
  A handler works on the response and a request, and may change the state it closes over; it
  returns or panics.
\<close>

type_synonym 's Handler = "'s \<Rightarrow> response \<Rightarrow> Request \<Rightarrow> 's \<times> response \<times> unit outcome"

record 's ServeMux =
  mux_h :: "'s Handler"

definition NewServeMux :: "'s Handler option \<Rightarrow> 's ServeMux result" where
  "NewServeMux h =
     (case h of None \<Rightarrow> Inl (Err ''handler cannot be nil'') | Some f \<Rightarrow> Inr \<lparr>mux_h = f\<rparr>)"

definition ServeHTTP :: "'s ServeMux \<Rightarrow> 's \<Rightarrow> http_writer \<Rightarrow> Request \<Rightarrow> 's \<times> response \<times> unit outcome" where
  "ServeHTTP s st rw req = mux_h s st (new_response rw) req"

section \<open>Agreement of the record with the wire\<close>

text \<open>The operations a handler can apply, and their sequences.\<close>

datatype mux_op =
    OpWriteHeader int
  | OpWrite string
  | OpWriteError int error
  | OpFlush
  | OpHijack
  | OpReadFrom reader
  | OpSetHeader string string

fun mux_step :: "response \<Rightarrow> mux_op \<Rightarrow> response" where
  "mux_step r (OpWriteHeader code) = WriteHeader r code"
| "mux_step r (OpWrite b) = fst (Write r b)"
| "mux_step r (OpWriteError code e) = WriteError r code e"
| "mux_step r OpFlush = Flush r"
| "mux_step r OpHijack = fst (Hijack r)"
| "mux_step r (OpReadFrom rd) = fst (ReadFrom r rd)"
| "mux_step r (OpSetHeader k v) = set_header r k v"

fun mux_run :: "response \<Rightarrow> mux_op list \<Rightarrow> response" where
  "mux_run r [] = r"
| "mux_run r (op # ops) = mux_run (mux_step r op) ops"

text \<open>
  The invariant: the recorded status is the one on the wire, and a header the wrapper has not
  noticed can only be the implicit 200 of a copy.
\<close>

definition mux_ok :: "response \<Rightarrow> bool" where
  "mux_ok r \<longleftrightarrow> Status r = wire_status (resp_rw r) \<and> \<not> hw_hijacked (resp_rw r) \<and>
     (resp_writtenHeader r \<longrightarrow> hw_wroteHeader (resp_rw r))"

definition final_status :: "int \<Rightarrow> bool" where
  "final_status code \<longleftrightarrow> 200 \<le> code \<and> code \<le> 999"

text \<open>
  Statuses are final ones, after a copy no status is written, and the connection is not taken
  over.
\<close>

fun well_ordered :: "bool \<Rightarrow> mux_op list \<Rightarrow> bool" where
  "well_ordered copied [] = True"
| "well_ordered copied (OpWriteHeader code # ops) = (\<not> copied \<and> final_status code \<and> well_ordered copied ops)"
| "well_ordered copied (OpWriteError code e # ops) = (\<not> copied \<and> final_status code \<and> well_ordered copied ops)"
| "well_ordered copied (OpHijack # ops) = False"
| "well_ordered copied (OpReadFrom rd # ops) = well_ordered True ops"
| "well_ordered copied (op # ops) = well_ordered copied ops"

definition mux_inv :: "bool \<Rightarrow> response \<Rightarrow> bool" where
  "mux_inv copied r \<longleftrightarrow> mux_ok r \<and> (copied \<or> resp_writtenHeader r = hw_wroteHeader (resp_rw r))"

named_theorems mux_defs \<open>unfolding of the recording writer\<close>

lemmas [mux_defs] = WriteHeader_def WriteError_def Flush_def http_Flush_def Hijack_def http_Hijack_def set_header_def
  mux_inv_def mux_ok_def Status_def wire_status_def final_status_def

lemma Status_frame [simp]:
  "Status (r\<lparr>resp_rw := w\<rparr>) = Status r" "Status (r\<lparr>resp_size := n\<rparr>) = Status r"
  "Status (r\<lparr>resp_writtenHeader := b\<rparr>) = Status r" "Status (r\<lparr>resp_error := e\<rparr>) = Status r"
  by (simp_all add: Status_def)

lemma mux_inv_new: "\<not> hw_wroteHeader w \<Longrightarrow> \<not> hw_hijacked w \<Longrightarrow> mux_inv copied (new_response w)"
  by (simp add: new_response_def mux_defs)

lemma mux_inv_WriteHeader:
  "mux_inv False r \<Longrightarrow> final_status code \<Longrightarrow> mux_inv False (WriteHeader r code)"
  by (auto simp: mux_defs Let_def http_WriteHeader_def http_informational_def)

lemma mux_inv_Write:
  assumes "mux_inv copied r"
  shows "mux_inv copied (fst (Write r b))"
proof -
  obtain w n e where w: "http_Write (resp_rw r) b = (w, n, e)" by (cases "http_Write (resp_rw r) b")
  from http_Write_frame [OF w] assms w show ?thesis
    by (simp add: Write_def mux_inv_def mux_ok_def)
qed

lemma mux_inv_Flush: "mux_inv copied r \<Longrightarrow> mux_inv copied (Flush r)"
  using http_WriteHeader_200 [of "resp_rw r"]
  by (simp add: Flush_def http_Flush_def mux_inv_def mux_ok_def)

lemma io_Copy_http_frame:
  assumes "io_Copy http_Write w rd = (w', n, e)"
  shows "wire_status w' = wire_status w \<and> wire_header w' = wire_header w \<and> hw_head w' = hw_head w \<and>
     hw_hijacked w' = hw_hijacked w \<and> (\<not> hw_hijacked w \<and> hw_wroteHeader w \<longrightarrow> hw_wroteHeader w')"
proof (rule io_Copy_invariant [OF _ _ assms])
  fix v b v' k err
  assume "wire_status v = wire_status w \<and> wire_header v = wire_header w \<and> hw_head v = hw_head w \<and>
      hw_hijacked v = hw_hijacked w \<and> (\<not> hw_hijacked w \<and> hw_wroteHeader w \<longrightarrow> hw_wroteHeader v)"
    and "http_Write v b = (v', k, err)"
  with http_Write_frame [of v b v' k err]
  show "wire_status v' = wire_status w \<and> wire_header v' = wire_header w \<and> hw_head v' = hw_head w \<and>
      hw_hijacked v' = hw_hijacked w \<and> (\<not> hw_hijacked w \<and> hw_wroteHeader w \<longrightarrow> hw_wroteHeader v')" by simp
qed simp

lemma mux_inv_ReadFrom:
  assumes "mux_inv copied r"
  shows "mux_inv True (fst (ReadFrom r rd))"
proof -
  obtain w n e where w: "io_Copy http_Write (resp_rw r) rd = (w, n, e)"
    by (cases "io_Copy http_Write (resp_rw r) rd")
  from io_Copy_http_frame [OF w] assms w show ?thesis
    by (simp add: ReadFrom_def mux_inv_def mux_ok_def)
qed

lemma mux_inv_set_header: "mux_inv copied r \<Longrightarrow> mux_inv copied (set_header r k v)"
  by (simp add: mux_inv_def mux_ok_def set_header_def wire_status_def)

lemma mux_inv_WriteError:
  assumes "mux_inv False r" and "final_status code"
  shows "mux_inv False (WriteError r code e)"
proof -
  have "mux_inv False (r\<lparr>resp_error := Some e\<rparr>)" using assms(1) by (simp add: mux_inv_def mux_ok_def)
  from mux_inv_WriteHeader [OF this assms(2)] show ?thesis by (simp add: WriteError_def)
qed

fun is_copy :: "mux_op \<Rightarrow> bool" where
  "is_copy (OpReadFrom rd) = True"
| "is_copy op = False"

lemma mux_step_inv:
  assumes "well_ordered copied (op # ops)" and "mux_inv copied r"
  shows "well_ordered (copied \<or> is_copy op) ops \<and> mux_inv (copied \<or> is_copy op) (mux_step r op)"
  using assms mux_inv_WriteHeader mux_inv_WriteError mux_inv_Write mux_inv_Flush mux_inv_ReadFrom
    mux_inv_set_header by (cases op) auto

lemma mux_run_inv: "well_ordered copied ops \<Longrightarrow> mux_inv copied r \<Longrightarrow> mux_ok (mux_run r ops)"
proof (induction ops arbitrary: copied r)
  case (Cons op ops)
  from mux_step_inv [OF Cons.prems] show ?case using Cons.IH [of "copied \<or> is_copy op" "mux_step r op"] by simp
qed (simp add: mux_inv_def)

section \<open>Agreement of the size with the bytes sent\<close>

lemma http_Write_body:
  assumes "http_Write w b = (w', n, e)" and "\<not> hw_head w"
  shows "\<exists>u. hw_body w' = hw_body w @ u \<and> length u = n"
  using assms
  by (auto simp: http_Write_def http_WriteHeader_def Let_def split: if_splits option.splits)

definition size_ok :: "response \<Rightarrow> bool" where
  "size_ok r \<longleftrightarrow> \<not> hw_head (resp_rw r) \<and> resp_size r = int (length (hw_body (resp_rw r)))"

lemma io_Copy_chunks_body:
  assumes "io_Copy_chunks http_Write w n bs e = (w', m, err)" and "\<not> hw_head w"
  shows "\<not> hw_head w' \<and> length (hw_body w') + n = length (hw_body w) + m"
  using assms
proof (induction bs arbitrary: w n)
  case (Cons b bs)
  obtain v k x where v: "http_Write w b = (v, k, x)" by (cases "http_Write w b")
  from http_Write_body [OF v] http_Write_frame [OF v] Cons.prems(2)
  have "length (hw_body v) = length (hw_body w) + k" "\<not> hw_head v" by auto
  with Cons v show ?case by (fastforce split: if_splits option.splits)
qed simp

lemma mux_step_size: "size_ok r \<Longrightarrow> size_ok (mux_step r op)"
proof (cases op)
  case (OpWrite b)
  assume r: "size_ok r"
  obtain v k x where v: "http_Write (resp_rw r) b = (v, k, x)" by (cases "http_Write (resp_rw r) b")
  from http_Write_body [OF v] http_Write_frame [OF v] r v OpWrite show ?thesis
    by (auto simp: size_ok_def Write_def)
next
  case (OpReadFrom rd)
  assume r: "size_ok r"
  obtain v k x where v: "io_Copy http_Write (resp_rw r) rd = (v, k, x)"
    by (cases "io_Copy http_Write (resp_rw r) rd")
  from io_Copy_chunks_body [OF v [unfolded io_Copy_def]] r v OpReadFrom show ?thesis
    by (auto simp: size_ok_def ReadFrom_def)
qed (auto simp: size_ok_def mux_defs Let_def http_WriteHeader_def)

lemma mux_run_size: "size_ok r \<Longrightarrow> size_ok (mux_run r ops)"
  by (induction ops arbitrary: r) (auto intro: mux_step_size)

section \<open>The contract of the recording writer\<close>

text \<open>
  After any sequence of header edits, writes, flushes, status codes and copies in which no
  status follows a copy, the recorded status is the one the client received.
\<close>

theorem mux_status_agrees:
  assumes "\<not> hw_wroteHeader w" and "\<not> hw_hijacked w" and "well_ordered False ops"
  shows "Status (mux_run (new_response w) ops) = wire_status (Unwrap (mux_run (new_response w) ops))"
  using mux_run_inv [OF assms(3) mux_inv_new [OF assms(1,2)]] by (simp add: mux_ok_def Unwrap_def)

theorem mux_status_agrees_witness:
  "Status (mux_run (new_response (http_new_writer False None))
     [OpWriteError 404 (Err ''x''), OpWriteHeader 502, OpWrite ''foo'', OpReadFrom ([''bar''], None)]) = 404"
proof -
  let ?ops = "[OpWriteError 404 (Err ''x''), OpWriteHeader 502, OpWrite ''foo'', OpReadFrom ([''bar''], None)]"
  have "\<not> hw_wroteHeader (http_new_writer False None)" "\<not> hw_hijacked (http_new_writer False None)" by (simp_all add: http_new_writer_def)
  moreover have "well_ordered False ?ops" by (simp add: final_status_def)
  ultimately have "Status (mux_run (new_response (http_new_writer False None)) ?ops)
      = wire_status (Unwrap (mux_run (new_response (http_new_writer False None)) ?ops))"
    by (rule mux_status_agrees)
  also have "\<dots> = 404" by code_simp
  finally show ?thesis .
qed

text \<open>
  For a request other than HEAD the recorded size is the number of body bytes sent, after
  every sequence of operations and also when the connection fails.
\<close>

theorem mux_size_agrees:
  "response_Size (mux_run (new_response (http_new_writer False conn)) ops) =
     int (length (hw_body (Unwrap (mux_run (new_response (http_new_writer False conn)) ops))))"
proof -
  have "size_ok (new_response (http_new_writer False conn))"
    by (simp add: size_ok_def new_response_def http_new_writer_def)
  from mux_run_size [OF this] show ?thesis by (simp add: size_ok_def response_Size_def Unwrap_def)
qed

text \<open>
  Once the connection was taken over, no operation changes what the server has sent or the
  recorded size, and it cannot be taken over again.
\<close>

definition sent_by_server :: "response \<Rightarrow> bool \<times> int \<times> header \<times> string \<times> int" where
  "sent_by_server r =
     (hw_wroteHeader (resp_rw r), hw_status (resp_rw r), hw_sentHeader (resp_rw r), hw_body (resp_rw r), response_Size r)"

lemma io_Copy_chunks_hijacked:
  "hw_hijacked w \<Longrightarrow> \<exists>e'. io_Copy_chunks http_Write w n bs e = (w, n, e')"
  by (induction bs) (auto simp: http_Write_def)

lemma mux_step_hijacked:
  assumes "hw_hijacked (resp_rw r)"
  shows "hw_hijacked (resp_rw (mux_step r op)) \<and> sent_by_server (mux_step r op) = sent_by_server r"
proof (cases op)
  case (OpReadFrom rd)
  with io_Copy_chunks_hijacked [OF assms, of 0 "fst rd" "snd rd"] assms show ?thesis
    by (auto simp: ReadFrom_def io_Copy_def sent_by_server_def response_Size_def)
qed (use assms in \<open>simp_all add: mux_defs sent_by_server_def response_Size_def Let_def Write_def http_Write_def
      http_WriteHeader_def\<close>)

lemma mux_run_hijacked:
  "hw_hijacked (resp_rw r) \<Longrightarrow> hw_hijacked (resp_rw (mux_run r ops)) \<and> sent_by_server (mux_run r ops) = sent_by_server r"
  by (induction ops arbitrary: r) (simp_all add: mux_step_hijacked)

theorem Hijack_silences:
  assumes "Hijack r = (r', Inr ())"
  shows "sent_by_server (mux_run r' ops) = sent_by_server r \<and> Status r' = Status r \<and>
     snd (Hijack (mux_run r' ops)) = Inl ErrHijacked"
proof -
  from assms have r': "r' = r\<lparr>resp_rw := (resp_rw r)\<lparr>hw_hijacked := True\<rparr>\<rparr>"
    by (auto simp: mux_defs split: if_splits)
  then have "sent_by_server r' = sent_by_server r" by (simp add: sent_by_server_def response_Size_def)
  with mux_run_hijacked [of r' ops] r' show ?thesis by (simp add: Hijack_def http_Hijack_def)
qed

text \<open>
  A copy does not mark the header as written: a status recorded after it is not the one on
  the wire. The same holds after an informational status, which is recorded although it is
  not the status of the response.
\<close>

lemma ReadFrom_then_WriteError_diverges:
  "Status (mux_run (new_response (http_new_writer False None)) [OpReadFrom ([''x''], None), OpWriteError 500 (Err ''e'')]) = 500 \<and>
   wire_status (Unwrap (mux_run (new_response (http_new_writer False None)) [OpReadFrom ([''x''], None), OpWriteError 500 (Err ''e'')])) = 200"
  by code_simp

lemma informational_status_recorded:
  "Status (mux_run (new_response (http_new_writer False None)) [OpWriteHeader 103, OpWriteHeader 200]) = 103 \<and>
   wire_status (Unwrap (mux_run (new_response (http_new_writer False None)) [OpWriteHeader 103, OpWriteHeader 200])) = 200"
  by code_simp

section \<open>Copies through the recording writer\<close>

lemma Write_accepts:
  assumes "http_accepts (resp_rw r) (length b)" and "b \<noteq> []"
  shows "\<exists>r'. Write r b = (r', length b, None) \<and> hw_body (resp_rw r') = hw_body (resp_rw r) @ b \<and>
    (\<forall>k. http_accepts (resp_rw r) (length b + k) \<longrightarrow> http_accepts (resp_rw r') k)"
  using http_Write_accepts [OF assms] by (auto simp: Write_def)

lemma io_Copy_Write_accepts:
  assumes "http_accepts (resp_rw r) (length (concat (fst rd)))"
  shows "\<exists>r'. io_Copy Write r rd = (r', length (concat (fst rd)), snd rd) \<and>
    hw_body (resp_rw r') = hw_body (resp_rw r) @ concat (fst rd)"
proof -
  have "\<exists>r'. io_Copy_chunks Write r 0 (fst rd) (snd rd) = (r', 0 + length (concat (fst rd)), snd rd) \<and>
      hw_body (resp_rw r') = hw_body (resp_rw r) @ concat (fst rd)"
    by (rule io_Copy_chunks_total [where P = "\<lambda>r. http_accepts (resp_rw r)" and body = "\<lambda>r. hw_body (resp_rw r)"])
      (fact Write_accepts http_accepts_mono assms)+
  then show ?thesis by (simp add: io_Copy_def)
qed

text \<open>Writing bytes keeps status, header and error of the response.\<close>

lemma Write_frame:
  assumes "Write r b = (r', n, e)"
  shows "Status r' = Status r \<and> response_Error r' = response_Error r \<and>
    wire_header (resp_rw r') = wire_header (resp_rw r) \<and> wire_status (resp_rw r') = wire_status (resp_rw r)"
proof -
  obtain w k x where w: "http_Write (resp_rw r) b = (w, k, x)" by (cases "http_Write (resp_rw r) b")
  from http_Write_frame [OF w] w assms show ?thesis by (auto simp: Write_def response_Error_def)
qed

lemma io_Copy_Write_frame:
  assumes "io_Copy Write r rd = (r', n, e)"
  shows "Status r' = Status r \<and> response_Error r' = response_Error r \<and>
    wire_header (resp_rw r') = wire_header (resp_rw r) \<and> wire_status (resp_rw r') = wire_status (resp_rw r)"
proof (rule io_Copy_invariant [OF _ _ assms])
  fix v b v' k err
  assume "Status v = Status r \<and> response_Error v = response_Error r \<and>
      wire_header (resp_rw v) = wire_header (resp_rw r) \<and> wire_status (resp_rw v) = wire_status (resp_rw r)"
    and "Write v b = (v', k, err)"
  with Write_frame [of v b v' k err]
  show "Status v' = Status r \<and> response_Error v' = response_Error r \<and>
      wire_header (resp_rw v') = wire_header (resp_rw r) \<and> wire_status (resp_rw v') = wire_status (resp_rw r)" by simp
qed simp

end
