(* ===== verification/Reverse_Proxy.thy ===== *)
theory Reverse_Proxy
  imports Mux
begin

text \<open>
  \<open>httputil.ReverseProxy\<close> of the standard library as the registry uses it: a single target, the
  headers of the forwarded request, the hooks for informational responses, and the copy of the
  response of the target. Responses without trailers, and requests whose path needs no escaping.
\<close>

section \<open>Header operations\<close>

definition token_char :: "char \<Rightarrow> bool" where
  "token_char c =
     (c \<in> set ''abcdefghijklmnopqrstuvwxyzABCDEFGHIJKLMNOPQRSTUVWXYZ0123456789!#$%&*+-.^_|~'' \<or>
      c = CHR 0x27 \<or> c = CHR 0x60)"

definition upper_char :: "char \<Rightarrow> char" where
  "upper_char c = (let n = of_char c :: nat in if 97 \<le> n \<and> n \<le> 122 then char_of (n - 32) else c)"

definition lower_char :: "char \<Rightarrow> char" where
  "lower_char c = (let n = of_char c :: nat in if 65 \<le> n \<and> n \<le> 90 then char_of (n + 32) else c)"

fun canonical_bytes :: "bool \<Rightarrow> string \<Rightarrow> string" where
  "canonical_bytes upper [] = []"
| "canonical_bytes upper (c # s) =
     (let c' = (if upper then upper_char c else lower_char c) in c' # canonical_bytes (c' = CHR ''-'') s)"

text \<open>\<open>CanonicalMIMEHeaderKey\<close>: a key with a byte that is no token byte stays as it is.\<close>

definition canonical_key :: "string \<Rightarrow> string" where
  "canonical_key k = (if list_all token_char k then canonical_bytes True k else k)"

definition header_Del :: "header \<Rightarrow> string \<Rightarrow> header" where
  "header_Del h k = h(canonical_key k := None)"

text \<open>\<open>copyHeader\<close>: the values of the source are added after those of the destination.\<close>

definition copyHeader :: "header \<Rightarrow> header \<Rightarrow> header" where
  "copyHeader dst src =
     (\<lambda>k. case src k of
            None \<Rightarrow> dst k
          | Some [] \<Rightarrow> dst k
          | Some vs \<Rightarrow> Some ((case dst k of None \<Rightarrow> [] | Some ws \<Rightarrow> ws) @ vs))"

definition trim :: "(char \<Rightarrow> bool) \<Rightarrow> string \<Rightarrow> string" where
  "trim P s = rev (dropWhile P (rev (dropWhile P s)))"

definition ows :: "char \<Rightarrow> bool" where "ows c = (c = CHR 0x20 \<or> c = CHR 0x09)"

definition header_values :: "header \<Rightarrow> string \<Rightarrow> string list" where
  "header_values h k = (case h k of None \<Rightarrow> [] | Some vs \<Rightarrow> vs)"

text \<open>\<open>httpguts.HeaderValuesContainsToken\<close>, for a token in lower case.\<close>

definition containsToken :: "string list \<Rightarrow> string \<Rightarrow> bool" where
  "containsToken vs token =
     list_ex (\<lambda>v. list_ex (\<lambda>t. map lower_char (trim ows t) = token) (str_SplitByte v (CHR '',''))) vs"

definition upgradeType :: "header \<Rightarrow> string" where
  "upgradeType h = (if containsToken (header_values h ''Connection'') ''upgrade'' then header_Get h ''Upgrade'' else [])"

definition hopHeaders :: "string list" where
  "hopHeaders = [''Connection'', ''Proxy-Connection'', ''Keep-Alive'', ''Proxy-Authenticate'',
     ''Proxy-Authorization'', ''Te'', ''Trailer'', ''Transfer-Encoding'', ''Upgrade'']"

definition connection_tokens :: "header \<Rightarrow> string list" where
  "connection_tokens h =
     filter (\<lambda>t. t \<noteq> [])
       (map (trim (\<lambda>c. c \<in> {CHR 0x20, CHR 0x09, CHR 0x0A, CHR 0x0D}))
         (concat (map (\<lambda>v. str_SplitByte v (CHR '','')) (header_values h ''Connection''))))"

text \<open>The headers named by \<open>Connection\<close> are removed first, then the standard ones.\<close>

definition removeHopByHopHeaders :: "header \<Rightarrow> header" where
  "removeHopByHopHeaders h = foldl header_Del (foldl header_Del h (connection_tokens h)) hopHeaders"

section \<open>The forwarded request\<close>

record OutRequest =
  out_Method :: string
  out_Scheme :: string
  out_URLHost :: string
  out_Path :: string
  out_RawQuery :: string
  out_Header :: header
  out_Host :: string

definition singleJoiningSlash :: "string \<Rightarrow> string \<Rightarrow> string" where
  "singleJoiningSlash a b =
     (let aslash = suffix ''/'' a; bslash = prefix ''/'' b in
      if aslash \<and> bslash then a @ drop 1 b
      else if \<not> aslash \<and> \<not> bslash then a @ ''/'' @ b
      else a @ b)"

definition forwarded_for :: "header \<Rightarrow> string \<Rightarrow> header" where
  "forwarded_for h remoteAddr =
     (case SplitHostPort remoteAddr of
        Inl _ \<Rightarrow> h
      | Inr (clientIP, _) \<Rightarrow>
          (case h ''X-Forwarded-For'' of
             None \<Rightarrow> header_Set h ''X-Forwarded-For'' clientIP
           | Some [] \<Rightarrow> h
           | Some prior \<Rightarrow> header_Set h ''X-Forwarded-For'' (str_Join prior '', '' @ '', '' @ clientIP)))"

definition out_header :: "Request \<Rightarrow> header" where
  "out_header req =
     (let h = req_Header req;
          reqUpType = upgradeType h;
          h1 = removeHopByHopHeaders h;
          h2 = (if containsToken (header_values h ''Te'') ''trailers'' then header_Set h1 ''Te'' ''trailers'' else h1);
          h3 = (if reqUpType \<noteq> [] then header_Set (header_Set h2 ''Connection'' ''Upgrade'') ''Upgrade'' reqUpType else h2);
          h4 = forwarded_for h3 (req_RemoteAddr req) in
      if h4 ''User-Agent'' = None then header_Set h4 ''User-Agent'' [] else h4)"

text \<open>The director of \<open>NewSingleHostReverseProxy\<close> for a target without path and query.\<close>

definition out_request :: "string \<Rightarrow> string \<Rightarrow> Request \<Rightarrow> OutRequest" where
  "out_request scheme host req =
     \<lparr>out_Method = req_Method req, out_Scheme = scheme, out_URLHost = host,
      out_Path = singleJoiningSlash [] (req_Path req), out_RawQuery = req_RawQuery req,
      out_Header = out_header req, out_Host = req_Host req\<rparr>"

section \<open>Serving a request\<close>

record Response =
  rsp_StatusCode :: int
  rsp_Status :: string
  rsp_Header :: header
  rsp_Body :: reader

text \<open>
  A round trip of the transport: the informational responses received on the way, and the
  response or an error.
\<close>

type_synonym round_trip = "(int \<times> header) list \<times> Response result"

text \<open>The hook that forwards an informational response and clears the header again.\<close>

definition got1xxResponse :: "response \<Rightarrow> int \<times> header \<Rightarrow> response" where
  "got1xxResponse rw ch =
     (let rw1 = rw\<lparr>resp_rw := (resp_rw rw)\<lparr>hw_header := copyHeader (hw_header (resp_rw rw)) (snd ch)\<rparr>\<rparr>;
          rw2 = WriteHeader rw1 (fst ch) in
      rw2\<lparr>resp_rw := (resp_rw rw2)\<lparr>hw_header := Map.empty\<rparr>\<rparr>)"

text \<open>
  How a request was served: forwarded completely, failed before anything of the response was
  written (the error handler has been called), or aborted by a panic because copying the body
  failed.
\<close>

datatype proxy_result = Proxied | ProxyFailed error | ProxyAborted

definition is_print :: "string \<Rightarrow> bool" where
  "is_print s = list_all (\<lambda>c. 32 \<le> (of_char c :: nat) \<and> (of_char c :: nat) \<le> 126) s"

text \<open>
  \<open>ServeHTTP\<close> with an error handler that writes nothing and a hook \<open>modify\<close> that rejects every
  status but 200, among them the upgrade 101. A flush after a write changes nothing here because
  the header has been sent before.
\<close>

definition proxy_ServeHTTP ::
  "(Response \<Rightarrow> error option) \<Rightarrow> (OutRequest \<Rightarrow> round_trip) \<Rightarrow> string \<Rightarrow> string \<Rightarrow> response \<Rightarrow> Request \<Rightarrow> response \<times> proxy_result" where
  "proxy_ServeHTTP modify transport scheme host rw req =
     (if \<not> is_print (upgradeType (req_Header req)) then
        (rw, ProxyFailed (Err ''client tried to switch to invalid protocol''))
      else
        (case transport (out_request scheme host req) of
           (infos, Inl err) \<Rightarrow> (foldl got1xxResponse rw infos, ProxyFailed err)
         | (infos, Inr res) \<Rightarrow>
             (let rw1 = foldl got1xxResponse rw infos;
                  res1 = res\<lparr>rsp_Header := removeHopByHopHeaders (rsp_Header res)\<rparr> in
              case modify res1 of
                Some err \<Rightarrow> (rw1, ProxyFailed err)
              | None \<Rightarrow>
                  (let rw2 = rw1\<lparr>resp_rw := (resp_rw rw1)\<lparr>hw_header := copyHeader (hw_header (resp_rw rw1)) (rsp_Header res1)\<rparr>\<rparr>;
                       rw3 = WriteHeader rw2 (rsp_StatusCode res1) in
                   case io_Copy Write rw3 (rsp_Body res1) of
                     (rw4, n, Some err) \<Rightarrow> (rw4, ProxyAborted)
                   | (rw4, n, None) \<Rightarrow> (rw4, Proxied)))))"

section \<open>Headers of the forwarded request\<close>

lemma foldl_header_Del:
  "foldl header_Del h ks k = (if k \<in> canonical_key ` set ks then None else h k)"
  by (induction ks arbitrary: h) (auto simp: header_Del_def)

lemma canonical_hopHeaders: "canonical_key ` set hopHeaders = set hopHeaders"
  by code_simp

lemma removeHopByHopHeaders_apply:
  "removeHopByHopHeaders h k =
     (if k \<in> set hopHeaders \<or> k \<in> canonical_key ` set (connection_tokens h) then None else h k)"
  unfolding removeHopByHopHeaders_def foldl_header_Del canonical_hopHeaders by simp

text \<open>The end-to-end headers are forwarded unless the client names them in \<open>Connection\<close>.\<close>

definition end_to_end :: "string \<Rightarrow> bool" where
  "end_to_end k = (k \<notin> set hopHeaders \<and> k \<noteq> ''X-Forwarded-For'' \<and> k \<noteq> ''User-Agent'')"

lemma forwarded_for_apply: "k \<noteq> ''X-Forwarded-For'' \<Longrightarrow> forwarded_for h a k = h k"
  by (simp add: forwarded_for_def header_Set_def split: sum.splits option.splits list.splits)

lemma out_header_apply:
  assumes "end_to_end k"
  shows "out_header req k =
    (if k \<in> canonical_key ` set (connection_tokens (req_Header req)) then None else req_Header req k)"
proof -
  from assms have "k \<notin> set hopHeaders" "k \<noteq> ''X-Forwarded-For''" "k \<noteq> ''User-Agent''"
    "k \<noteq> ''Te''" "k \<noteq> ''Connection''" "k \<noteq> ''Upgrade''"
    by (auto simp: end_to_end_def hopHeaders_def)
  then show ?thesis
    by (simp add: out_header_def Let_def header_Set_def forwarded_for_apply removeHopByHopHeaders_apply)
qed

text \<open>
  The only \<open>Connection\<close> header a forwarded request carries is the one that announces an upgrade,
  so that the next proxy removes no end-to-end header.
\<close>

lemma out_header_Connection: "out_header req ''Connection'' \<in> {None, Some [''Upgrade'']}"
proof -
  have "''Connection'' \<in> set hopHeaders" by (simp add: hopHeaders_def)
  then show ?thesis
    by (simp add: out_header_def Let_def header_Set_def forwarded_for_apply removeHopByHopHeaders_apply)
qed

lemma connection_tokens_out:
  assumes "h ''Connection'' \<in> {None, Some [''Upgrade'']}"
  shows "canonical_key ` set (connection_tokens h) \<subseteq> {''Upgrade''}"
proof -
  have "connection_tokens h = map id (if h ''Connection'' = None then [] else [''Upgrade''])"
    using assms by (auto simp: connection_tokens_def header_values_def trim_def)
  moreover have "canonical_key ''Upgrade'' = ''Upgrade''" by code_simp
  ultimately show ?thesis by auto
qed

section \<open>The response of a proxied request\<close>

lemma proxy_frame_failed:
  assumes "proxy_ServeHTTP modify T s h rw req = (rw', ProxyFailed e)" and "fst (T (out_request s h req)) = []"
  shows "rw' = rw"
  using assms by (auto simp: proxy_ServeHTTP_def Let_def split: if_splits prod.splits sum.splits option.splits)

lemma io_Copy_mux_inv:
  assumes "mux_inv copied rw" and "io_Copy Write rw rd = (rw', n, e)"
  shows "mux_inv copied rw'"
  by (rule io_Copy_invariant [where P = "mux_inv copied", OF _ assms]) (metis fst_conv mux_inv_Write)

lemma mux_inv_header [simp]: "mux_inv copied (rw\<lparr>resp_rw := (resp_rw rw)\<lparr>hw_header := h\<rparr>\<rparr>) = mux_inv copied rw"
  by (simp add: mux_inv_def mux_ok_def wire_status_def)

lemma proxy_mux_inv:
  assumes "proxy_ServeHTTP modify T s h rw req = (rw', res)" and "fst (T (out_request s h req)) = []"
    and "\<And>resp. modify resp = None \<Longrightarrow> final_status (rsp_StatusCode resp)" and "mux_inv False rw"
  shows "mux_inv False rw'"
proof -
  have copy: "mux_inv False w" if "io_Copy Write (WriteHeader (rw\<lparr>resp_rw := (resp_rw rw)\<lparr>hw_header := hd\<rparr>\<rparr>)
      code) rd = (w, n, e)" "final_status code" for code hd rd w n e
    by (rule io_Copy_mux_inv [OF mux_inv_WriteHeader that(1)]) (use assms that in auto)
  have code: "final_status (rsp_StatusCode resp)" if "modify (resp\<lparr>rsp_Header := hd\<rparr>) = None" for resp hd
    using assms(3) [OF that] by simp
  show ?thesis
    using assms(1,2,4)
    by (auto simp: proxy_ServeHTTP_def Let_def split: if_splits prod.splits sum.splits option.splits dest: code copy)
qed

end
