(* ===== verification/Throttle.thy ===== *)
theory Throttle
  imports Go_Regexp Go_Http "HOL-Library.Word"
begin

text \<open>
  \<open>pkg/throttle\<close>: byte rates and their text form (\<open>byterate.go\<close>), and the writer that a rate
  limiter slows down (\<open>throttle.go\<close>).
\<close>

section \<open>Byte rates\<close>

type_synonym Byterate = "64 word"

definition Bps :: Byterate where "Bps = 1"
definition KBps :: Byterate where "KBps = 1024 * Bps"
definition MBps :: Byterate where "MBps = 1024 * KBps"
definition GBps :: Byterate where "GBps = 1024 * MBps"
definition TBps :: Byterate where "TBps = 1024 * GBps"

definition is_digit :: "char \<Rightarrow> bool" where
  "is_digit c = (digit_value c \<noteq> None)"

text \<open>The class \<open>\s\<close>: tab, newline, form feed, carriage return and space.\<close>

definition is_space :: "char \<Rightarrow> bool" where
  "is_space c = (c \<in> {CHR 0x09, CHR 0x0A, CHR 0x0C, CHR 0x0D, CHR 0x20})"

definition unitRegex :: regex where
  "unitRegex = RSeq (ROpt (RClass (\<lambda>c. c \<in> set ''KMGT''))) (RLit ''Bps'')"

definition unmarshalRegex :: regex where
  "unmarshalRegex =
     RSeq RBegin (RSeq (RGroup 1 (RPlus (RClass is_digit)))
       (RSeq (ROpt (RClass is_space)) (RSeq (RGroup 2 unitRegex) REnd)))"

text \<open>\<open>strconv.Atoi\<close> for a 64 bit int: an optional sign and digits, within range.\<close>

definition strconv_Atoi :: "string \<Rightarrow> int result" where
  "strconv_Atoi s =
     (let neg = prefix ''-'' s;
          ds = (if prefix ''-'' s \<or> prefix ''+'' s then drop 1 s else s) in
      case parse_nat ds of
        None \<Rightarrow> Inl (Err (''strconv.Atoi: parsing '' @ s @ '': invalid syntax''))
      | Some n \<Rightarrow>
          if (if neg then n \<le> 2 ^ 63 else n < 2 ^ 63) then Inr (if neg then - int n else int n)
          else Inl (Err (''strconv.Atoi: parsing '' @ s @ '': value out of range'')))"

definition UnmarshalText :: "string \<Rightarrow> Byterate result" where
  "UnmarshalText b =
     (let comps = FindStringSubmatch unmarshalRegex 2 b in
      if length comps \<noteq> 3 then
        Inl (Err (''invalid byterate format '' @ b @ '' should be n Bps, n KBps, n MBps, n GBps, or n TBps''))
      else
        bind_result (strconv_Atoi (comps ! 1)) (\<lambda>v.
          let unitStr = comps ! 2 in
          bind_result
            (if unitStr = ''Bps'' then Inr Bps
             else if unitStr = ''KBps'' then Inr KBps
             else if unitStr = ''MBps'' then Inr MBps
             else if unitStr = ''GBps'' then Inr GBps
             else if unitStr = ''TBps'' then Inr TBps
             else Inl (Err (''unknown unit '' @ unitStr)))
            (\<lambda>unit. Inr (word_of_int v * unit))))"

section \<open>The throttled writer\<close>

definition burstLimit :: int where "burstLimit = 1024 * 1024 * 1024"

text \<open>
  \<open>rate.Limiter\<close> of \<open>golang.org/x/time\<close> is a parameter: its operations on a state \<open>'l\<close>. Times
  and delays are nanoseconds; a reservation is \<^const>\<open>None\<close> when it is not OK and its delay
  otherwise.
\<close>

record 'l Limiter =
  lim_NewLimiter :: "Byterate \<Rightarrow> int \<Rightarrow> 'l"
  lim_AllowN :: "'l \<Rightarrow> int \<Rightarrow> int \<Rightarrow> bool \<times> 'l"
  lim_ReserveN :: "'l \<Rightarrow> int \<Rightarrow> int \<Rightarrow> int option \<times> 'l"
  lim_Burst :: "'l \<Rightarrow> int"

record 'l Throttler =
  th_limiter :: 'l

definition NewThrottler :: "'l Limiter \<Rightarrow> int \<Rightarrow> Byterate \<Rightarrow> 'l Throttler" where
  "NewThrottler L now br =
     (let limiter = lim_NewLimiter L br burstLimit in
      \<lparr>th_limiter = snd (lim_AllowN L limiter now burstLimit)\<rparr>)"

text \<open>The writer, with the clock that its sleeps advance.\<close>

record ('l, 'w) writer =
  wr_limiter :: 'l
  wr_writer :: 'w
  wr_clock :: int

definition throttle_Writer :: "'l Throttler \<Rightarrow> int \<Rightarrow> 'w \<Rightarrow> ('l, 'w) writer" where
  "throttle_Writer t now w = \<lparr>wr_limiter = th_limiter t, wr_writer = w, wr_clock = now\<rparr>"

definition writer_Write ::
  "'l Limiter \<Rightarrow> ('w \<Rightarrow> string \<Rightarrow> 'w \<times> nat \<times> error option) \<Rightarrow>
   ('l, 'w) writer \<Rightarrow> string \<Rightarrow> ('l, 'w) writer \<times> nat \<times> error option" where
  "writer_Write L wr w p =
     (case wr (wr_writer w) p of
        (inner, n, Some err) \<Rightarrow> (w\<lparr>wr_writer := inner\<rparr>, 0, Some err)
      | (inner, n, None) \<Rightarrow>
          (case lim_ReserveN L (wr_limiter w) (wr_clock w) (int n) of
             (None, l) \<Rightarrow>
               (w\<lparr>wr_writer := inner, wr_limiter := l\<rparr>, n,
                Some (Err (''write size '' @ FormatInt (int n) @ '' exceeds limiters burst '' @ FormatInt (lim_Burst L l))))
           | (Some delay, l) \<Rightarrow>
               (w\<lparr>wr_writer := inner, wr_limiter := l, wr_clock := wr_clock w + max 0 delay\<rparr>, n, None)))"

section \<open>Parsing a byte rate\<close>

lemma unmarshal_match:
  assumes "(w, t, c) \<in> set (rmatch unmarshalRegex b s)"
  obtains d sp u where "s = d @ sp @ u" and "d \<in> rlang (RPlus (RClass is_digit))"
    and "sp = [] \<or> (\<exists>x. sp = [x] \<and> is_space x)" and "u \<in> rlang unitRegex"
    and "capture c 1 = d" and "capture c 2 = u"
proof -
  from assms obtain d sp u s1 s2 c1 c2 c3 b1 b2 where
    d: "(d, s1, c1) \<in> set (rmatch (RPlus (RClass is_digit)) b s)" and
    sp: "(sp, s2, c2) \<in> set (rmatch (ROpt (RClass is_space)) b1 s1)" and
    u: "(u, t, c3) \<in> set (rmatch unitRegex b2 s2)" and t: "t = []" and
    c: "c = (((2, u) # c3) @ c2) @ (1, d) # c1"
    unfolding unmarshalRegex_def in_rmatch_RBegin
    unfolding in_rmatch_RSeq [of _ _ _ _ "RSeq _ _"] in_rmatch_RSeq_REnd in_rmatch_RGroup
    by blast
  note facts = rmatch_sound [OF d] rmatch_sound [OF sp] rmatch_sound [OF u]
  have "fst ` set c3 \<subseteq> {}" "fst ` set c2 \<subseteq> {}"
    using rmatch_groups [OF u] rmatch_groups [OF sp] by (simp_all add: unitRegex_def RLit.simps)
  then have "c3 = []" "c2 = []" by auto
  with facts t c that [of d sp u] show ?thesis by auto
qed

lemma rlang_digits: "d \<in> rlang (RPlus (RClass is_digit)) \<longleftrightarrow> d \<noteq> [] \<and> (\<forall>c \<in> set d. is_digit c)"
proof (cases d)
  case (Cons c e)
  have "c # e \<in> rlang (RPlus (RClass is_digit))" if "\<forall>x \<in> set (c # e). is_digit x"
    using that words_class [of e is_digit] unfolding rlang_RPlus by (intro CollectI exI [of _ "[c]"] exI [of _ e]) auto
  with Cons words_class [of _ is_digit] show ?thesis by (auto simp: rlang_RPlus)
qed (auto simp: rlang_RPlus)

text \<open>The unit names and their values.\<close>

definition units :: "(string \<times> Byterate) list" where
  "units = [(''Bps'', Bps), (''KBps'', KBps), (''MBps'', MBps), (''GBps'', GBps), (''TBps'', TBps)]"

lemma rlang_unitRegex: "u \<in> rlang unitRegex \<longleftrightarrow> u \<in> fst ` set units"
  by (auto simp: unitRegex_def units_def)

lemma digit_not_space [simp]: "is_digit c \<Longrightarrow> \<not> is_space c"
  by (auto simp: is_digit_def is_space_def digit_value_def)

lemma unit_first: "u \<in> fst ` set units \<Longrightarrow> u \<noteq> [] \<and> \<not> is_digit (hd u) \<and> \<not> is_space (hd u)"
  by (auto simp: units_def is_digit_def is_space_def digit_value_def)

text \<open>The number, the blank and the unit are determined by the text.\<close>

lemma unmarshal_unique:
  assumes "d @ sp @ u = d' @ sp' @ u'"
    and "\<forall>c \<in> set d. is_digit c" "sp = [] \<or> (\<exists>x. sp = [x] \<and> is_space x)" "u \<in> fst ` set units"
    and "\<forall>c \<in> set d'. is_digit c" "sp' = [] \<or> (\<exists>x. sp' = [x] \<and> is_space x)" "u' \<in> fst ` set units"
  shows "d = d' \<and> u = u'"
proof -
  have d: "takeWhile is_digit (e @ q @ v) = e"
    if "\<forall>c \<in> set e. is_digit c" "q = [] \<or> (\<exists>x. q = [x] \<and> is_space x)" "v \<in> fst ` set units" for e q v
    using that unit_first [of v] by (cases v) (auto simp: takeWhile_append)
  have u: "dropWhile is_space (q @ v) = v"
    if "q = [] \<or> (\<exists>x. q = [x] \<and> is_space x)" "v \<in> fst ` set units" for q v
    using that unit_first [of v] by (cases v) auto
  from d [OF assms(2-4)] d [OF assms(5-7)] assms(1) have "d = d'" by metis
  with assms(1) u [OF assms(3,4)] u [OF assms(6,7)] show ?thesis by (metis same_append_eq)
qed

lemma unmarshal_find:
  assumes "d \<in> rlang (RPlus (RClass is_digit))" "sp = [] \<or> (\<exists>x. sp = [x] \<and> is_space x)" "u \<in> rlang unitRegex"
  obtains w t c where "rfind unmarshalRegex True (d @ sp @ u) = Some ([], w, t, c)"
    and "capture c 1 = d" and "capture c 2 = u"
proof -
  let ?s = "d @ sp @ u"
  let ?r = "RSeq (RGroup 1 (RPlus (RClass is_digit))) (RSeq (ROpt (RClass is_space)) (RGroup 2 unitRegex))"
  have "?s \<in> rlang ?r" using assms unfolding rlang.simps by blast
  moreover have "anchor_free ?r" by (simp add: RPlus_def unitRegex_def)
  ultimately obtain c0 where "(?s, [], c0) \<in> set (rmatch ?r True ?s)"
    using rmatch_complete [of ?r ?s "[]" True] unfolding append_Nil2 by blast
  moreover have "(?s, [], c0) \<in> set (rmatch (RSeq (RGroup 1 (RPlus (RClass is_digit)))
      (RSeq (ROpt (RClass is_space)) (RSeq (RGroup 2 unitRegex) REnd))) True ?s) \<longleftrightarrow>
    (?s, [], c0) \<in> set (rmatch ?r True ?s) \<and> [] = ([] :: string)"
    by (intro in_RSeq_tail in_rmatch_RSeq_REnd)
  ultimately have "(?s, [], c0) \<in> set (rmatch unmarshalRegex True ?s)"
    unfolding unmarshalRegex_def in_rmatch_RBegin by blast
  then obtain w t c where f: "rfind unmarshalRegex True ?s = Some ([], w, t, c)"
    and m: "(w, t, c) \<in> set (rmatch unmarshalRegex True ?s)" by (rule rfind_at_start)
  from m show ?thesis
  proof (rule unmarshal_match)
    fix d' sp' u'
    assume "?s = d' @ sp' @ u'" "d' \<in> rlang (RPlus (RClass is_digit))" "sp' = [] \<or> (\<exists>x. sp' = [x] \<and> is_space x)"
      "u' \<in> rlang unitRegex" "capture c 1 = d'" "capture c 2 = u'"
    with unmarshal_unique [of d sp u d' sp' u'] assms f that show ?thesis
      unfolding rlang_digits rlang_unitRegex by blast
  qed
qed

lemma parse_digits_is_digit: "parse_digits acc d = Some v \<Longrightarrow> \<forall>c \<in> set d. is_digit c"
  by (induction d arbitrary: acc) (auto simp: is_digit_def split: option.splits)

lemma parse_digits_total: "\<forall>c \<in> set d. is_digit c \<Longrightarrow> \<exists>v. parse_digits acc d = Some v"
proof (induction d arbitrary: acc)
  case (Cons c d)
  then show ?case by (auto simp: is_digit_def)
qed simp

lemma parse_nat_digits: "(\<exists>v. parse_nat d = Some v) \<longleftrightarrow> d \<in> rlang (RPlus (RClass is_digit))"
  unfolding rlang_digits parse_nat_def using parse_digits_is_digit parse_digits_total by auto

lemma Atoi_digits:
  assumes "parse_nat d = Some v"
  shows "strconv_Atoi d =
    (if v < 2 ^ 63 then Inr (int v) else Inl (Err (''strconv.Atoi: parsing '' @ d @ '': value out of range'')))"
proof -
  from assms have "\<forall>c \<in> set d. is_digit c" using parse_nat_digits [of d] rlang_digits by blast
  then have "\<not> prefix ''-'' d" "\<not> prefix ''+'' d" by (cases d; auto simp: is_digit_def digit_value_def)+
  with assms show ?thesis by (simp add: strconv_Atoi_def)
qed

lemma UnmarshalText_parts:
  assumes "parse_nat d = Some v" "sp = [] \<or> (\<exists>x. sp = [x] \<and> is_space x)" "map_of units u = Some unit"
  shows "UnmarshalText (d @ sp @ u) =
    (if v < 2 ^ 63 then Inr (of_nat v * unit)
     else Inl (Err (''strconv.Atoi: parsing '' @ d @ '': value out of range'')))"
proof -
  have u: "u \<in> rlang unitRegex" unfolding rlang_unitRegex using map_of_SomeD [OF assms(3)] by force
  from assms(1) have "d \<in> rlang (RPlus (RClass is_digit))" using parse_nat_digits by blast
  from unmarshal_find [OF this assms(2) u] obtain w t c where
    "rfind unmarshalRegex True (d @ sp @ u) = Some ([], w, t, c)" "capture c 1 = d" "capture c 2 = u" .
  then have "FindStringSubmatch unmarshalRegex 2 (d @ sp @ u) = [w, d, u]"
    by (simp add: FindStringSubmatch_def numeral_2_eq_2)
  with assms(1,3) show ?thesis
    by (auto simp: UnmarshalText_def Atoi_digits units_def Let_def split: if_splits)
qed

text \<open>
  C38. Exactly the texts of a decimal number below \<open>2 ^ 63\<close>, at most one blank, and one of the
  five units are byte rates, and their value is the product of number and unit, modulo \<open>2 ^ 64\<close>.
\<close>

theorem UnmarshalText_iff:
  "UnmarshalText b = Inr br \<longleftrightarrow>
     (\<exists>d sp u v unit. b = d @ sp @ u \<and> parse_nat d = Some v \<and> v < 2 ^ 63 \<and>
        (sp = [] \<or> (\<exists>x. sp = [x] \<and> is_space x)) \<and>
        (u, unit) \<in> {(''Bps'', 1), (''KBps'', 2 ^ 10), (''MBps'', 2 ^ 20), (''GBps'', 2 ^ 30), (''TBps'', 2 ^ 40)} \<and>
        br = of_nat v * unit)"
proof -
  have units: "(u, unit) \<in> {(''Bps'', 1), (''KBps'', 2 ^ 10), (''MBps'', 2 ^ 20), (''GBps'', 2 ^ 30), (''TBps'', 2 ^ 40)}
      \<longleftrightarrow> map_of units u = Some unit" for u and unit :: Byterate
    by (auto simp: units_def Bps_def KBps_def MBps_def GBps_def TBps_def split: if_splits)
  have shape: "\<exists>d sp u v. b = d @ sp @ u \<and> parse_nat d = Some v \<and> (sp = [] \<or> (\<exists>x. sp = [x] \<and> is_space x)) \<and>
      u \<in> fst ` set units" if "UnmarshalText b = Inr br"
  proof -
    from that obtain p w t c where f: "rfind unmarshalRegex True b = Some (p, w, t, c)"
      by (auto simp: UnmarshalText_def FindStringSubmatch_def split: option.splits if_splits)
    then have "(w, t, c) \<in> set (rmatch unmarshalRegex True b)"
      unfolding unmarshalRegex_def rfind_RBegin by (auto simp del: rmatch.simps split: list.splits)
    then show ?thesis by (rule unmarshal_match) (metis parse_nat_digits rlang_unitRegex)
  qed
  have value_of: "\<exists>unit. map_of units u = Some unit" if "u \<in> fst ` set units" for u
    using that by (metis domIff dom_map_of_conv_image_fst option.exhaust)
  show ?thesis unfolding units
  proof
    assume br: "UnmarshalText b = Inr br"
    from shape [OF br] obtain d sp u v where b: "b = d @ sp @ u" and v: "parse_nat d = Some v" and
      sp: "sp = [] \<or> (\<exists>x. sp = [x] \<and> is_space x)" and u: "u \<in> fst ` set units" by blast
    from value_of [OF u] obtain unit where unit: "map_of units u = Some unit" ..
    from UnmarshalText_parts [OF v sp unit] br b have "v < 2 ^ 63 \<and> br = of_nat v * unit"
      by (auto split: if_splits)
    with b v sp unit show "\<exists>d sp u v unit. b = d @ sp @ u \<and> parse_nat d = Some v \<and> v < 2 ^ 63 \<and>
        (sp = [] \<or> (\<exists>x. sp = [x] \<and> is_space x)) \<and> map_of units u = Some unit \<and> br = of_nat v * unit" by blast
  qed (elim exE conjE, simp only: UnmarshalText_parts if_True)
qed

text \<open>
  C39. A rate that fits is represented exactly: when the product of number and unit is below
  \<open>2 ^ 63\<close>, its text is accepted and the signed value is that product.
\<close>

theorem UnmarshalText_exact:
  assumes "sp = [] \<or> (\<exists>x. sp = [x] \<and> is_space x)"
    and "map_of [(''Bps'', 0), (''KBps'', 10), (''MBps'', 20), (''GBps'', 30), (''TBps'', 40)] u = Some k"
    and "v * 2 ^ k < 2 ^ 63"
  shows "\<exists>br. UnmarshalText (format_nat v @ sp @ u) = Inr br \<and> sint br = int (v * 2 ^ k)"
proof -
  have unit: "map_of units u = Some (2 ^ k)"
    using assms(2) by (auto simp: units_def Bps_def KBps_def MBps_def GBps_def TBps_def split: if_splits)
  have "v \<le> v * 2 ^ k" by simp
  with assms(3) have v: "v < 2 ^ 63" by linarith
  have "of_nat v * 2 ^ k = (word_of_int (int (v * 2 ^ k)) :: 64 word)" by simp
  moreover have "sint (word_of_int (int (v * 2 ^ k)) :: 64 word) = int (v * 2 ^ k)"
  proof -
    have "int (v * 2 ^ k) < 2 ^ 63" using assms(3) by (metis of_nat_less_iff of_nat_numeral of_nat_power)
    moreover have "- (2 ^ 63) \<le> int (v * 2 ^ k)" by (rule order.trans [of _ 0]) simp_all
    ultimately have "signed_take_bit 63 (int (v * 2 ^ k)) = int (v * 2 ^ k)"
      by (rule signed_take_bit_int_eq_self [rotated])
    moreover have "sint (word_of_int i :: 64 word) = signed_take_bit 63 i" for i by transfer simp
    ultimately show ?thesis by metis
  qed
  ultimately show ?thesis
    using UnmarshalText_parts [OF parse_format_nat assms(1) unit] v by auto
qed

theorem UnmarshalText_exact_witness:
  "\<exists>br. UnmarshalText (format_nat 500 @ '' '' @ ''MBps'') = Inr br \<and> sint br = int (500 * 2 ^ 20)"
  by (rule UnmarshalText_exact) (simp_all add: is_space_def)

text \<open>
  Larger rates wrap around: a rate of \<open>8388608TBps\<close> (\<open>2 ^ 63\<close> bytes per second) is accepted and
  becomes negative.
\<close>

lemma UnmarshalText_wraps:
  "\<exists>br. UnmarshalText (format_nat 8388608 @ ''TBps'') = Inr br \<and> sint br = - (2 ^ 63)"
proof -
  have "map_of units ''TBps'' = Some TBps" by (simp add: units_def)
  from UnmarshalText_parts [OF parse_format_nat [of 8388608] _ this, of "[]"]
  show ?thesis by (simp add: TBps_def GBps_def MBps_def KBps_def Bps_def)
qed

section \<open>Throttled copies\<close>

lemma writer_Write_accepted:
  assumes "\<forall>l now n. 0 \<le> n \<and> n \<le> burstLimit \<longrightarrow> fst (lim_ReserveN L l now n) \<noteq> None"
    and "wr (wr_writer w) b = (inner, n, e)" and "int n \<le> burstLimit"
  shows "\<exists>w'. writer_Write L wr w b = (w', if e = None then n else 0, e) \<and> wr_writer w' = inner \<and>
    wr_clock w \<le> wr_clock w'"
proof (cases e)
  case None
  obtain d l where "lim_ReserveN L (wr_limiter w) (wr_clock w) (int n) = (Some d, l)"
    using assms(1) [rule_format, of "int n" "wr_limiter w" "wr_clock w"] assms(3)
    by (cases "lim_ReserveN L (wr_limiter w) (wr_clock w) (int n)") auto
  with None assms(2) show ?thesis by (simp add: writer_Write_def)
qed (use assms(2) in \<open>simp add: writer_Write_def\<close>)

lemma throttled_chunks:
  assumes "\<forall>l now n. 0 \<le> n \<and> n \<le> burstLimit \<longrightarrow> fst (lim_ReserveN L l now n) \<noteq> None"
    and "\<forall>w b. fst (snd (wr w b)) \<le> length b"
  shows "\<forall>b \<in> set bs. int (length b) \<le> burstLimit \<Longrightarrow>
    io_Copy_chunks wr (wr_writer w) m bs rerr = (inner, n, e) \<Longrightarrow>
    \<exists>w' n'. io_Copy_chunks (writer_Write L wr) w m bs rerr = (w', n', e) \<and> wr_writer w' = inner \<and>
      (e = None \<longrightarrow> n' = n) \<and> wr_clock w \<le> wr_clock w'"
proof (induction bs arbitrary: w m)
  case (Cons b bs)
  show ?case
  proof (cases "b = []")
    case False
    obtain v k x where wr: "wr (wr_writer w) b = (v, k, x)" by (cases "wr (wr_writer w) b")
    with assms(2) have "k \<le> length b" by (metis fst_conv snd_conv)
    with Cons.prems(1) have "int k \<le> burstLimit" by fastforce
    from writer_Write_accepted [where wr = wr, OF assms(1) wr this] obtain w1 where
      w1: "writer_Write L wr w b = (w1, if x = None then k else 0, x)" "wr_writer w1 = v" "wr_clock w \<le> wr_clock w1"
      by blast
    show ?thesis
    proof (cases "x = None \<and> k = length b")
      case True
      with Cons.IH [of w1 "m + k"] Cons.prems wr w1 False show ?thesis by fastforce
    next
      case x: False
      with Cons.prems wr w1 False show ?thesis by (cases x) auto
    qed
  qed (use Cons in auto)
qed auto

text \<open>
  C40. Throttling does not change what is written: when the limiter grants every reservation up
  to its burst and the pieces read are no larger than the burst, a copy through the throttled
  writer ends with the same error as a copy to the writer itself and leaves it in the same state,
  with the same count when it succeeds; it only takes time.
\<close>

theorem throttled_copy:
  assumes "\<forall>l now n. 0 \<le> n \<and> n \<le> burstLimit \<longrightarrow> fst (lim_ReserveN L l now n) \<noteq> None"
    and "\<forall>w b. fst (snd (wr w b)) \<le> length b"
    and "\<forall>b \<in> set (fst rd). int (length b) \<le> burstLimit"
    and "io_Copy wr w rd = (w', n, e)"
  shows "\<exists>tw n'. io_Copy (writer_Write L wr) (throttle_Writer t now w) rd = (tw, n', e) \<and>
    wr_writer tw = w' \<and> (e = None \<longrightarrow> n' = n) \<and> now \<le> wr_clock tw"
proof -
  from throttled_chunks [of L wr "fst rd" "throttle_Writer t now w" 0 "snd rd" w' n e, OF assms(1-3)] assms(4)
  show ?thesis by (auto simp: io_Copy_def throttle_Writer_def)
qed

text \<open>A limiter that grants what fits its burst, without delay, and a writer that keeps the bytes.\<close>

definition open_limiter :: "int Limiter" where
  "open_limiter =
     \<lparr>lim_NewLimiter = (\<lambda>r b. b), lim_AllowN = (\<lambda>l now n. (n \<le> l, l)),
      lim_ReserveN = (\<lambda>l now n. (if n \<le> burstLimit then Some 0 else None, l)), lim_Burst = (\<lambda>l. l)\<rparr>"

definition buffer_Write :: "string \<Rightarrow> string \<Rightarrow> string \<times> nat \<times> error option" where
  "buffer_Write w b = (w @ b, length b, None)"

theorem throttled_copy_witness:
  "\<exists>tw n'. io_Copy (writer_Write open_limiter buffer_Write)
      (throttle_Writer (NewThrottler open_limiter 0 KBps) 0 []) ([''ab'', ''c''], None) = (tw, n', None) \<and>
    wr_writer tw = ''abc'' \<and> (None = (None :: error option) \<longrightarrow> n' = 3) \<and> 0 \<le> wr_clock tw"
proof (rule throttled_copy)
  show "\<forall>l now n. 0 \<le> n \<and> n \<le> burstLimit \<longrightarrow> fst (lim_ReserveN open_limiter l now n) \<noteq> None"
    by (simp add: open_limiter_def)
  show "\<forall>w b. fst (snd (buffer_Write w b)) \<le> length b" by (simp add: buffer_Write_def)
  show "\<forall>b \<in> set (fst ([''ab'', ''c''], None :: error option)). int (length b) \<le> burstLimit"
    by (simp add: burstLimit_def)
  show "io_Copy buffer_Write [] ([''ab'', ''c''], None) = (''abc'', 3, None)"
    by (simp add: io_Copy_def buffer_Write_def)
qed

end
