(* ===== verification/Registry.thy ===== *)
theory Registry
  imports Distribution Oci Router Reverse_Proxy Throttle
begin

text \<open>
  \<open>pkg/registry/registry.go\<close>: the HTTP registry that serves local content and mirrors requests
  to the peers a router resolves, with the HTTP metrics of \<open>pkg/metrics/metrics.go\<close>.
\<close>

section \<open>State\<close>

definition MirroredHeaderKey :: string where "MirroredHeaderKey = ''X-Spegel-Mirrored''"

text \<open>
  The metrics a request changes: a gauge and a counter by their labels, and for the histograms
  the labels of the observations made (and the sizes; durations are not modelled).
\<close>

record http_metrics =
  HttpRequestsInflight :: "string \<Rightarrow> int"
  HttpRequestDurHistogram :: "(string \<times> string \<times> string) list"
  HttpResponseSizeHistogram :: "((string \<times> string \<times> string) \<times> int) list"
  MirrorRequestsTotal :: "string \<times> string \<times> string \<Rightarrow> int"

text \<open>An entry of the access log; \<open>log_Error\<close> is \<^const>\<open>None\<close> for an info message.\<close>

record log_entry =
  log_path :: string
  log_status :: int
  log_method :: string
  log_ip :: string
  log_handler :: string
  log_Error :: "error option option"

text \<open>
  The registry. The pointers of the struct lead to the state of the router (\<open>rg_routerState\<close>), of
  the limiter (in \<open>rg_throttler\<close>) and of the metrics; the transport is a function of the number
  of the mirror attempt, since peers may answer the same request differently over time.
\<close>

record ('r, 'l) Registry =
  rg_log :: "log_entry list"
  rg_throttler :: "'l Throttler option"
  rg_ociClient :: Client
  rg_router :: "'r Router"
  rg_routerState :: 'r
  rg_transport :: "nat \<Rightarrow> OutRequest \<Rightarrow> round_trip"
  rg_localAddr :: string
  rg_resolveRetries :: int
  rg_resolveTimeout :: int
  rg_resolveLatestTag :: bool
  rg_metrics :: http_metrics
  rg_clock :: int

type_synonym ('r, 'l) Option = "('r, 'l) Registry \<Rightarrow> ('r, 'l) Registry"

definition WithResolveRetries :: "int \<Rightarrow> ('r, 'l) Option" where
  "WithResolveRetries resolveRetries r = r\<lparr>rg_resolveRetries := resolveRetries\<rparr>"

definition WithResolveLatestTag :: "bool \<Rightarrow> ('r, 'l) Option" where
  "WithResolveLatestTag resolveLatestTag r = r\<lparr>rg_resolveLatestTag := resolveLatestTag\<rparr>"

definition WithResolveTimeout :: "int \<Rightarrow> ('r, 'l) Option" where
  "WithResolveTimeout resolveTimeout r = r\<lparr>rg_resolveTimeout := resolveTimeout\<rparr>"

definition WithTransport :: "(nat \<Rightarrow> OutRequest \<Rightarrow> round_trip) \<Rightarrow> ('r, 'l) Option" where
  "WithTransport transport r = r\<lparr>rg_transport := transport\<rparr>"

definition WithLocalAddress :: "string \<Rightarrow> ('r, 'l) Option" where
  "WithLocalAddress localAddr r = r\<lparr>rg_localAddr := localAddr\<rparr>"

definition WithBlobSpeed :: "'l Limiter \<Rightarrow> Byterate \<Rightarrow> ('r, 'l) Option" where
  "WithBlobSpeed L blobSpeed r = r\<lparr>rg_throttler := Some (NewThrottler L (rg_clock r) blobSpeed)\<rparr>"

text \<open>
  A registry with the default settings: the state of the process around it (metrics, clock) and
  the default transport, which is used when none is set, are arguments.
\<close>

definition NewRegistry ::
  "Client \<Rightarrow> 'r Router \<Rightarrow> 'r \<Rightarrow> (nat \<Rightarrow> OutRequest \<Rightarrow> round_trip) \<Rightarrow> http_metrics \<Rightarrow> int \<Rightarrow> ('r, 'l) Option list \<Rightarrow> ('r, 'l) Registry" where
  "NewRegistry ociClient router routerState defaultTransport metrics clock opts =
     foldl (\<lambda>r opt. opt r)
       \<lparr>rg_log = [], rg_throttler = None, rg_ociClient = ociClient, rg_router = router,
        rg_routerState = routerState, rg_transport = defaultTransport, rg_localAddr = [],
        rg_resolveRetries = 3, rg_resolveTimeout = 20 * 1000000, rg_resolveLatestTag = True,
        rg_metrics = metrics, rg_clock = clock\<rparr>
       opts"

section \<open>Helpers\<close>

definition isExternalRequest :: "('r, 'l) Registry \<Rightarrow> Request \<Rightarrow> bool" where
  "isExternalRequest r req = (req_Host req \<noteq> rg_localAddr r)"

definition getClientIP :: "Request \<Rightarrow> string" where
  "getClientIP req =
     (let forwardedFor = header_Get (req_Header req) ''X-Forwarded-For'' in
      if forwardedFor \<noteq> [] then
        (let comps = str_SplitByte forwardedFor (CHR '','') in
         if length comps > 1 then comps ! 0 else forwardedFor)
      else
        (case SplitHostPort (req_RemoteAddr req) of Inl _ \<Rightarrow> [] | Inr (h, _) \<Rightarrow> h))"

section \<open>Serving local content\<close>

definition handleManifest :: "('r, 'l) Registry \<Rightarrow> response \<Rightarrow> Request \<Rightarrow> reference \<Rightarrow> response" where
  "handleManifest r rw req ref =
     (case (if ref_dgst ref = [] then cl_Resolve (rg_ociClient r) (ref_name ref) else Inr (ref_dgst ref)) of
        Inl err \<Rightarrow> WriteError rw 404 (Wrap (''could not get digest for image tag '' @ ref_name ref @ '': '') err)
      | Inr dgst \<Rightarrow>
          (case cl_GetManifest (rg_ociClient r) dgst of
             Inl err \<Rightarrow> WriteError rw 404 (Wrap (''could not get manifest content for digest '' @ dgst @ '': '') err)
           | Inr (b, mediaType) \<Rightarrow>
               (let rw1 = set_header rw ''Content-Type'' mediaType;
                    rw2 = set_header rw1 ''Content-Length'' (FormatInt (int (length b)));
                    rw3 = set_header rw2 ''Docker-Content-Digest'' dgst in
                if req_Method req = MethodHead then rw3 else fst (Write rw3 b))))"

text \<open>
  Without a throttler \<open>io.Copy\<close> uses the \<open>ReadFrom\<close> of the response; the throttled writer has
  none, so that each piece goes through its \<open>Write\<close>. The shared limiter and the clock are
  updated.
\<close>

definition handleBlob ::
  "'l Limiter \<Rightarrow> ('r, 'l) Registry \<Rightarrow> response \<Rightarrow> Request \<Rightarrow> reference \<Rightarrow> ('r, 'l) Registry \<times> response" where
  "handleBlob L r rw req ref =
     (case cl_Size (rg_ociClient r) (ref_dgst ref) of
        Inl err \<Rightarrow> (r, WriteError rw 500 (Wrap (''could not determine size of blob with digest '' @ ref_dgst ref @ '': '') err))
      | Inr sz \<Rightarrow>
          (let rw1 = set_header rw ''Content-Length'' (FormatInt sz);
               rw2 = set_header rw1 ''Docker-Content-Digest'' (ref_dgst ref) in
           if req_Method req = MethodHead then (r, rw2)
           else
             (case cl_GetBlob (rg_ociClient r) (ref_dgst ref) of
                Inl err \<Rightarrow> (r, WriteError rw2 500 (Wrap (''could not get reader for blob with digest '' @ ref_dgst ref @ '': '') err))
              | Inr rc \<Rightarrow>
                  (case rg_throttler r of
                     None \<Rightarrow> (r, fst (ReadFrom rw2 rc))
                   | Some t \<Rightarrow>
                       (let (w, n, err) = io_Copy (writer_Write L Write) (throttle_Writer t (rg_clock r) rw2) rc in
                        (r\<lparr>rg_throttler := Some \<lparr>th_limiter = wr_limiter w\<rparr>, rg_clock := wr_clock w\<rparr>, wr_writer w))))))"

section \<open>Mirroring\<close>

text \<open>The hook that accepts only a status of 200.\<close>

definition modifyResponse :: "Response \<Rightarrow> error option" where
  "modifyResponse resp =
     (if rsp_StatusCode resp \<noteq> 200
      then Some (Err (''expected mirror to respond with 200 OK but received: '' @ rsp_Status resp))
      else None)"

text \<open>
  The loop over the addresses the router delivers before it closes the channel, after \<open>n\<close> mirror
  attempts. In each round the select may find the context of the request done instead.
\<close>

fun mirror_loop ::
  "('r, 'l) Registry \<Rightarrow> Request \<Rightarrow> string \<Rightarrow> nat \<Rightarrow> AddrPort list \<Rightarrow> response \<Rightarrow> response \<times> unit outcome" where
  "mirror_loop r req key n [] rw =
     (if req_Done req = Some n then
        (WriteError rw 404 (Wrap (''mirroring for image component '' @ key @ '' has been cancelled: '') (req_ctxErr req)), Done ())
      else
        (let err = Err (''mirror with image component '' @ key @ '' could not be found'') in
         (WriteError rw 404
            (if n > 0
             then Joined [err, Err (''requests to '' @ format_nat n @
                    '' mirrors failed, all attempts have been exhausted or timeout has been reached'')]
             else err),
          Done ())))"
| "mirror_loop r req key n (ipAddr # peers) rw =
     (if req_Done req = Some n then
        (WriteError rw 404 (Wrap (''mirroring for image component '' @ key @ '' has been cancelled: '') (req_ctxErr req)), Done ())
      else
        (case proxy_ServeHTTP modifyResponse (rg_transport r (n + 1)) (if req_TLS req then ''https'' else ''http'')
                (AddrPort_String ipAddr) rw req of
           (rw', ProxyFailed err) \<Rightarrow> mirror_loop r req key (n + 1) peers rw'
         | (rw', Proxied) \<Rightarrow> (rw', Done ())
         | (rw', ProxyAborted) \<Rightarrow> (rw', Panic ''net/http: abort Handler'')))"

text \<open>The deferred count of the mirror request, by the status that was recorded.\<close>

definition count_mirror :: "('r, 'l) Registry \<Rightarrow> reference \<Rightarrow> bool \<Rightarrow> response \<Rightarrow> ('r, 'l) Registry" where
  "count_mirror r ref isExternal rw =
     (let sourceType = (if isExternal then ''external'' else ''internal'');
          cacheType = (if Status rw \<noteq> 200 then ''miss'' else ''hit'');
          m = rg_metrics r;
          label = (ref_originalRegistry ref, cacheType, sourceType) in
      r\<lparr>rg_metrics := m\<lparr>MirrorRequestsTotal := (MirrorRequestsTotal m)(label := MirrorRequestsTotal m label + 1)\<rparr>\<rparr>)"

definition handleMirror ::
  "('r, 'l) Registry \<Rightarrow> response \<Rightarrow> Request \<Rightarrow> reference \<Rightarrow> ('r, 'l) Registry \<times> response \<times> unit outcome" where
  "handleMirror r rw req ref =
     (let key = (if ref_dgst ref = [] then ref_name ref else ref_dgst ref);
          isExternal = isExternalRequest r req;
          (rw', res) =
            (if \<not> rg_resolveLatestTag r \<and> hasLatestTag ref then (WriteHeader rw 404, Done ())
             else
               (case rt_Resolve (rg_router r) (rg_routerState r) key isExternal (rg_resolveRetries r) of
                  Panic p \<Rightarrow> (rw, Panic p)
                | Done (Inl err) \<Rightarrow>
                    (WriteError rw 500 (Wrap ''error occurred when attempting to resolve mirrors: '' err), Done ())
                | Done (Inr peers) \<Rightarrow> mirror_loop r req key 0 peers rw)) in
      (count_mirror r ref isExternal rw', rw', res))"

section \<open>Dispatch\<close>

definition readyHandler :: "('r, 'l) Registry \<Rightarrow> response \<Rightarrow> ('r, 'l) Registry \<times> response" where
  "readyHandler r rw =
     (case rt_Ready (rg_router r) (rg_routerState r) of
        (Inl err, s) \<Rightarrow>
          (r\<lparr>rg_routerState := s\<rparr>, WriteError rw 500 (Wrap ''could not determine router readiness: '' err))
      | (Inr ok, s) \<Rightarrow> (r\<lparr>rg_routerState := s\<rparr>, if \<not> ok then WriteHeader rw 500 else rw))"

text \<open>The name of the handler that was used is only returned when it does not panic.\<close>

definition registryHandler ::
  "'l Limiter \<Rightarrow> ('r, 'l) Registry \<Rightarrow> response \<Rightarrow> Request \<Rightarrow> ('r, 'l) Registry \<times> response \<times> string outcome" where
  "registryHandler L r rw req =
     (if path_Clean (req_Path req) = ''/v2'' then (r, WriteHeader rw 200, Done ''v2'')
      else
        (case parsePathComponents (query_Get (ParseQuery (req_RawQuery req)) ''ns'') (req_Path req) of
           Inl err \<Rightarrow>
             (r, WriteError rw 404 (Wrap ''could not parse path according to OCI distribution spec: '' err), Done ''registry'')
         | Inr ref \<Rightarrow>
             if header_Get (req_Header req) MirroredHeaderKey \<noteq> ''true'' then
               (case handleMirror r rw (req\<lparr>req_Header := header_Set (req_Header req) MirroredHeaderKey ''true''\<rparr>) ref of
                  (r', rw', Panic p) \<Rightarrow> (r', rw', Panic p)
                | (r', rw', Done _) \<Rightarrow> (r', rw', Done ''mirror''))
             else if ref_kind ref = referenceKindManifest then
               (r, handleManifest r rw req ref, Done ''manifest'')
             else if ref_kind ref = referenceKindBlob then
               (let (r', rw') = handleBlob L r rw req ref in (r', rw', Done ''blob''))
             else
               (r, WriteError rw 404 (Err (''unknown reference kind '' @ ref_kind ref)), Done ''registry'')))"

definition inflight :: "('r, 'l) Registry \<Rightarrow> string \<Rightarrow> int \<Rightarrow> ('r, 'l) Registry" where
  "inflight r path v =
     (let m = rg_metrics r in
      r\<lparr>rg_metrics := m\<lparr>HttpRequestsInflight :=
          (HttpRequestsInflight m)(path := HttpRequestsInflight m path + v)\<rparr>\<rparr>)"

text \<open>The deferred part of \<open>handle\<close>: metrics and access log.\<close>

definition handle_deferred :: "('r, 'l) Registry \<Rightarrow> response \<Rightarrow> Request \<Rightarrow> string \<Rightarrow> string \<Rightarrow> ('r, 'l) Registry" where
  "handle_deferred r rw req path handler =
     (let statusCode = FormatInt (Status rw);
          r1 = inflight r path (-1);
          m = rg_metrics r1;
          r2 = r1\<lparr>rg_metrics := m\<lparr>
                 HttpRequestDurHistogram := HttpRequestDurHistogram m @ [(path, req_Method req, statusCode)],
                 HttpResponseSizeHistogram := HttpResponseSizeHistogram m @ [((path, req_Method req, statusCode), response_Size rw)]\<rparr>\<rparr> in
      if req_Path req = ''/healthz'' then r2
      else
        r2\<lparr>rg_log := rg_log r2 @
             [\<lparr>log_path = req_Path req, log_status = Status rw, log_method = req_Method req,
               log_ip = getClientIP req, log_handler = handler,
               log_Error = (if 200 \<le> Status rw \<and> Status rw < 300 then None else Some (response_Error rw))\<rparr>]\<rparr>)"

definition handle :: "'l Limiter \<Rightarrow> ('r, 'l) Registry Handler" where
  "handle L r rw req =
     (let path = (if str_HasPrefix (req_Path req) ''/v2'' then ''/v2/*'' else req_Path req);
          r1 = inflight r path 1;
          (r2, rw2, res) =
            (if req_Path req = ''/healthz'' \<and> req_Method req = MethodGet then
               (let (r', rw') = readyHandler r1 rw in (r', rw', Done ''ready''))
             else if str_HasPrefix (req_Path req) ''/v2'' \<and> (req_Method req = MethodGet \<or> req_Method req = MethodHead) then
               registryHandler L r1 rw req
             else (r1, WriteHeader rw 404, Done []));
          handler = (case res of Done h \<Rightarrow> h | Panic _ \<Rightarrow> []) in
      (handle_deferred r2 rw2 req path handler, rw2, (case res of Done _ \<Rightarrow> Done () | Panic p \<Rightarrow> Panic p)))"

definition Server :: "'l Limiter \<Rightarrow> string \<Rightarrow> (string \<times> ('r, 'l) Registry ServeMux) result" where
  "Server L addr = bind_result (NewServeMux (Some (handle L))) (\<lambda>m. Inr (addr, m))"

section \<open>What the handlers leave alone\<close>

text \<open>The parts of the state that only the wrapper \<open>handle\<close> changes.\<close>

definition same_frame :: "('r, 'l) Registry \<Rightarrow> ('r, 'l) Registry \<Rightarrow> bool" where
  "same_frame r r' \<longleftrightarrow> rg_log r' = rg_log r \<and>
     HttpRequestsInflight (rg_metrics r') = HttpRequestsInflight (rg_metrics r) \<and>
     HttpRequestDurHistogram (rg_metrics r') = HttpRequestDurHistogram (rg_metrics r) \<and>
     HttpResponseSizeHistogram (rg_metrics r') = HttpResponseSizeHistogram (rg_metrics r)"

lemma same_frame_simps [simp]:
  "same_frame r r"
  "same_frame r (r\<lparr>rg_routerState := s\<rparr>)"
  "same_frame r (r\<lparr>rg_throttler := t, rg_clock := c\<rparr>)"
  "same_frame r (count_mirror r ref ext rw)"
  by (simp_all add: same_frame_def count_mirror_def Let_def)

lemma handleMirror_frame: "handleMirror r rw req ref = (r', rw', res) \<Longrightarrow> same_frame r r'"
  by (auto simp: handleMirror_def Let_def split: prod.splits)

lemma handleBlob_frame: "handleBlob L r rw req ref = (r', rw') \<Longrightarrow> same_frame r r'"
  by (auto simp: handleBlob_def Let_def split: sum.splits if_splits option.splits prod.splits)

lemma readyHandler_frame: "readyHandler r rw = (r', rw') \<Longrightarrow> same_frame r r'"
  by (auto simp: readyHandler_def split: prod.splits sum.splits)

lemma registryHandler_frame:
  assumes "registryHandler L r rw req = (r', rw', res)"
  shows "same_frame r r'"
proof -
  let ?req = "req\<lparr>req_Header := header_Set (req_Header req) MirroredHeaderKey ''true''\<rparr>"
  have mirror: "same_frame r r'" if "(case handleMirror r rw ?req ref of (r', rw', Done _) \<Rightarrow> (r', rw', Done ''mirror'')
      | (r', rw', Panic p) \<Rightarrow> (r', rw', Panic p)) = (r', rw', res)" for ref
    using that handleMirror_frame [of r rw ?req ref] by (auto split: prod.splits outcome.splits)
  have blob: "same_frame r r'" if "(case handleBlob L r rw req ref of (r', rw') \<Rightarrow> (r', rw', Done ''blob'')) = (r', rw', res)" for ref
    using that handleBlob_frame [of L r rw req ref] by (auto split: prod.splits)
  from assms show ?thesis
    by (auto simp: registryHandler_def Let_def split: if_splits sum.splits dest: mirror blob)
qed

text \<open>The handler that \<open>handle\<close> chooses, on the state with the request counted as in flight.\<close>

definition dispatch ::
  "'l Limiter \<Rightarrow> ('r, 'l) Registry \<Rightarrow> response \<Rightarrow> Request \<Rightarrow> ('r, 'l) Registry \<times> response \<times> string outcome" where
  "dispatch L r rw req =
     (if req_Path req = ''/healthz'' \<and> req_Method req = MethodGet then
        (let (r', rw') = readyHandler r rw in (r', rw', Done ''ready''))
      else if str_HasPrefix (req_Path req) ''/v2'' \<and> (req_Method req = MethodGet \<or> req_Method req = MethodHead) then
        registryHandler L r rw req
      else (r, WriteHeader rw 404, Done []))"

definition metrics_path :: "Request \<Rightarrow> string" where
  "metrics_path req = (if str_HasPrefix (req_Path req) ''/v2'' then ''/v2/*'' else req_Path req)"

lemma handle_dispatch:
  assumes "dispatch L (inflight r (metrics_path req) 1) rw req = (r2, rw2, res)"
  shows "handle L r rw req =
    (handle_deferred r2 rw2 req (metrics_path req) (case res of Done h \<Rightarrow> h | Panic _ \<Rightarrow> []), rw2,
     (case res of Done _ \<Rightarrow> Done () | Panic p \<Rightarrow> Panic p))"
  using assms unfolding handle_def dispatch_def metrics_path_def by (simp add: Let_def split: prod.splits)

lemma dispatch_frame: "dispatch L r rw req = (r', rw', res) \<Longrightarrow> same_frame r r'"
  using registryHandler_frame [of L r rw req r' rw' res] readyHandler_frame [of r rw r' rw']
  by (auto simp: dispatch_def split: if_splits prod.splits)

section \<open>Metrics and access log\<close>

text \<open>
  C35. Every request, whether its handler returns or panics, leaves the gauge of requests in
  flight as it was, adds one observation of its duration and one of its size under the status
  that was recorded, and adds one entry to the access log unless it asks for \<open>/healthz\<close>, as an
  error exactly when the status is not a 2xx status.
\<close>

theorem handle_metrics:
  "case handle L r rw req of (r', rw', res) \<Rightarrow>
     HttpRequestsInflight (rg_metrics r') = HttpRequestsInflight (rg_metrics r) \<and>
     (\<exists>path. path = (if str_HasPrefix (req_Path req) ''/v2'' then ''/v2/*'' else req_Path req) \<and>
       HttpRequestDurHistogram (rg_metrics r') =
         HttpRequestDurHistogram (rg_metrics r) @ [(path, req_Method req, FormatInt (Status rw'))] \<and>
       HttpResponseSizeHistogram (rg_metrics r') =
         HttpResponseSizeHistogram (rg_metrics r) @ [((path, req_Method req, FormatInt (Status rw')), response_Size rw')]) \<and>
     (if req_Path req = ''/healthz'' then rg_log r' = rg_log r
      else \<exists>entry. rg_log r' = rg_log r @ [entry] \<and> log_path entry = req_Path req \<and>
        log_status entry = Status rw' \<and> log_ip entry = getClientIP req \<and>
        log_Error entry = (if 200 \<le> Status rw' \<and> Status rw' < 300 then None else Some (response_Error rw')))"
proof -
  obtain r2 rw2 res where d: "dispatch L (inflight r (metrics_path req) 1) rw req = (r2, rw2, res)"
    by (cases "dispatch L (inflight r (metrics_path req) 1) rw req") auto
  from dispatch_frame [OF d] handle_dispatch [OF d] show ?thesis
    by (auto simp: same_frame_def handle_deferred_def inflight_def metrics_path_def Let_def fun_eq_iff)
qed

section \<open>The recorded status\<close>

text \<open>A transport that passes on no informational responses.\<close>

definition plain_transport :: "(nat \<Rightarrow> OutRequest \<Rightarrow> round_trip) \<Rightarrow> bool" where
  "plain_transport T \<longleftrightarrow> (\<forall>n req. fst (T n req) = [])"

lemma mux_inv_copied: "mux_inv False r \<Longrightarrow> mux_inv True r"
  by (simp add: mux_inv_def)

lemma final_codes [simp]: "final_status 200" "final_status 404" "final_status 500"
  by (simp_all add: final_status_def)

lemma modifyResponse_final: "modifyResponse resp = None \<Longrightarrow> final_status (rsp_StatusCode resp)"
  by (simp add: modifyResponse_def split: if_splits)

lemma mirror_loop_mux_inv:
  assumes "plain_transport (rg_transport r)"
  shows "mux_inv False rw \<Longrightarrow> mirror_loop r req key n peers rw = (rw', res) \<Longrightarrow> mux_inv False rw'"
proof (induction peers arbitrary: n rw)
  case Nil
  then show ?case by (auto simp: Let_def mux_inv_WriteError split: if_splits)
next
  case (Cons ipAddr peers)
  obtain rw1 pr where p: "proxy_ServeHTTP modifyResponse (rg_transport r (n + 1))
      (if req_TLS req then ''https'' else ''http'') (AddrPort_String ipAddr) rw req = (rw1, pr)"
    by (cases "proxy_ServeHTTP modifyResponse (rg_transport r (n + 1))
      (if req_TLS req then ''https'' else ''http'') (AddrPort_String ipAddr) rw req")
  have "mux_inv False rw1"
    by (rule proxy_mux_inv [OF p _ modifyResponse_final Cons.prems(1)]) (use assms in \<open>simp_all add: plain_transport_def\<close>)
  with Cons p show ?case by (auto simp: mux_inv_WriteError split: if_splits proxy_result.splits)
qed

lemma handleMirror_mux_inv:
  assumes "plain_transport (rg_transport r)" and "mux_inv False rw" and "handleMirror r rw req ref = (r', rw', res)"
  shows "mux_inv False rw'"
  using assms(2,3) mirror_loop_mux_inv [OF assms(1,2)]
  by (auto simp: handleMirror_def Let_def mux_inv_WriteHeader mux_inv_WriteError
      split: if_splits prod.splits outcome.splits sum.splits)

lemma handleManifest_mux_inv: "mux_inv False rw \<Longrightarrow> mux_inv False (handleManifest r rw req ref)"
  by (simp add: handleManifest_def Let_def mux_inv_WriteError mux_inv_Write mux_inv_set_header
      split: sum.splits prod.splits)

lemma writer_Write_mux_inv:
  assumes "mux_inv copied (wr_writer w)" and "writer_Write L Write w b = (w', n, e)"
  shows "mux_inv copied (wr_writer w')"
proof -
  obtain v k x where v: "Write (wr_writer w) b = (v, k, x)" by (cases "Write (wr_writer w) b")
  with mux_inv_Write [OF assms(1), of b] have "mux_inv copied v" by simp
  with v assms(2) show ?thesis by (auto simp: writer_Write_def split: option.splits prod.splits)
qed

lemma handleBlob_mux_inv:
  assumes "mux_inv False rw" and "handleBlob L r rw req ref = (r', rw')"
  shows "mux_inv True rw'"
proof -
  let ?rw = "\<lambda>sz. set_header (set_header rw ''Content-Length'' (FormatInt sz)) ''Docker-Content-Digest'' (ref_dgst ref)"
  have hdr: "mux_inv False (?rw sz)" for sz using assms(1) by (simp add: mux_inv_set_header)
  have thr: "mux_inv False (wr_writer w)"
    if "io_Copy (writer_Write L Write) (throttle_Writer t now (?rw sz)) rc = (w, n, e)" for t now sz rc w n e
    by (rule io_Copy_invariant [where P = "\<lambda>w. mux_inv False (wr_writer w)", OF _ _ that])
      (use hdr writer_Write_mux_inv in \<open>auto simp: throttle_Writer_def\<close>)
  from assms(2) hdr show ?thesis
    by (auto simp: handleBlob_def Let_def mux_inv_WriteError mux_inv_ReadFrom [OF hdr] assms(1)
        split: sum.splits if_splits option.splits prod.splits dest: thr intro: mux_inv_copied)
qed

lemma registryHandler_mux_inv:
  assumes "plain_transport (rg_transport r)" and "mux_inv False rw" and "registryHandler L r rw req = (r', rw', res)"
  shows "mux_inv True rw'"
proof -
  let ?req = "req\<lparr>req_Header := header_Set (req_Header req) MirroredHeaderKey ''true''\<rparr>"
  have mirror: "mux_inv True rw'" if "(case handleMirror r rw ?req ref of (r', rw', Done _) \<Rightarrow> (r', rw', Done ''mirror'')
      | (r', rw', Panic p) \<Rightarrow> (r', rw', Panic p)) = (r', rw', res)" for ref
    using that handleMirror_mux_inv [OF assms(1,2), of ?req ref]
    by (auto split: prod.splits outcome.splits intro: mux_inv_copied)
  have blob: "mux_inv True rw'"
    if "(case handleBlob L r rw req ref of (r', rw') \<Rightarrow> (r', rw', Done ''blob'')) = (r', rw', res)" for ref
    using that handleBlob_mux_inv [OF assms(2), of L r req ref] by (auto split: prod.splits)
  from assms(2,3) show ?thesis
    by (auto simp: registryHandler_def Let_def mux_inv_WriteHeader mux_inv_WriteError handleManifest_mux_inv
        split: if_splits sum.splits dest: mirror blob intro: mux_inv_copied)
qed

lemma dispatch_mux_inv:
  assumes "plain_transport (rg_transport r)" and "mux_inv False rw" and "dispatch L r rw req = (r', rw', res)"
  shows "mux_inv True rw'"
  using assms(2,3) registryHandler_mux_inv [OF assms(1,2), of L req r' rw' res]
  by (auto simp: dispatch_def readyHandler_def mux_inv_WriteHeader mux_inv_WriteError
      split: if_splits prod.splits sum.splits intro: mux_inv_copied)


section \<open>Forwarding and its end\<close>

abbreviation mirrored :: "Request \<Rightarrow> Request" where
  "mirrored req \<equiv> req\<lparr>req_Header := header_Set (req_Header req) MirroredHeaderKey ''true''\<rparr>"

text \<open>The request a peer receives when a registry forwards one, from the connection of \<open>remote\<close>.\<close>

definition peer_request :: "OutRequest \<Rightarrow> string \<Rightarrow> Request" where
  "peer_request out remote =
     \<lparr>req_Method = out_Method out, req_Path = out_Path out, req_RawQuery = out_RawQuery out,
      req_Header = out_Header out, req_Host = out_Host out, req_RemoteAddr = remote,
      req_TLS = (out_Scheme out = ''https''), req_Done = None, req_ctxErr = Err ''context canceled''\<rparr>"

lemma end_to_end_mirrored: "end_to_end MirroredHeaderKey"
  by code_simp

lemma out_header_mirrored:
  assumes "MirroredHeaderKey \<notin> canonical_key ` set (connection_tokens (req_Header req))"
  shows "header_Get (out_Header (out_request s h (mirrored req))) MirroredHeaderKey = ''true''"
proof -
  have "connection_tokens (header_Set (req_Header req) MirroredHeaderKey ''true'') = connection_tokens (req_Header req)"
    by (simp add: connection_tokens_def header_values_def header_Set_def MirroredHeaderKey_def)
  with assms show ?thesis
    by (simp add: out_request_def header_Get_def out_header_apply [OF end_to_end_mirrored] header_Set_def)
qed

text \<open>
  A request with the mirrored header is served locally: neither the transport nor the router is
  used, and no panic is possible.
\<close>

lemma handleManifest_local:
  "handleManifest (r\<lparr>rg_transport := T, rg_router := R, rg_routerState := s\<rparr>) rw req ref = handleManifest r rw req ref"
  by (simp add: handleManifest_def cong: sum.case_cong)

lemma handleBlob_local:
  assumes "handleBlob L r rw req ref = (r', rw')"
  shows "handleBlob L (r\<lparr>rg_transport := T, rg_router := R, rg_routerState := s\<rparr>) rw req ref =
    (r'\<lparr>rg_transport := T, rg_router := R, rg_routerState := s\<rparr>, rw')"
proof (cases "cl_Size (rg_ociClient r) (ref_dgst ref)")
  case (Inr sz)
  then show ?thesis
    using assms
    by (cases "rg_throttler r"; cases "cl_GetBlob (rg_ociClient r) (ref_dgst ref)"; cases "req_Method req = MethodHead")
      (auto simp: handleBlob_def Let_def split: prod.splits)
qed (use assms in \<open>simp add: handleBlob_def\<close>)

lemma registryHandler_local:
  assumes "header_Get (req_Header req) MirroredHeaderKey = ''true''"
    and "registryHandler L r rw req = (r', rw', res)"
  shows "registryHandler L (r\<lparr>rg_transport := T, rg_router := R, rg_routerState := s\<rparr>) rw req =
     (r'\<lparr>rg_transport := T, rg_router := R, rg_routerState := s\<rparr>, rw', res) \<and> (\<forall>p. res \<noteq> Panic p)"
proof (cases "parsePathComponents (query_Get (ParseQuery (req_RawQuery req)) ''ns'') (req_Path req)")
  case (Inl err)
  with assms show ?thesis by (auto simp: registryHandler_def)
next
  case (Inr ref)
  obtain r1 rw1 where b: "handleBlob L r rw req ref = (r1, rw1)" by (cases "handleBlob L r rw req ref")
  note blob = handleBlob_local [OF b, where T = T and R = R and s = s]
  have "registryHandler L (r\<lparr>rg_transport := T, rg_router := R, rg_routerState := s\<rparr>) rw req =
     (r'\<lparr>rg_transport := T, rg_router := R, rg_routerState := s\<rparr>, rw', res)"
    using assms Inr blob b by (auto simp: registryHandler_def handleManifest_local split: if_splits)
  moreover have "res \<noteq> Panic p" for p
    using assms Inr b by (auto simp: registryHandler_def split: if_splits)
  ultimately show ?thesis by blast
qed

text \<open>
  C11. A request that carries the mirrored header is never forwarded: whatever transport, router
  and router state the registry has, the client gets the same response, and the handler returns.
\<close>

theorem mirrored_served_locally:
  fixes r :: "('r, 'l) Registry"
  assumes "header_Get (req_Header req) MirroredHeaderKey = ''true''" and "str_HasPrefix (req_Path req) ''/v2''"
    and "handle L r rw req = (r', rw', res)"
  shows "res = Done () \<and>
    (\<exists>r''. handle L (r\<lparr>rg_transport := T, rg_router := R, rg_routerState := s\<rparr>) rw req = (r'', rw', Done ()))"
proof -
  let ?p = "metrics_path req" and ?r = "r\<lparr>rg_transport := T, rg_router := R, rg_routerState := s\<rparr>"
  obtain r2 rw2 x where d: "dispatch L (inflight r ?p 1) rw req = (r2, rw2, x)"
    by (cases "dispatch L (inflight r ?p 1) rw req") auto
  have hz: "req_Path req \<noteq> ''/healthz''" using assms(2) by (auto simp: str_HasPrefix_def)
  have same: "inflight ?r ?p 1 = (inflight r ?p 1)\<lparr>rg_transport := T, rg_router := R, rg_routerState := s\<rparr>"
    by (simp add: inflight_def Let_def)
  have "dispatch L (inflight ?r ?p 1) rw req =
      (r2\<lparr>rg_transport := T, rg_router := R, rg_routerState := s\<rparr>, rw2, x) \<or>
      dispatch L (inflight ?r ?p 1) rw req = (inflight ?r ?p 1, rw2, x)" and "\<forall>p. x \<noteq> Panic p"
    using registryHandler_local [OF assms(1), where L = L and r = "inflight r ?p 1" and rw = rw and r' = r2 and rw' = rw2
      and res = x and T = T and R = R and s = s] d hz assms(2)
    unfolding same by (auto simp: dispatch_def split: if_splits)
  then obtain r3 where "dispatch L (inflight ?r ?p 1) rw req = (r3, rw2, x)" "\<forall>p. x \<noteq> Panic p" by blast
  with handle_dispatch [OF d] handle_dispatch [OF this(1)] assms(3) show ?thesis by (cases x) auto
qed

lemma proxy_cong:
  "T (out_request s h req) = T' (out_request s h req) \<Longrightarrow>
     proxy_ServeHTTP modify T s h rw req = proxy_ServeHTTP modify T' s h rw req"
  by (simp add: proxy_ServeHTTP_def)

lemma mirror_loop_cong:
  assumes "\<And>n s h. T n (out_request s h req) = rg_transport r n (out_request s h req)"
  shows "mirror_loop (r\<lparr>rg_transport := T\<rparr>) req key n peers rw = mirror_loop r req key n peers rw"
proof (induction peers arbitrary: n rw)
  case (Cons p peers)
  have "proxy_ServeHTTP modifyResponse (T (n + 1)) s h rw req = proxy_ServeHTTP modifyResponse (rg_transport r (n + 1)) s h rw req" for s h
    by (rule proxy_cong) (rule assms)
  with Cons show ?case by (simp split: prod.splits proxy_result.splits)
qed simp

text \<open>The response of \<open>handleMirror\<close>, without the count.\<close>

definition mirror_response :: "('r, 'l) Registry \<Rightarrow> response \<Rightarrow> Request \<Rightarrow> reference \<Rightarrow> response \<times> unit outcome" where
  "mirror_response r rw req ref =
     (let key = (if ref_dgst ref = [] then ref_name ref else ref_dgst ref) in
      if \<not> rg_resolveLatestTag r \<and> hasLatestTag ref then (WriteHeader rw 404, Done ())
      else
        (case rt_Resolve (rg_router r) (rg_routerState r) key (isExternalRequest r req) (rg_resolveRetries r) of
           Panic p \<Rightarrow> (rw, Panic p)
         | Done (Inl err) \<Rightarrow>
             (WriteError rw 500 (Wrap ''error occurred when attempting to resolve mirrors: '' err), Done ())
         | Done (Inr peers) \<Rightarrow> mirror_loop r req key 0 peers rw))"

lemma handleMirror_response:
  "handleMirror r rw req ref =
     (count_mirror r ref (isExternalRequest r req) (fst (mirror_response r rw req ref)), mirror_response r rw req ref)"
  by (simp add: handleMirror_def mirror_response_def Let_def split: prod.split)

lemma handleMirror_cong:
  assumes "\<And>n s h. T n (out_request s h req) = rg_transport r n (out_request s h req)"
  shows "snd (handleMirror (r\<lparr>rg_transport := T\<rparr>) rw req ref) = snd (handleMirror r rw req ref)"
proof -
  have "isExternalRequest (r\<lparr>rg_transport := T\<rparr>) req = isExternalRequest r req" by (simp add: isExternalRequest_def)
  then show ?thesis
    by (simp add: handleMirror_response mirror_response_def Let_def mirror_loop_cong [OF assms]
        split: outcome.split sum.split)
qed

lemma registryHandler_cong:
  assumes "\<And>n s h. T n (out_request s h (mirrored req)) = rg_transport r n (out_request s h (mirrored req))"
  shows "snd (registryHandler L (r\<lparr>rg_transport := T\<rparr>) rw req) = snd (registryHandler L r rw req)"
proof (cases "header_Get (req_Header req) MirroredHeaderKey = ''true''")
  case True
  obtain r' rw' res where h: "registryHandler L r rw req = (r', rw', res)" by (cases "registryHandler L r rw req") auto
  have "r\<lparr>rg_transport := T\<rparr> = r\<lparr>rg_transport := T, rg_router := rg_router r, rg_routerState := rg_routerState r\<rparr>" by simp
  with registryHandler_local [OF True h, where T = T and R = "rg_router r" and s = "rg_routerState r"] h
  show ?thesis by simp
next
  case False
  have *: "snd (case x of (r', rw', Done _) \<Rightarrow> (r', rw', Done ''mirror'') | (r', rw', Panic p) \<Rightarrow> (r', rw', Panic p)) =
      (case snd x of (rw', Done _) \<Rightarrow> (rw', Done ''mirror'') | (rw', Panic p) \<Rightarrow> (rw', Panic p))" for x
    by (simp split: prod.splits outcome.splits)
  from False show ?thesis
    by (simp add: registryHandler_def * handleMirror_cong [OF assms] split: sum.split)
qed

text \<open>
  C10. Every request a registry forwards carries the mirrored header, unless the client asked for
  that header to be removed by naming it in \<open>Connection\<close>: changing the answers of the transport to
  requests without the header changes nothing.
\<close>

theorem forwards_only_mirrored:
  assumes "MirroredHeaderKey \<notin> canonical_key ` set (connection_tokens (req_Header req))"
    and "\<forall>n out. header_Get (out_Header out) MirroredHeaderKey = ''true'' \<longrightarrow> T n out = rg_transport r n out"
  shows "snd (handle L (r\<lparr>rg_transport := T\<rparr>) rw req) = snd (handle L r rw req)"
proof -
  let ?p = "metrics_path req"
  have T: "T n (out_request s h (mirrored req)) = rg_transport r n (out_request s h (mirrored req))" for n s h
    using assms(2) out_header_mirrored [OF assms(1)] by blast
  obtain r1 rw1 x1 where d1: "dispatch L (inflight (r\<lparr>rg_transport := T\<rparr>) ?p 1) rw req = (r1, rw1, x1)"
    by (cases "dispatch L (inflight (r\<lparr>rg_transport := T\<rparr>) ?p 1) rw req") auto
  obtain r2 rw2 x2 where d2: "dispatch L (inflight r ?p 1) rw req = (r2, rw2, x2)"
    by (cases "dispatch L (inflight r ?p 1) rw req") auto
  have "inflight (r\<lparr>rg_transport := T\<rparr>) ?p 1 = (inflight r ?p 1)\<lparr>rg_transport := T\<rparr>"
    and "rg_transport (inflight r ?p 1) = rg_transport r"
    by (simp_all add: inflight_def Let_def)
  with d1 d2 registryHandler_cong [of T req "inflight r ?p 1" L rw] T
  have "(rw1, x1) = (rw2, x2)"
    by (auto simp: dispatch_def readyHandler_def split: if_splits prod.splits sum.splits)
  with handle_dispatch [OF d1] handle_dispatch [OF d2] show ?thesis by simp
qed


end
