(* ===== verification/Mirroring.thy ===== *)
theory Mirroring
  imports Registry
begin

text \<open>
  What a client of the registry gets: the response of the first peer that has the content, an
  error when none has, and the local manifests and blobs.
\<close>

section \<open>The answers of the peers\<close>

abbreviation request_scheme :: "Request \<Rightarrow> string" where
  "request_scheme req \<equiv> (if req_TLS req then ''https'' else ''http'')"

text \<open>The answer of a peer to the forwarded request, as attempt \<open>n\<close>.\<close>

definition peer_answer :: "('r, 'l) Registry \<Rightarrow> Request \<Rightarrow> nat \<Rightarrow> AddrPort \<Rightarrow> round_trip" where
  "peer_answer r req n p = rg_transport r n (out_request (request_scheme req) (AddrPort_String p) req)"

definition peer_fails :: "('r, 'l) Registry \<Rightarrow> Request \<Rightarrow> nat \<Rightarrow> AddrPort \<Rightarrow> bool" where
  "peer_fails r req n p \<longleftrightarrow> fst (peer_answer r req n p) = [] \<and>
     (case snd (peer_answer r req n p) of Inl _ \<Rightarrow> True | Inr res \<Rightarrow> rsp_StatusCode res \<noteq> 200)"

lemma proxy_peer_fails:
  assumes "peer_fails r req n p"
  shows "\<exists>e. proxy_ServeHTTP modifyResponse (rg_transport r n) (request_scheme req) (AddrPort_String p) rw req = (rw, ProxyFailed e)"
proof -
  obtain infos res where a: "peer_answer r req n p = (infos, res)" by (cases "peer_answer r req n p")
  with assms show ?thesis
    by (auto simp: peer_fails_def peer_answer_def proxy_ServeHTTP_def modifyResponse_def Let_def split: sum.splits)
qed

text \<open>Peers that fail leave no trace but the number of attempts.\<close>

lemma mirror_loop_failing:
  assumes "\<forall>i < length ps. peer_fails r req (n + i + 1) (ps ! i)"
    and "\<forall>i < length ps. req_Done req \<noteq> Some (n + i)"
  shows "mirror_loop r req key n (ps @ qs) rw = mirror_loop r req key (n + length ps) qs rw"
  using assms
proof (induction ps arbitrary: n)
  case (Cons p ps)
  from Cons.prems(1) have "peer_fails r req (n + 1) p" by auto
  then obtain e where "proxy_ServeHTTP modifyResponse (rg_transport r (n + 1)) (request_scheme req)
      (AddrPort_String p) rw req = (rw, ProxyFailed e)"
    using proxy_peer_fails by blast
  moreover have "req_Done req \<noteq> Some n" using Cons.prems(2) by auto
  ultimately have "mirror_loop r req key n ((p # ps) @ qs) rw = mirror_loop r req key (n + 1) (ps @ qs) rw"
    by simp
  also have "\<dots> = mirror_loop r req key (n + 1 + length ps) qs rw"
  proof (rule Cons.IH)
    show "\<forall>i < length ps. peer_fails r req (n + 1 + i + 1) (ps ! i)"
      using Cons.prems(1) by (metis Suc_eq_plus1 Suc_less_eq add.assoc add.commute length_Cons nth_Cons_Suc)
    show "\<forall>i < length ps. req_Done req \<noteq> Some (n + 1 + i)"
      using Cons.prems(2) by (metis Suc_eq_plus1 Suc_less_eq add.assoc add.commute length_Cons)
  qed
  finally show ?case by simp
qed simp

lemma copyHeader_empty_Get [simp]: "header_Get (copyHeader Map.empty h) k = header_Get h k"
  by (simp add: header_Get_def copyHeader_def split: option.splits list.splits)

text \<open>A peer that answers with 200 and a complete body is copied to the client.\<close>

lemma proxy_peer_serves:
  assumes "peer_answer r req n p = ([], Inr res)" and "rsp_StatusCode res = 200" and "snd (rsp_Body res) = None"
    and "is_print (upgradeType (req_Header req))"
    and "case parse_nat (header_Get (removeHopByHopHeaders (rsp_Header res)) ''Content-Length'') of
           None \<Rightarrow> True | Some k \<Rightarrow> length (concat (fst (rsp_Body res))) \<le> k"
  shows "\<exists>rw'. proxy_ServeHTTP modifyResponse (rg_transport r n) (request_scheme req) (AddrPort_String p)
      (new_response (http_new_writer False None)) req = (rw', Proxied) \<and>
    Status rw' = 200 \<and> wire_status (Unwrap rw') = 200 \<and>
    hw_body (Unwrap rw') = concat (fst (rsp_Body res)) \<and>
    wire_header (Unwrap rw') = copyHeader Map.empty (removeHopByHopHeaders (rsp_Header res))"
proof -
  let ?hd = "copyHeader Map.empty (removeHopByHopHeaders (rsp_Header res))"
  let ?new = "new_response (http_new_writer False None)"
  let ?rw = "WriteHeader (?new\<lparr>resp_rw := (resp_rw ?new)\<lparr>hw_header := ?hd\<rparr>\<rparr>) 200"
  note fresh = Let_def new_response_def http_new_writer_def WriteHeader_def http_WriteHeader_def http_informational_def
  have rw: "hw_header (resp_rw ?new) = Map.empty" "hw_body (resp_rw ?rw) = []" "Status ?rw = 200"
    "wire_status (resp_rw ?rw) = 200" "wire_header (resp_rw ?rw) = ?hd"
    by (simp_all add: fresh Status_def wire_status_def wire_header_def)
  have "http_accepts (resp_rw ?rw) (length (concat (fst (rsp_Body res))))"
    using assms(5) by (simp add: http_accepts_def fresh wire_status_def body_allowed_def split: option.splits)
  from io_Copy_Write_accepts [OF this] assms(3) obtain rw' where
    copy: "io_Copy Write ?rw (rsp_Body res) = (rw', length (concat (fst (rsp_Body res))), None)"
      "hw_body (resp_rw rw') = hw_body (resp_rw ?rw) @ concat (fst (rsp_Body res))" by auto
  from io_Copy_Write_frame [OF copy(1)] copy rw assms(1,2,4) show ?thesis
    by (intro exI [of _ rw'])
      (simp add: proxy_ServeHTTP_def peer_answer_def modifyResponse_def Unwrap_def Let_def)
qed

section \<open>Mirrored responses\<close>

definition mirror_key :: "reference \<Rightarrow> string" where
  "mirror_key ref = (if ref_dgst ref = [] then ref_name ref else ref_dgst ref)"

definition mirror_count :: "('r, 'l) Registry \<Rightarrow> reference \<Rightarrow> Request \<Rightarrow> string \<Rightarrow> int" where
  "mirror_count r ref req cache =
     MirrorRequestsTotal (rg_metrics r)
       (ref_originalRegistry ref, cache, if req_Host req \<noteq> rg_localAddr r then ''external'' else ''internal'')"

lemma mirror_count_hit:
  "mirror_count (count_mirror r ref (isExternalRequest r req) rw) ref req cache =
     mirror_count r ref req cache + (if cache = (if Status rw = 200 then ''hit'' else ''miss'') then 1 else 0)"
  by (simp add: mirror_count_def count_mirror_def isExternalRequest_def Let_def)

lemma handleMirror_first:
  assumes "rt_Resolve (rg_router r) (rg_routerState r) (mirror_key ref) (isExternalRequest r req) (rg_resolveRetries r) =
      Done (Inr (ps @ p # qs))"
    and "rg_resolveLatestTag r \<or> \<not> hasLatestTag ref"
    and "\<forall>i \<le> length ps. req_Done req \<noteq> Some i"
    and "\<forall>i < length ps. peer_fails r req (i + 1) (ps ! i)"
    and "peer_answer r req (length ps + 1) p = ([], Inr res)" and "rsp_StatusCode res = 200" and "snd (rsp_Body res) = None"
    and "is_print (upgradeType (req_Header req))"
    and "case parse_nat (header_Get (removeHopByHopHeaders (rsp_Header res)) ''Content-Length'') of
           None \<Rightarrow> True | Some k \<Rightarrow> length (concat (fst (rsp_Body res))) \<le> k"
  shows "\<exists>r' rw'. handleMirror r (new_response (http_new_writer False None)) req ref = (r', rw', Done ()) \<and>
    Status rw' = 200 \<and> wire_status (Unwrap rw') = 200 \<and>
    hw_body (Unwrap rw') = concat (fst (rsp_Body res)) \<and>
    wire_header (Unwrap rw') = copyHeader Map.empty (removeHopByHopHeaders (rsp_Header res)) \<and>
    mirror_count r' ref req ''hit'' = mirror_count r ref req ''hit'' + 1"
proof -
  let ?rw = "new_response (http_new_writer False None)"
  obtain rw' where p: "proxy_ServeHTTP modifyResponse (rg_transport r (length ps + 1)) (request_scheme req)
      (AddrPort_String p) ?rw req = (rw', Proxied)" and
    rw': "Status rw' = 200" "wire_status (Unwrap rw') = 200" "hw_body (Unwrap rw') = concat (fst (rsp_Body res))"
      "wire_header (Unwrap rw') = copyHeader Map.empty (removeHopByHopHeaders (rsp_Header res))"
    using proxy_peer_serves [OF assms(5-9)] by blast
  have "mirror_loop r req (mirror_key ref) 0 (ps @ p # qs) ?rw = (rw', Done ())"
    using mirror_loop_failing [of ps r req 0 "mirror_key ref" "p # qs" ?rw] assms(3,4) p by simp
  with assms(1,2) have "mirror_response r ?rw req ref = (rw', Done ())"
    by (auto simp: mirror_response_def mirror_key_def)
  with rw' show ?thesis by (simp add: handleMirror_response mirror_count_hit)
qed

text \<open>
  C9. Mirroring a GET request: the peers that the router delivers are tried in order, and the
  response of the first one that answers with 200 is the response of the registry, with its
  status, end-to-end headers and body; failed attempts before it leave no trace, and the request
  counts as a hit.
\<close>

theorem mirror_first_success:
  assumes "rt_Resolve (rg_router r) (rg_routerState r) (mirror_key ref) (isExternalRequest r req) (rg_resolveRetries r) =
      Done (Inr (ps @ p # qs))"
    and "rg_resolveLatestTag r \<or> \<not> hasLatestTag ref"
    and "\<forall>i \<le> length ps. req_Done req \<noteq> Some i"
    and "\<forall>i < length ps. peer_fails r req (i + 1) (ps ! i)"
    and "peer_answer r req (length ps + 1) p = ([], Inr res)" and "rsp_StatusCode res = 200" and "snd (rsp_Body res) = None"
    and "is_print (upgradeType (req_Header req))"
    and "case parse_nat (header_Get (removeHopByHopHeaders (rsp_Header res)) ''Content-Length'') of
           None \<Rightarrow> True | Some k \<Rightarrow> length (concat (fst (rsp_Body res))) \<le> k"
  shows "\<exists>r' rw'. handleMirror r (new_response (http_new_writer False None)) req ref = (r', rw', Done ()) \<and>
    Status rw' = 200 \<and> wire_status (Unwrap rw') = 200 \<and>
    hw_body (Unwrap rw') = concat (fst (rsp_Body res)) \<and>
    wire_header (Unwrap rw') = copyHeader Map.empty (removeHopByHopHeaders (rsp_Header res)) \<and>
    mirror_count r' ref req ''hit'' = mirror_count r ref req ''hit'' + 1"
  by (rule handleMirror_first [OF assms])

lemma handleMirror_none:
  assumes "rt_Resolve (rg_router r) (rg_routerState r) (mirror_key ref) (isExternalRequest r req) (rg_resolveRetries r) =
      Done (Inr ps)"
    and "rg_resolveLatestTag r \<or> \<not> hasLatestTag ref"
    and "req_Done req = None"
    and "\<forall>i < length ps. peer_fails r req (i + 1) (ps ! i)"
  shows "\<exists>r' rw'. handleMirror r (new_response (http_new_writer head conn)) req ref = (r', rw', Done ()) \<and>
    Status rw' = 404 \<and> wire_status (Unwrap rw') = 404 \<and> hw_body (Unwrap rw') = [] \<and>
    response_Error rw' = Some
      (let err = Err (''mirror with image component '' @ mirror_key ref @ '' could not be found'') in
       if ps = [] then err
       else Joined [err, Err (''requests to '' @ format_nat (length ps) @
              '' mirrors failed, all attempts have been exhausted or timeout has been reached'')]) \<and>
    mirror_count r' ref req ''miss'' = mirror_count r ref req ''miss'' + 1"
proof -
  let ?rw = "new_response (http_new_writer head conn)"
  obtain e where e: "mirror_response r ?rw req ref = (WriteError ?rw 404 e, Done ())" and
    "e = (let err = Err (''mirror with image component '' @ mirror_key ref @ '' could not be found'') in
       if ps = [] then err
       else Joined [err, Err (''requests to '' @ format_nat (length ps) @
              '' mirrors failed, all attempts have been exhausted or timeout has been reached'')])"
    using mirror_loop_failing [of ps r req 0 "mirror_key ref" "[]" ?rw] assms
    by (auto simp: mirror_response_def mirror_key_def Let_def)
  moreover have "Status (WriteError ?rw 404 e) = 404" "wire_status (Unwrap (WriteError ?rw 404 e)) = 404"
    "hw_body (Unwrap (WriteError ?rw 404 e)) = []" "response_Error (WriteError ?rw 404 e) = Some e"
    by (simp_all add: mux_defs new_response_def http_new_writer_def http_WriteHeader_def http_informational_def
        Unwrap_def response_Error_def Let_def)
  ultimately show ?thesis by (simp add: handleMirror_response mirror_count_hit)
qed

text \<open>
  C13. When every peer the router delivers fails, the client gets a 404 without body, the error
  names the key and the number of failed attempts, and the request counts as a miss.
\<close>

theorem mirror_exhausted:
  assumes "rt_Resolve (rg_router r) (rg_routerState r) (mirror_key ref) (isExternalRequest r req) (rg_resolveRetries r) =
      Done (Inr ps)"
    and "rg_resolveLatestTag r \<or> \<not> hasLatestTag ref"
    and "req_Done req = None"
    and "\<forall>i < length ps. peer_fails r req (i + 1) (ps ! i)"
  shows "\<exists>r' rw'. handleMirror r (new_response (http_new_writer head conn)) req ref = (r', rw', Done ()) \<and>
    Status rw' = 404 \<and> wire_status (Unwrap rw') = 404 \<and> hw_body (Unwrap rw') = [] \<and>
    response_Error rw' = Some
      (let err = Err (''mirror with image component '' @ mirror_key ref @ '' could not be found'') in
       if ps = [] then err
       else Joined [err, Err (''requests to '' @ format_nat (length ps) @
              '' mirrors failed, all attempts have been exhausted or timeout has been reached'')]) \<and>
    mirror_count r' ref req ''miss'' = mirror_count r ref req ''miss'' + 1"
  by (rule handleMirror_none [OF assms])

section \<open>Local content\<close>

lemma new_response_simps [simp]:
  "Status (new_response w) = 200" "response_Error (new_response w) = None" "resp_rw (new_response w) = w"
  by (simp_all add: new_response_def Status_def response_Error_def)

lemma http_new_writer_simps [simp]:
  "hw_header (http_new_writer head conn) = Map.empty" "\<not> hw_wroteHeader (http_new_writer head conn)"
  "hw_body (http_new_writer head conn) = []" "hw_conn (http_new_writer head conn) = conn"
  "hw_head (http_new_writer head conn) = head" "hw_written (http_new_writer head conn) = 0"
  "\<not> hw_hijacked (http_new_writer head conn)"
  by (simp_all add: http_new_writer_def)

lemma set_header_simps [simp]:
  "hw_header (resp_rw (set_header rw k v)) = header_Set (hw_header (resp_rw rw)) k v"
  "hw_wroteHeader (resp_rw (set_header rw k v)) = hw_wroteHeader (resp_rw rw)"
  "hw_body (resp_rw (set_header rw k v)) = hw_body (resp_rw rw)"
  "hw_conn (resp_rw (set_header rw k v)) = hw_conn (resp_rw rw)"
  "hw_head (resp_rw (set_header rw k v)) = hw_head (resp_rw rw)"
  "hw_written (resp_rw (set_header rw k v)) = hw_written (resp_rw rw)"
  "hw_hijacked (resp_rw (set_header rw k v)) = hw_hijacked (resp_rw rw)"
  "Status (set_header rw k v) = Status rw" "response_Error (set_header rw k v) = response_Error rw"
  "wire_status (resp_rw (set_header rw k v)) = wire_status (resp_rw rw)"
  by (simp_all add: set_header_def wire_status_def response_Error_def Status_def)

lemma handleManifest_serves:
  assumes "(if ref_dgst ref = [] then cl_Resolve (rg_ociClient r) (ref_name ref) else Inr (ref_dgst ref)) = Inr dgst"
    and "cl_GetManifest (rg_ociClient r) dgst = Inr (b, mediaType)"
  shows "\<exists>rw'. handleManifest r (new_response (http_new_writer (req_Method req = MethodHead) None)) req ref = rw' \<and>
    Status rw' = 200 \<and> wire_status (Unwrap rw') = 200 \<and> response_Error rw' = None \<and>
    wire_header (Unwrap rw') =
      [''Content-Type'' \<mapsto> [mediaType], ''Content-Length'' \<mapsto> [FormatInt (int (length b))],
       ''Docker-Content-Digest'' \<mapsto> [dgst]] \<and>
    hw_body (Unwrap rw') = (if req_Method req = MethodHead then [] else b)"
proof -
  let ?h = "[''Content-Type'' \<mapsto> [mediaType], ''Content-Length'' \<mapsto> [FormatInt (int (length b))],
       ''Docker-Content-Digest'' \<mapsto> [dgst]]"
  define rw where "rw = set_header (set_header (set_header
      (new_response (http_new_writer (req_Method req = MethodHead) None)) ''Content-Type'' mediaType)
      ''Content-Length'' (FormatInt (int (length b)))) ''Docker-Content-Digest'' dgst"
  have rw: "hw_header (resp_rw rw) = ?h" "hw_body (resp_rw rw) = []" "\<not> hw_wroteHeader (resp_rw rw)"
    "Status rw = 200" "response_Error rw = None" "hw_conn (resp_rw rw) = None" "hw_written (resp_rw rw) = 0"
    "hw_head (resp_rw rw) = (req_Method req = MethodHead)" "\<not> hw_hijacked (resp_rw rw)"
    by (simp_all add: rw_def header_Set_def)
  have eq: "handleManifest r (new_response (http_new_writer (req_Method req = MethodHead) None)) req ref =
      (if req_Method req = MethodHead then rw else fst (Write rw b))"
    using assms(1,2) by (simp add: handleManifest_def rw_def Let_def)
  obtain rw1 n e where w: "Write rw b = (rw1, n, e)" by (cases "Write rw b")
  have "hw_body (resp_rw rw1) = b" if "req_Method req \<noteq> MethodHead"
  proof (cases "b = []")
    case True
    with w rw(2,9) show ?thesis by (auto simp: Write_def http_Write_def http_WriteHeader_def Let_def)
  next
    case False
    have "parse_nat (header_Get ?h ''Content-Length'') = Some (length b)"
      by (simp add: header_Get_def parse_FormatInt)
    with rw that have "http_accepts (resp_rw rw) (length b)"
      by (simp add: http_accepts_def wire_status_def body_allowed_def)
    from Write_accepts [OF this False] w rw(2) show ?thesis by auto
  qed
  with Write_frame [OF w] w rw eq show ?thesis
    by (auto simp: Unwrap_def wire_status_def wire_header_def)
qed

text \<open>
  C14. A local manifest, asked for by digest or by a tag that resolves to one: the response has
  status 200, the media type, the length and the digest of the manifest as headers, and for a GET
  request the manifest as body; for a HEAD request the same headers and no body.
\<close>

theorem manifest_served:
  assumes "(if ref_dgst ref = [] then cl_Resolve (rg_ociClient r) (ref_name ref) else Inr (ref_dgst ref)) = Inr dgst"
    and "cl_GetManifest (rg_ociClient r) dgst = Inr (b, mediaType)"
  shows "\<exists>rw'. handleManifest r (new_response (http_new_writer (req_Method req = MethodHead) None)) req ref = rw' \<and>
    Status rw' = 200 \<and> wire_status (Unwrap rw') = 200 \<and> response_Error rw' = None \<and>
    wire_header (Unwrap rw') =
      [''Content-Type'' \<mapsto> [mediaType], ''Content-Length'' \<mapsto> [FormatInt (int (length b))],
       ''Docker-Content-Digest'' \<mapsto> [dgst]] \<and>
    hw_body (Unwrap rw') = (if req_Method req = MethodHead then [] else b)"
  by (rule handleManifest_serves [OF assms])

lemma copied_blob:
  assumes "hw_header (resp_rw rw) ''Content-Length'' = Some [FormatInt (int (length (concat (fst rd))))]"
    and "\<not> hw_wroteHeader (resp_rw rw)" "hw_conn (resp_rw rw) = None" "hw_written (resp_rw rw) = 0" "\<not> hw_head (resp_rw rw)"
    and "\<not> hw_hijacked (resp_rw rw)"
  shows "http_accepts (resp_rw rw) (length (concat (fst rd)))"
  using assms by (simp add: http_accepts_def wire_status_def body_allowed_def header_Get_def parse_FormatInt)

lemma Write_count: "fst (snd (Write rw b)) \<le> length b"
proof -
  obtain w n e where w: "http_Write (resp_rw rw) b = (w, n, e)" by (cases "http_Write (resp_rw rw) b")
  then have "n \<le> length b"
    by (auto simp: http_Write_def Let_def split: if_splits option.splits)
  with w show ?thesis by (simp add: Write_def)
qed

lemma handleBlob_serves:
  assumes "cl_Size (rg_ociClient r) (ref_dgst ref) = Inr (int (length (concat chunks)))"
    and "cl_GetBlob (rg_ociClient r) (ref_dgst ref) = Inr (chunks, None)"
    and "rg_throttler r \<noteq> None \<longrightarrow>
      (\<forall>l now n. 0 \<le> n \<and> n \<le> burstLimit \<longrightarrow> fst (lim_ReserveN L l now n) \<noteq> None) \<and>
      (\<forall>b \<in> set chunks. int (length b) \<le> burstLimit)"
  shows "\<exists>r' rw'. handleBlob L r (new_response (http_new_writer (req_Method req = MethodHead) None)) req ref = (r', rw') \<and>
    Status rw' = 200 \<and> wire_status (Unwrap rw') = 200 \<and> response_Error rw' = None \<and>
    wire_header (Unwrap rw') =
      [''Content-Length'' \<mapsto> [FormatInt (int (length (concat chunks)))], ''Docker-Content-Digest'' \<mapsto> [ref_dgst ref]] \<and>
    hw_body (Unwrap rw') = (if req_Method req = MethodHead then [] else concat chunks)"
proof -
  let ?h = "[''Content-Length'' \<mapsto> [FormatInt (int (length (concat chunks)))], ''Docker-Content-Digest'' \<mapsto> [ref_dgst ref]]"
  define rw where "rw = set_header (set_header (new_response (http_new_writer (req_Method req = MethodHead) None))
      ''Content-Length'' (FormatInt (int (length (concat chunks))))) ''Docker-Content-Digest'' (ref_dgst ref)"
  have rw: "hw_header (resp_rw rw) = ?h" "hw_body (resp_rw rw) = []" "\<not> hw_wroteHeader (resp_rw rw)"
    "Status rw = 200" "response_Error rw = None" "hw_conn (resp_rw rw) = None" "hw_written (resp_rw rw) = 0"
    "hw_head (resp_rw rw) = (req_Method req = MethodHead)" "\<not> hw_hijacked (resp_rw rw)"
    by (simp_all add: rw_def header_Set_def)
  have wire: "wire_status (resp_rw rw) = 200" "wire_header (resp_rw rw) = ?h"
    using rw by (simp_all add: wire_status_def wire_header_def)
  have eq: "handleBlob L r (new_response (http_new_writer (req_Method req = MethodHead) None)) req ref =
      (if req_Method req = MethodHead then (r, rw)
       else (case rg_throttler r of
               None \<Rightarrow> (r, fst (ReadFrom rw (chunks, None)))
             | Some t \<Rightarrow>
                 (let (w, n, err) = io_Copy (writer_Write L Write) (throttle_Writer t (rg_clock r) rw) (chunks, None) in
                  (r\<lparr>rg_throttler := Some \<lparr>th_limiter = wr_limiter w\<rparr>, rg_clock := wr_clock w\<rparr>, wr_writer w))))"
    unfolding rw_def using assms(1,2) by (simp add: handleBlob_def Let_def)
  show ?thesis
  proof (cases "req_Method req = MethodHead")
    case True
    with eq rw wire show ?thesis by (simp add: Unwrap_def)
  next
    case get: False
    have ok: "http_accepts (resp_rw rw) (length (concat (fst (chunks, None :: error option))))"
      using rw get by (intro copied_blob) simp_all
    show ?thesis
    proof (cases "rg_throttler r")
      case None
      from io_Copy_http_accepts [OF ok] obtain w where
        w: "io_Copy http_Write (resp_rw rw) (chunks, None) = (w, length (concat chunks), None)"
          "hw_body w = hw_body (resp_rw rw) @ concat chunks" by auto
      with None get eq rw wire io_Copy_http_frame [OF w(1)] show ?thesis
        by (simp add: ReadFrom_def Unwrap_def response_Error_def)
    next
      case (Some t)
      from io_Copy_Write_accepts [OF ok] obtain rw' where
        c: "io_Copy Write rw (chunks, None) = (rw', length (concat chunks), None)"
          "hw_body (resp_rw rw') = hw_body (resp_rw rw) @ concat chunks" by auto
      obtain tw n where "io_Copy (writer_Write L Write) (throttle_Writer t (rg_clock r) rw) (chunks, None) = (tw, n, None)"
        "wr_writer tw = rw'"
        using throttled_chunks [of L Write "chunks" "throttle_Writer t (rg_clock r) rw" 0 None rw' "length (concat chunks)" None]
          assms(3) Some c(1) Write_count by (auto simp: io_Copy_def throttle_Writer_def)
      with Some get eq rw wire c io_Copy_Write_frame [OF c(1)] show ?thesis by (simp add: Unwrap_def)
    qed
  qed
qed

text \<open>
  When the blob cannot be opened after its size was found, the error response still declares the
  length and the digest of the blob, and has no body.
\<close>

lemma blob_reader_error:
  assumes "cl_Size (rg_ociClient r) (ref_dgst ref) = Inr sz"
    and "cl_GetBlob (rg_ociClient r) (ref_dgst ref) = Inl err" and "req_Method req \<noteq> MethodHead"
    and "handleBlob L r (new_response (http_new_writer False None)) req ref = (r', rw')"
  shows "wire_status (Unwrap rw') = 500 \<and> hw_body (Unwrap rw') = [] \<and>
    wire_header (Unwrap rw') ''Content-Length'' = Some [FormatInt sz] \<and>
    wire_header (Unwrap rw') ''Docker-Content-Digest'' = Some [ref_dgst ref]"
  using assms
  by (auto simp: handleBlob_def Let_def WriteError_def WriteHeader_def http_WriteHeader_def http_informational_def
      set_header_def header_Set_def new_response_def Unwrap_def wire_status_def wire_header_def)

text \<open>
  C15. A local blob: the response has status 200, the size and the digest of the blob as headers,
  and for a GET request its bytes as body, with or without throttling; for a HEAD request the same
  headers and no body. The blob must have the size that is reported for it, and a limiter must
  grant the pieces that are read.
\<close>

theorem blob_served:
  assumes "cl_Size (rg_ociClient r) (ref_dgst ref) = Inr (int (length (concat chunks)))"
    and "cl_GetBlob (rg_ociClient r) (ref_dgst ref) = Inr (chunks, None)"
    and "rg_throttler r \<noteq> None \<longrightarrow>
      (\<forall>l now n. 0 \<le> n \<and> n \<le> burstLimit \<longrightarrow> fst (lim_ReserveN L l now n) \<noteq> None) \<and>
      (\<forall>b \<in> set chunks. int (length b) \<le> burstLimit)"
  shows "\<exists>r' rw'. handleBlob L r (new_response (http_new_writer (req_Method req = MethodHead) None)) req ref = (r', rw') \<and>
    Status rw' = 200 \<and> wire_status (Unwrap rw') = 200 \<and> response_Error rw' = None \<and>
    wire_header (Unwrap rw') =
      [''Content-Length'' \<mapsto> [FormatInt (int (length (concat chunks)))], ''Docker-Content-Digest'' \<mapsto> [ref_dgst ref]] \<and>
    hw_body (Unwrap rw') = (if req_Method req = MethodHead then [] else concat chunks)"
  by (rule handleBlob_serves [OF assms])

section \<open>Concrete runs\<close>

text \<open>
  A client with a manifest and a blob, a registry whose router knows two providers of a blob, a
  transport to which the first of them does not answer, and a request for that blob.
\<close>

definition example_client :: Client where
  "example_client =
     \<lparr>cl_Name = ''example'', cl_Verify = None, cl_Subscribe = None, cl_ListImages = Inr [],
      cl_AllIdentifiers = (\<lambda>img. Inr []), cl_Resolve = (\<lambda>ref. Inr ''sha256:m''), cl_Size = (\<lambda>d. Inr 3),
      cl_GetManifest = (\<lambda>d. Inr (''{}'', ''application/json'')), cl_GetBlob = (\<lambda>d. Inr ([''ab'', ''c''], None))\<rparr>"

definition example_transport :: "nat \<Rightarrow> OutRequest \<Rightarrow> round_trip" where
  "example_transport n out =
     ([], if n = 1 then Inl (Err ''connection refused'')
          else Inr \<lparr>rsp_StatusCode = 200, rsp_Status = ''200 OK'', rsp_Header = [''Content-Length'' \<mapsto> [''3'']],
                    rsp_Body = ([''abc''], None)\<rparr>)"

definition peer_a :: AddrPort where "peer_a = \<lparr>ap_Addr = ''10.0.0.2'', ap_Port = 5000\<rparr>"
definition peer_b :: AddrPort where "peer_b = \<lparr>ap_Addr = ''10.0.0.3'', ap_Port = 5000\<rparr>"

definition example_registry :: "(MemoryRouter, int) Registry" where
  "example_registry =
     NewRegistry example_client memory_router
       (NewMemoryRouter [''sha256:b'' \<mapsto> [peer_a, peer_b], ''sha256:c'' \<mapsto> [peer_a]] \<lparr>ap_Addr = ''10.0.0.1'', ap_Port = 5000\<rparr>)
       example_transport
       \<lparr>HttpRequestsInflight = (\<lambda>_. 0), HttpRequestDurHistogram = [], HttpResponseSizeHistogram = [],
        MirrorRequestsTotal = (\<lambda>_. 0)\<rparr> 0 [WithLocalAddress ''localhost:5000'']"

definition example_request :: "string \<Rightarrow> header \<Rightarrow> Request" where
  "example_request path h =
     \<lparr>req_Method = MethodGet, req_Path = path, req_RawQuery = ''ns=docker.io'', req_Header = h,
      req_Host = ''localhost:5000'', req_RemoteAddr = ''127.0.0.1:40000'', req_TLS = False, req_Done = None,
      req_ctxErr = Err ''context canceled''\<rparr>"

definition example_reference :: "string \<Rightarrow> reference" where
  "example_reference dgst =
     \<lparr>ref_kind = referenceKindBlob, ref_name = [], ref_dgst = dgst, ref_originalRegistry = ''docker.io''\<rparr>"

lemmas example_defs = example_registry_def NewRegistry_def WithLocalAddress_def NewMemoryRouter_def
  example_request_def example_reference_def example_client_def

abbreviation fresh :: response where "fresh \<equiv> new_response (http_new_writer False None)"


theorem mirrored_served_locally_witness:
  "\<exists>r rw r'. handle open_limiter example_registry fresh
       (example_request ''/v2/x/blobs/sha256:b'' [MirroredHeaderKey \<mapsto> [''true'']]) = (r, rw, Done ()) \<and>
     handle open_limiter (example_registry\<lparr>rg_transport := \<lambda>n out. ([], Inl ErrNotExist), rg_router := memory_router,
         rg_routerState := NewMemoryRouter Map.empty peer_a\<rparr>) fresh
       (example_request ''/v2/x/blobs/sha256:b'' [MirroredHeaderKey \<mapsto> [''true'']]) = (r', rw, Done ())"
proof -
  let ?req = "example_request ''/v2/x/blobs/sha256:b'' [MirroredHeaderKey \<mapsto> [''true'']]"
  obtain r rw res where h: "handle open_limiter example_registry fresh ?req = (r, rw, res)" by (metis prod_cases3)
  have "header_Get (req_Header ?req) MirroredHeaderKey = ''true''" by (simp add: example_defs header_Get_def)
  moreover have "str_HasPrefix (req_Path ?req) ''/v2''" by (simp add: example_defs str_HasPrefix_def)
  ultimately show ?thesis
    using mirrored_served_locally [OF _ _ h, where T = "\<lambda>n out. ([], Inl ErrNotExist)" and R = memory_router
        and s = "NewMemoryRouter Map.empty peer_a"] h by blast
qed

theorem forwards_only_mirrored_witness:
  "snd (handle open_limiter
      (example_registry\<lparr>rg_transport := \<lambda>n out. if header_Get (out_Header out) MirroredHeaderKey = ''true''
          then example_transport n out else ([], Inl ErrNotExist)\<rparr>)
      fresh (example_request ''/v2/x/blobs/sha256:b'' Map.empty)) =
   snd (handle open_limiter example_registry fresh (example_request ''/v2/x/blobs/sha256:b'' Map.empty))"
  by (rule forwards_only_mirrored) (simp_all add: example_defs connection_tokens_def header_values_def)

lemma example_answers:
  "peer_fails example_registry (example_request p h) 1 q"
  "peer_answer example_registry (example_request p h) 2 q =
     ([], Inr \<lparr>rsp_StatusCode = 200, rsp_Status = ''200 OK'', rsp_Header = [''Content-Length'' \<mapsto> [''3'']],
               rsp_Body = ([''abc''], None)\<rparr>)"
  by (simp_all add: peer_fails_def peer_answer_def example_defs example_transport_def)

theorem mirror_first_success_witness:
  "\<exists>r rw. handleMirror example_registry fresh (example_request ''/v2/x/blobs/sha256:b'' Map.empty)
       (example_reference ''sha256:b'') = (r, rw, Done ()) \<and> Status rw = 200 \<and> hw_body (Unwrap rw) = ''abc''"
proof -
  let ?req = "example_request ''/v2/x/blobs/sha256:b'' Map.empty" and ?ref = "example_reference ''sha256:b''"
  have "rt_Resolve (rg_router example_registry) (rg_routerState example_registry) (mirror_key ?ref)
      (isExternalRequest example_registry ?req) (rg_resolveRetries example_registry) = Done (Inr ([peer_a] @ peer_b # []))"
    by (simp add: example_defs mirror_key_def memory_Resolve_def)
  moreover have "rg_resolveLatestTag example_registry \<or> \<not> hasLatestTag ?ref" by (simp add: example_defs)
  moreover have "\<forall>i \<le> length [peer_a]. req_Done ?req \<noteq> Some i" by (simp add: example_defs)
  moreover have "\<forall>i < length [peer_a]. peer_fails example_registry ?req (i + 1) ([peer_a] ! i)"
    using example_answers(1) by simp
  moreover have "peer_answer example_registry ?req (length [peer_a] + 1) peer_b =
     ([], Inr \<lparr>rsp_StatusCode = 200, rsp_Status = ''200 OK'', rsp_Header = [''Content-Length'' \<mapsto> [''3'']],
               rsp_Body = ([''abc''], None)\<rparr>)"
    using example_answers(2) by (simp add: numeral_2_eq_2)
  moreover have "is_print (upgradeType (req_Header ?req))"
    by (simp add: example_defs is_print_def upgradeType_def header_values_def containsToken_def)
  moreover have "removeHopByHopHeaders [''Content-Length'' \<mapsto> [''3'']] ''Content-Length'' = Some [''3'']"
    by (simp add: removeHopByHopHeaders_apply connection_tokens_def header_values_def hopHeaders_def)
  then have "parse_nat (header_Get (removeHopByHopHeaders [''Content-Length'' \<mapsto> [''3'']]) ''Content-Length'') = Some 3"
    by (simp add: header_Get_def parse_nat_def digit_value_def)
  ultimately show ?thesis using mirror_first_success [of example_registry ?ref ?req "[peer_a]" peer_b "[]"] by fastforce
qed

theorem mirror_exhausted_witness:
  "\<exists>r rw. handleMirror example_registry fresh (example_request ''/v2/x/blobs/sha256:c'' Map.empty)
       (example_reference ''sha256:c'') = (r, rw, Done ()) \<and> Status rw = 404 \<and>
     mirror_count r (example_reference ''sha256:c'') (example_request ''/v2/x/blobs/sha256:c'' Map.empty) ''miss'' = 1"
proof -
  let ?req = "example_request ''/v2/x/blobs/sha256:c'' Map.empty" and ?ref = "example_reference ''sha256:c''"
  have "rt_Resolve (rg_router example_registry) (rg_routerState example_registry) (mirror_key ?ref)
      (isExternalRequest example_registry ?req) (rg_resolveRetries example_registry) = Done (Inr [peer_a])"
    by (simp add: example_defs mirror_key_def memory_Resolve_def)
  moreover have "rg_resolveLatestTag example_registry \<or> \<not> hasLatestTag ?ref" by (simp add: example_defs)
  moreover have "req_Done ?req = None" by (simp add: example_defs)
  moreover have "\<forall>i < length [peer_a]. peer_fails example_registry ?req (i + 1) ([peer_a] ! i)"
    using example_answers(1) by simp
  moreover have "mirror_count example_registry ?ref ?req ''miss'' = 0" by (simp add: mirror_count_def example_defs)
  ultimately show ?thesis using mirror_exhausted [of example_registry ?ref ?req "[peer_a]" False None] by auto
qed

theorem manifest_served_witness:
  "hw_body (Unwrap (handleManifest example_registry fresh (example_request ''/v2/x/manifests/sha256:m'' Map.empty)
     (example_reference ''sha256:m''))) = ''{}''"
proof -
  let ?req = "example_request ''/v2/x/manifests/sha256:m'' Map.empty" and ?ref = "example_reference ''sha256:m''"
  have "(if ref_dgst ?ref = [] then cl_Resolve (rg_ociClient example_registry) (ref_name ?ref) else Inr (ref_dgst ?ref)) =
      Inr ''sha256:m''" and "cl_GetManifest (rg_ociClient example_registry) ''sha256:m'' = Inr (''{}'', ''application/json'')"
    and "req_Method ?req \<noteq> MethodHead"
    by (simp_all add: example_defs MethodGet_def MethodHead_def)
  with manifest_served [of ?ref example_registry "''sha256:m''" "''{}''" "''application/json''" ?req] show ?thesis
    by simp
qed

theorem blob_served_witness:
  "hw_body (Unwrap (snd (handleBlob open_limiter (WithBlobSpeed open_limiter KBps example_registry) fresh
     (example_request ''/v2/x/blobs/sha256:b'' Map.empty) (example_reference ''sha256:b'')))) = ''abc''"
proof -
  let ?r = "WithBlobSpeed open_limiter KBps example_registry"
  let ?req = "example_request ''/v2/x/blobs/sha256:b'' Map.empty" and ?ref = "example_reference ''sha256:b''"
  have "cl_Size (rg_ociClient ?r) (ref_dgst ?ref) = Inr (int (length (concat [''ab'', ''c''])))"
    and "cl_GetBlob (rg_ociClient ?r) (ref_dgst ?ref) = Inr ([''ab'', ''c''], None)"
    and "req_Method ?req \<noteq> MethodHead"
    by (simp_all add: example_defs WithBlobSpeed_def MethodGet_def MethodHead_def)
  moreover have "rg_throttler ?r \<noteq> None \<longrightarrow>
      (\<forall>l now n. 0 \<le> n \<and> n \<le> burstLimit \<longrightarrow> fst (lim_ReserveN open_limiter l now n) \<noteq> None) \<and>
      (\<forall>b \<in> set [''ab'', ''c'']. int (length b) \<le> burstLimit)"
    by (simp add: open_limiter_def burstLimit_def)
  ultimately show ?thesis using blob_served [of ?r ?ref "[''ab'', ''c'']" open_limiter ?req] by auto
qed

text \<open>
  A client that names the mirrored header in \<open>Connection\<close> makes the registry forward the request
  without it.
\<close>

lemma mirrored_header_stripped:
  "header_Get (out_Header (out_request ''http'' ''10.0.0.2:5000''
     (mirrored (example_request ''/v2/x/blobs/sha256:b'' [''Connection'' \<mapsto> [''x-spegel-mirrored'']])))) MirroredHeaderKey = []"
  by code_simp

end
