(* ===== verification/Tracking.thy ===== *)
theory Tracking
  imports Oci Router
begin

text \<open>
  \<open>pkg/state/state.go\<close> and the gauges of \<open>pkg/metrics/metrics.go\<close> it maintains: one image
  event (\<open>update\<close>), the full synchronisation (\<open>all\<close>) and the tracking loop (\<open>Track\<close>).
\<close>

section \<open>The gauges\<close>

text \<open>Each gauge vector maps a registry to its value; a label that was never used counts as 0.\<close>

record gauges =
  AdvertisedImages :: "string \<Rightarrow> int"
  AdvertisedImageTags :: "string \<Rightarrow> int"
  AdvertisedImageDigests :: "string \<Rightarrow> int"
  AdvertisedKeys :: "string \<Rightarrow> int"

definition gauge_add :: "(string \<Rightarrow> int) \<Rightarrow> string \<Rightarrow> int \<Rightarrow> (string \<Rightarrow> int)" where
  "gauge_add g label v = g(label := g label + v)"

definition gauges_Reset :: gauges where
  "gauges_Reset =
     \<lparr>AdvertisedImages = (\<lambda>_. 0), AdvertisedImageTags = (\<lambda>_. 0),
      AdvertisedImageDigests = (\<lambda>_. 0), AdvertisedKeys = (\<lambda>_. 0)\<rparr>"

text \<open>One more image of a registry, counted as a tag or as a digest.\<close>

definition count_tag_or_digest :: "gauges \<Rightarrow> Image \<Rightarrow> gauges" where
  "count_tag_or_digest g img =
     (if img_Tag img = []
      then g\<lparr>AdvertisedImageDigests := gauge_add (AdvertisedImageDigests g) (img_Registry img) 1\<rparr>
      else g\<lparr>AdvertisedImageTags := gauge_add (AdvertisedImageTags g) (img_Registry img) 1\<rparr>)"

section \<open>One event\<close>

text \<open>The tag key of an image, unless it is a latest tag that is not resolved.\<close>

definition tag_keys :: "Image \<Rightarrow> bool \<Rightarrow> string list" where
  "tag_keys img resolveLatestTag =
     (if \<not> (\<not> resolveLatestTag \<and> IsLatestTag img)
      then (let (tagRef, ok) = TagName img in if ok then [tagRef] else [])
      else [])"

definition update ::
  "Client \<Rightarrow> 'r Router \<Rightarrow> gauges \<times> 'r \<Rightarrow> ImageEvent \<Rightarrow> bool \<Rightarrow> bool \<Rightarrow> int result \<times> gauges \<times> 'r" where
  "update ociClient router st event skipDigests resolveLatestTag =
     (let (g, r) = st;
          img = ev_Image event;
          keys = tag_keys img resolveLatestTag in
      if ev_Type event = DeleteEvent then
        (Inr 0, g\<lparr>AdvertisedImages := gauge_add (AdvertisedImages g) (img_Registry img) (-1)\<rparr>, r)
      else
        (case (if skipDigests then Inr keys
               else bind_result (cl_AllIdentifiers ociClient img) (\<lambda>dgsts. Inr (keys @ dgsts))) of
           Inl err \<Rightarrow> (Inl (Wrap (''could not get digests for image '' @ image_String img @ '': '') err), g, r)
         | Inr keys \<Rightarrow>
             (case rt_Advertise router r keys of
                (Some err, r') \<Rightarrow>
                  (Inl (Wrap (''could not advertise image '' @ image_String img @ '': '') err), g, r')
              | (None, r') \<Rightarrow>
                  (Inr (int (length keys)),
                   (if ev_Type event = CreateEvent
                    then count_tag_or_digest
                           (g\<lparr>AdvertisedImages := gauge_add (AdvertisedImages g) (img_Registry img) 1\<rparr>) img
                    else g),
                   r'))))"

section \<open>The full synchronisation\<close>

text \<open>
  The loop over the listed images: \<open>targets\<close> holds the digests whose identifiers have been
  advertised in this run, \<open>errs\<close> the errors so far.
\<close>

fun all_loop ::
  "Client \<Rightarrow> 'r Router \<Rightarrow> bool \<Rightarrow> Image list \<Rightarrow> digest set \<Rightarrow> error list \<Rightarrow> gauges \<times> 'r \<Rightarrow> error list \<times> gauges \<times> 'r" where
  "all_loop ociClient router resolveLatestTag [] targets errs st = (errs, st)"
| "all_loop ociClient router resolveLatestTag (img # imgs) targets errs st =
     (let skipDigests = (img_Digest img \<in> targets);
          event = \<lparr>ev_Image = img, ev_Type = UpdateEvent\<rparr> in
      (case update ociClient router st event skipDigests resolveLatestTag of
         (Inl err, st') \<Rightarrow> all_loop ociClient router resolveLatestTag imgs targets (errs @ [err]) st'
       | (Inr keyTotal, (g, r)) \<Rightarrow>
           all_loop ociClient router resolveLatestTag imgs (insert (img_Digest img) targets) errs
             (count_tag_or_digest
                (g\<lparr>AdvertisedKeys := gauge_add (AdvertisedKeys g) (img_Registry img) keyTotal,
                   AdvertisedImages := gauge_add (AdvertisedImages g) (img_Registry img) 1\<rparr>) img,
              r)))"

definition all :: "Client \<Rightarrow> 'r Router \<Rightarrow> bool \<Rightarrow> gauges \<times> 'r \<Rightarrow> error option \<times> gauges \<times> 'r" where
  "all ociClient router resolveLatestTag st =
     (case cl_ListImages ociClient of
        Inl err \<Rightarrow> (Some err, st)
      | Inr imgs \<Rightarrow>
          (let (errs, st') = all_loop ociClient router resolveLatestTag imgs {} [] (gauges_Reset, snd st) in
           (errors_Join errs, st')))"

section \<open>The tracking loop\<close>

text \<open>
  What the select of \<open>Track\<close> picks next: the context is done, the ticker fires (the first time
  at once), an event or an error arrives, or one of their channels is closed (\<^const>\<open>None\<close>).
\<close>

datatype track_event =
    CtxDone
  | Tick
  | ImageEv "ImageEvent option"
  | ErrorEv "error option"

text \<open>One iteration: the state after it, and the result of \<open>Track\<close> when it returns.\<close>

fun track_step ::
  "Client \<Rightarrow> 'r Router \<Rightarrow> bool \<Rightarrow> gauges \<times> 'r \<Rightarrow> track_event \<Rightarrow> error option option \<times> gauges \<times> 'r" where
  "track_step ociClient router resolveLatestTag st CtxDone = (Some None, st)"
| "track_step ociClient router resolveLatestTag st Tick =
     (None, snd (all ociClient router resolveLatestTag st))"
| "track_step ociClient router resolveLatestTag st (ImageEv None) =
     (Some (Some (Err ''image event channel closed'')), st)"
| "track_step ociClient router resolveLatestTag st (ImageEv (Some event)) =
     (None, snd (update ociClient router st event False resolveLatestTag))"
| "track_step ociClient router resolveLatestTag st (ErrorEv None) =
     (Some (Some (Err ''image error channel closed'')), st)"
| "track_step ociClient router resolveLatestTag st (ErrorEv (Some err)) = (None, st)"

text \<open>
  The loop over the choices of the select, each with what the client sees at that time; it is
  still running (\<^const>\<open>None\<close>) when they are used up without a return.
\<close>

fun track_loop ::
  "'r Router \<Rightarrow> bool \<Rightarrow> (Client \<times> track_event) list \<Rightarrow> gauges \<times> 'r \<Rightarrow> error option option \<times> gauges \<times> 'r" where
  "track_loop router resolveLatestTag [] st = (None, st)"
| "track_loop router resolveLatestTag ((ociClient, ev) # evs) st =
     (case track_step ociClient router resolveLatestTag st ev of
        (Some res, st') \<Rightarrow> (Some res, st')
      | (None, st') \<Rightarrow> track_loop router resolveLatestTag evs st')"

definition Track ::
  "Client \<Rightarrow> 'r Router \<Rightarrow> bool \<Rightarrow> (Client \<times> track_event) list \<Rightarrow> gauges \<times> 'r \<Rightarrow> error option option \<times> gauges \<times> 'r" where
  "Track ociClient router resolveLatestTag evs st =
     (case cl_Subscribe ociClient of
        Some err \<Rightarrow> (Some (Some err), st)
      | None \<Rightarrow> track_loop router resolveLatestTag evs st)"

section \<open>What an update does\<close>

text \<open>The keys of an image event: its tag key and, unless they are skipped, its identifiers.\<close>

definition event_keys :: "Client \<Rightarrow> Image \<Rightarrow> bool \<Rightarrow> bool \<Rightarrow> string list result" where
  "event_keys ociClient img skipDigests resolveLatestTag =
     (if skipDigests then Inr (tag_keys img resolveLatestTag)
      else bind_result (cl_AllIdentifiers ociClient img) (\<lambda>dgsts. Inr (tag_keys img resolveLatestTag @ dgsts)))"

lemma update_delete:
  "ev_Type event = DeleteEvent \<Longrightarrow>
     update ociClient R (g, r) event skip res =
       (Inr 0, g\<lparr>AdvertisedImages := gauge_add (AdvertisedImages g) (img_Registry (ev_Image event)) (-1)\<rparr>, r)"
  by (simp add: update_def Let_def)

lemma update_okE:
  assumes "update ociClient R (g, r) event skip res = (Inr n, g', r')" and "ev_Type event \<noteq> DeleteEvent"
  obtains keys where "event_keys ociClient (ev_Image event) skip res = Inr keys" "n = int (length keys)"
    "rt_Advertise R r keys = (None, r')"
    "g' = (if ev_Type event = CreateEvent
           then count_tag_or_digest
                  (g\<lparr>AdvertisedImages := gauge_add (AdvertisedImages g) (img_Registry (ev_Image event)) 1\<rparr>)
                  (ev_Image event)
           else g)"
  using assms
  by (auto simp: update_def event_keys_def Let_def split: sum.splits prod.splits option.splits if_splits)

lemma update_errE:
  assumes "update ociClient R (g, r) event skip res = (Inl e, g', r')"
  obtains (keys) e0 where "event_keys ociClient (ev_Image event) skip res = Inl e0" "g' = g" "r' = r"
    "ev_Type event \<noteq> DeleteEvent"
  | (advertise) keys e0 where "event_keys ociClient (ev_Image event) skip res = Inr keys"
      "rt_Advertise R r keys = (Some e0, r')" "g' = g" "ev_Type event \<noteq> DeleteEvent"
  using assms
  by (auto simp: update_def event_keys_def Let_def split: sum.splits prod.splits option.splits if_splits)

lemma event_keys_tag: "event_keys cl img skip res = Inr keys \<Longrightarrow> set (tag_keys img res) \<subseteq> set keys"
  by (cases "cl_AllIdentifiers cl img") (auto simp: event_keys_def bind_result_def split: if_splits)

context router_contract
begin

lemma update_frame:
  assumes "update cl R (g, r) event skip res = (x, g', r')"
  shows "self r' = self r" and "providers r k \<subseteq> providers r' k"
    and "providers r' k \<subseteq> insert (self r) (providers r k)"
proof -
  consider "r' = r" | keys e where "rt_Advertise R r keys = (e, r')"
  proof (cases "ev_Type event = DeleteEvent")
    case True
    with assms that show ?thesis by (simp add: update_delete)
  next
    case False
    with assms that show ?thesis
      by (cases x) (auto elim: update_okE update_errE)
  qed
  note cases = this
  from cases show "self r' = self r" by cases (auto dest: advertise_self)
  from cases show "providers r k \<subseteq> providers r' k" using advertise_mono by cases auto
  from cases show "providers r' k \<subseteq> insert (self r) (providers r k)" using advertise_only by cases blast+
qed

lemma update_only:
  assumes "update cl R (g, r) event skip res = (x, g', r')" and "ap \<in> providers r' k" and "ap \<notin> providers r k"
  shows "\<exists>keys. event_keys cl (ev_Image event) skip res = Inr keys \<and> k \<in> set keys"
proof (cases "ev_Type event = DeleteEvent")
  case True
  with assms show ?thesis by (simp add: update_delete)
next
  case False
  with assms show ?thesis
    by (cases x) (auto elim!: update_okE update_errE dest: advertise_only)
qed

lemma update_ok_keys:
  assumes "update cl R (g, r) event skip res = (Inr n, g', r')" and "ev_Type event \<noteq> DeleteEvent"
  obtains keys where "event_keys cl (ev_Image event) skip res = Inr keys" "n = int (length keys)"
    "\<And>k. providers r' k = (if k \<in> set keys then insert (self r) (providers r k) else providers r k)"
  using assms by (elim update_okE) (auto simp: advertise_ok)

end

text \<open>
  C16. A successful update of an image that still exists makes this node a provider of exactly
  the keys of the image and changes no other provider: its tag name, unless it has none or it is a
  latest tag that must not be resolved, and all its identifiers, unless they are skipped. The
  number returned is the number of those keys. This holds for every router that keeps its
  contract.
\<close>

theorem update_advertises:
  assumes "router_contract R providers self"
    and "update ociClient R (g, r) event skipDigests resolveLatestTag = (Inr n, g', r')"
    and "ev_Type event \<noteq> DeleteEvent"
  shows "\<exists>dgsts. (if skipDigests then dgsts = [] else cl_AllIdentifiers ociClient (ev_Image event) = Inr dgsts) \<and>
    (let keys = (if IsLatestTag (ev_Image event) \<and> \<not> resolveLatestTag \<or> \<not> snd (TagName (ev_Image event))
                 then [] else [fst (TagName (ev_Image event))]) @ dgsts in
     n = int (length keys) \<and> self r' = self r \<and>
     (\<forall>k. providers r' k = (if k \<in> set keys then insert (self r) (providers r k) else providers r k)))"
proof -
  note frame = router_contract.update_frame(1) [OF assms(1,2)]
  from router_contract.update_ok_keys [OF assms] obtain keys
    where keys: "event_keys ociClient (ev_Image event) skipDigests resolveLatestTag = Inr keys" "n = int (length keys)"
      "\<And>k. providers r' k = (if k \<in> set keys then insert (self r) (providers r k) else providers r k)"
    by blast
  have tag: "tag_keys (ev_Image event) resolveLatestTag =
      (if IsLatestTag (ev_Image event) \<and> \<not> resolveLatestTag \<or> \<not> snd (TagName (ev_Image event))
       then [] else [fst (TagName (ev_Image event))])"
    by (auto simp: tag_keys_def split: prod.splits)
  show ?thesis
  proof (cases skipDigests)
    case True
    with keys frame tag show ?thesis by (intro exI [of _ "[]"]) (simp add: event_keys_def Let_def)
  next
    case False
    with keys(1) obtain dgsts where "cl_AllIdentifiers ociClient (ev_Image event) = Inr dgsts"
      "keys = tag_keys (ev_Image event) resolveLatestTag @ dgsts"
      by (cases "cl_AllIdentifiers ociClient (ev_Image event)") (auto simp: event_keys_def bind_result_def)
    with False keys frame tag show ?thesis by (intro exI [of _ dgsts]) (simp add: Let_def)
  qed
qed

text \<open>An image that carries a tag, this node and the mock client, for the concrete runs.\<close>

definition alpine :: Image where
  "alpine = \<lparr>img_Name = ''alpine'', img_Registry = ''docker.io'', img_Repository = ''library/alpine'',
             img_Tag = ''3'', img_Digest = ''sha256:a1''\<rparr>"

definition node :: MemoryRouter where
  "node = NewMemoryRouter Map.empty \<lparr>ap_Addr = ''10.0.0.1'', ap_Port = 5000\<rparr>"

lemmas tracking_run =
  alpine_def node_def NewMemoryRouter_def mock_client_def NewMockClient_def update_def tag_keys_def
  IsLatestTag_def TagName_def memory_Add_def UpdateEvent_def DeleteEvent_def CreateEvent_def

lemma update_alpine:
  "update (mock_client (NewMockClient [alpine])) memory_router (gauges_Reset, node)
     \<lparr>ev_Image = alpine, ev_Type = UpdateEvent\<rparr> skip True =
   (Inr (if skip then 1 else 2), gauges_Reset,
    snd (memory_Advertise node (''docker.io/library/alpine:3'' # (if skip then [] else [''sha256:a1'']))))"
  by (simp add: tracking_run)

theorem update_advertises_witness:
  "mr_self node \<in> set (memory_providers (snd (snd
      (update (mock_client (NewMockClient [alpine])) memory_router (gauges_Reset, node)
        \<lparr>ev_Image = alpine, ev_Type = UpdateEvent\<rparr> False True))) ''docker.io/library/alpine:3'')"
proof -
  have type: "ev_Type \<lparr>ev_Image = alpine, ev_Type = UpdateEvent\<rparr> \<noteq> DeleteEvent"
    by (simp add: tracking_run)
  from update_advertises [OF memory.router_contract_axioms update_alpine [of False] type]
  show ?thesis unfolding update_alpine
    by (auto simp: Let_def alpine_def IsLatestTag_def TagName_def)
qed

section \<open>The run of a full synchronisation\<close>

text \<open>
  The loop of \<open>all\<close> as a relation: which images of the list were synchronised, and with what
  errors the others failed.
\<close>

inductive sync_run ::
  "Client \<Rightarrow> 'r Router \<Rightarrow> bool \<Rightarrow> Image list \<Rightarrow> digest set \<Rightarrow> gauges \<times> 'r \<Rightarrow> error list \<Rightarrow> Image list \<Rightarrow> gauges \<times> 'r \<Rightarrow> bool"
  for cl R res where
  sync_done: "sync_run cl R res [] T st [] [] st"
| sync_fail:
    "\<lbrakk>update cl R st \<lparr>ev_Image = img, ev_Type = UpdateEvent\<rparr> (img_Digest img \<in> T) res = (Inl e, st');
      sync_run cl R res imgs T st' errs synced st''\<rbrakk> \<Longrightarrow>
     sync_run cl R res (img # imgs) T st (e # errs) synced st''"
| sync_ok:
    "\<lbrakk>update cl R st \<lparr>ev_Image = img, ev_Type = UpdateEvent\<rparr> (img_Digest img \<in> T) res = (Inr n, g, r);
      sync_run cl R res imgs (insert (img_Digest img) T)
        (count_tag_or_digest
           (g\<lparr>AdvertisedKeys := gauge_add (AdvertisedKeys g) (img_Registry img) n,
              AdvertisedImages := gauge_add (AdvertisedImages g) (img_Registry img) 1\<rparr>) img, r)
        errs synced st''\<rbrakk> \<Longrightarrow>
     sync_run cl R res (img # imgs) T st errs (img # synced) st''"

lemma all_loop_run:
  "all_loop cl R res imgs T errs st = (errs', st') \<Longrightarrow>
     \<exists>new synced. errs' = errs @ new \<and> sync_run cl R res imgs T st new synced st'"
proof (induction imgs arbitrary: T errs st)
  case Nil
  then show ?case by (auto intro: sync_done)
next
  case (Cons img imgs)
  obtain x g r where upd:
    "update cl R st \<lparr>ev_Image = img, ev_Type = UpdateEvent\<rparr> (img_Digest img \<in> T) res = (x, g, r)"
    by (cases "update cl R st \<lparr>ev_Image = img, ev_Type = UpdateEvent\<rparr> (img_Digest img \<in> T) res") auto
  show ?case
  proof (cases x)
    case (Inl e)
    with upd Cons.prems have "all_loop cl R res imgs T (errs @ [e]) (g, r) = (errs', st')"
      by (simp add: Let_def)
    from Cons.IH [OF this] show ?thesis using sync_fail [OF upd [unfolded Inl]] by fastforce
  next
    case (Inr n)
    let ?st = "(count_tag_or_digest
           (g\<lparr>AdvertisedKeys := gauge_add (AdvertisedKeys g) (img_Registry img) n,
              AdvertisedImages := gauge_add (AdvertisedImages g) (img_Registry img) 1\<rparr>) img, r)"
    from Inr upd Cons.prems have "all_loop cl R res imgs (insert (img_Digest img) T) errs ?st = (errs', st')"
      by (simp add: Let_def)
    from Cons.IH [OF this] obtain new synced where "errs' = errs @ new"
      "sync_run cl R res imgs (insert (img_Digest img) T) ?st new synced st'" by blast
    with sync_ok [OF upd [unfolded Inr]] show ?thesis by blast
  qed
qed

lemma all_runE:
  assumes "cl_ListImages cl = Inr imgs" and "all cl R res (g, r) = (err, g', r')"
  obtains errs synced where "err = errors_Join errs"
    "sync_run cl R res imgs {} (gauges_Reset, r) errs synced (g', r')"
  using assms all_loop_run by (fastforce simp: all_def split: prod.splits)

lemma sync_run_subseq:
  "sync_run cl R res imgs T st errs synced st' \<Longrightarrow>
     subseq synced imgs \<and> length errs + length synced = length imgs"
  by (induction rule: sync_run.induct) auto

text \<open>What a synchronisation adds to the gauges of a registry.\<close>

definition of_registry :: "string \<Rightarrow> (Image \<Rightarrow> bool) \<Rightarrow> Image list \<Rightarrow> int" where
  "of_registry reg P imgs = int (length (filter (\<lambda>img. img_Registry img = reg \<and> P img) imgs))"

lemma of_registry_simps [simp]:
  "of_registry reg P [] = 0"
  "of_registry reg P (img # imgs) = (if img_Registry img = reg \<and> P img then 1 else 0) + of_registry reg P imgs"
  by (simp_all add: of_registry_def)

lemma of_registry_split:
  "of_registry reg (\<lambda>_. True) imgs =
     of_registry reg (\<lambda>i. img_Tag i \<noteq> []) imgs + of_registry reg (\<lambda>i. img_Tag i = []) imgs"
  by (induction imgs) auto

lemma gauge_add_apply [simp]: "gauge_add g l v reg = (if reg = l then g reg + v else g reg)"
  by (simp add: gauge_add_def)

lemma count_tag_or_digest_simps [simp]:
  "AdvertisedImages (count_tag_or_digest g img) = AdvertisedImages g"
  "AdvertisedKeys (count_tag_or_digest g img) = AdvertisedKeys g"
  "AdvertisedImageTags (count_tag_or_digest g img) reg =
     AdvertisedImageTags g reg + (if img_Registry img = reg \<and> img_Tag img \<noteq> [] then 1 else 0)"
  "AdvertisedImageDigests (count_tag_or_digest g img) reg =
     AdvertisedImageDigests g reg + (if img_Registry img = reg \<and> img_Tag img = [] then 1 else 0)"
  by (auto simp: count_tag_or_digest_def)

lemma update_event_gauges:
  "update cl R (g, r) \<lparr>ev_Image = img, ev_Type = UpdateEvent\<rparr> skip res = (x, g', r') \<Longrightarrow> g' = g"
  by (cases x) (auto elim!: update_okE update_errE simp: UpdateEvent_def CreateEvent_def DeleteEvent_def)

lemma sync_run_gauges:
  "sync_run cl R res imgs T st errs synced st' \<Longrightarrow>
     AdvertisedImages (fst st') reg = AdvertisedImages (fst st) reg + of_registry reg (\<lambda>_. True) synced \<and>
     AdvertisedImageTags (fst st') reg = AdvertisedImageTags (fst st) reg + of_registry reg (\<lambda>i. img_Tag i \<noteq> []) synced \<and>
     AdvertisedImageDigests (fst st') reg = AdvertisedImageDigests (fst st) reg + of_registry reg (\<lambda>i. img_Tag i = []) synced"
proof (induction rule: sync_run.induct)
  case (sync_fail st img T e st' imgs errs synced st'')
  then show ?case by (cases st; cases st') (auto dest: update_event_gauges)
next
  case (sync_ok st img T n g r imgs errs synced st'')
  then show ?case by (cases st) (auto dest: update_event_gauges)
qed simp

lemma update_not_delete: "ev_Type \<lparr>ev_Image = img, ev_Type = UpdateEvent\<rparr> \<noteq> DeleteEvent"
  by (simp add: UpdateEvent_def DeleteEvent_def)

lemma event_keys_only:
  "event_keys cl img skip res = Inr keys \<Longrightarrow> k \<in> set keys \<Longrightarrow>
     k \<in> set (tag_keys img res) \<or> (\<exists>ids. cl_AllIdentifiers cl img = Inr ids \<and> k \<in> set ids)"
  by (auto simp: event_keys_def go_result split: if_splits)

lemma event_keys_identifiers:
  "event_keys cl img False res = Inr keys \<Longrightarrow> \<exists>ids. cl_AllIdentifiers cl img = Inr ids \<and> set ids \<subseteq> set keys"
  by (auto simp: event_keys_def go_result)

context router_contract
begin

lemma sync_run_frame:
  "sync_run cl R res imgs T st errs synced st' \<Longrightarrow>
     self (snd st') = self (snd st) \<and> providers (snd st) k \<subseteq> providers (snd st') k \<and>
     providers (snd st') k \<subseteq> insert (self (snd st)) (providers (snd st) k)"
proof (induction rule: sync_run.induct)
  case (sync_fail st img T e st' imgs errs synced st'')
  obtain g r g' r' where "st = (g, r)" "st' = (g', r')" by (cases st; cases st')
  with update_frame [of cl g r _ _ res _ g' r'] sync_fail show ?case by fastforce
next
  case (sync_ok st img T n g' r' imgs errs synced st'')
  obtain g r where "st = (g, r)" by (cases st)
  with update_frame [of cl g r _ _ res _ g' r'] sync_ok show ?case by fastforce
qed auto

text \<open>A synchronised image has its tag key provided, and its identifiers unless they were skipped.\<close>

lemma sync_run_provides:
  "sync_run cl R res imgs T st errs synced st' \<Longrightarrow> img \<in> set synced \<Longrightarrow>
     (\<forall>k \<in> set (tag_keys img res). self (snd st) \<in> providers (snd st') k) \<and>
     (img_Digest img \<in> T \<or>
      (\<exists>img' \<in> set synced. img_Digest img' = img_Digest img \<and>
         (\<exists>ids. cl_AllIdentifiers cl img' = Inr ids \<and> (\<forall>k \<in> set ids. self (snd st) \<in> providers (snd st') k))))"
proof (induction rule: sync_run.induct)
  case (sync_fail st i T e st' imgs errs synced st'')
  obtain g r g' r' where "st = (g, r)" "st' = (g', r')" by (cases st; cases st')
  with update_frame(1) [of cl g r _ _ res _ g' r'] sync_fail show ?case by fastforce
next
  case (sync_ok st i T n g' r' imgs errs synced st'')
  obtain g r where st: "st = (g, r)" by (cases st)
  note upd = sync_ok.hyps(1) [unfolded st]
  have self: "self r' = self r" by (rule update_frame(1) [OF upd])
  have mono: "providers r' k \<subseteq> providers (snd st'') k" for k
    using sync_run_frame [OF sync_ok.hyps(2), of k] by simp
  from update_ok_keys [OF upd] obtain keys where
    keys: "event_keys cl i (img_Digest i \<in> T) res = Inr keys" and
    prov: "\<And>k. providers r' k = (if k \<in> set keys then insert (self r) (providers r k) else providers r k)"
    by (metis ImageEvent.select_convs update_not_delete)
  have head: "\<forall>k \<in> set keys. self (snd st) \<in> providers (snd st'') k"
  proof
    fix k assume "k \<in> set keys"
    with prov [of k] have "self r \<in> providers r' k" by simp
    with mono [of k] st show "self (snd st) \<in> providers (snd st'') k" by auto
  qed
  have ids: "\<exists>ids. cl_AllIdentifiers cl i = Inr ids \<and> (\<forall>k \<in> set ids. self (snd st) \<in> providers (snd st'') k)"
    if "img_Digest i \<notin> T" using that head event_keys_identifiers [of cl i res keys] keys by auto
  show ?case
  proof (cases "img = i")
    case True
    with head event_keys_tag [OF keys] ids show ?thesis by auto
  next
    case False
    with sync_ok.prems sync_ok.IH self st
    have tl: "(\<forall>k \<in> set (tag_keys img res). self (snd st) \<in> providers (snd st'') k)"
      "img_Digest img \<in> insert (img_Digest i) T \<or> (\<exists>img' \<in> set synced. img_Digest img' = img_Digest img \<and>
         (\<exists>ids. cl_AllIdentifiers cl img' = Inr ids \<and> (\<forall>k \<in> set ids. self (snd st) \<in> providers (snd st'') k)))"
      by auto
    show ?thesis
    proof (cases "img_Digest img = img_Digest i \<and> img_Digest i \<notin> T")
      case True
      with ids tl(1) show ?thesis by auto
    next
      case False
      with tl show ?thesis by auto
    qed
  qed
qed simp

lemma sync_run_only:
  "sync_run cl R res imgs T st errs synced st' \<Longrightarrow> ap \<in> providers (snd st') k \<Longrightarrow> ap \<notin> providers (snd st) k \<Longrightarrow>
     \<exists>img \<in> set imgs. k \<in> set (tag_keys img res) \<or> (\<exists>ids. cl_AllIdentifiers cl img = Inr ids \<and> k \<in> set ids)"
proof (induction rule: sync_run.induct)
  case (sync_fail st img T e st' imgs errs synced st'')
  obtain g r g' r' where st: "st = (g, r)" "st' = (g', r')" by (cases st; cases st')
  note new = update_only [OF sync_fail.hyps(1) [unfolded st], of ap k]
  show ?case
  proof (cases "ap \<in> providers r' k")
    case True
    with new sync_fail.prems st show ?thesis by (auto dest: event_keys_only)
  next
    case False
    with sync_fail.IH sync_fail.prems st show ?thesis by auto
  qed
next
  case (sync_ok st img T n g' r' imgs errs synced st'')
  obtain g r where st: "st = (g, r)" by (cases st)
  note new = update_only [OF sync_ok.hyps(1) [unfolded st], of ap k]
  show ?case
  proof (cases "ap \<in> providers r' k")
    case True
    with new sync_ok.prems st show ?thesis by (auto dest: event_keys_only)
  next
    case False
    with sync_ok.IH sync_ok.prems st show ?thesis by auto
  qed
qed simp

end



section \<open>The gauges\<close>

text \<open>
  After a full synchronisation whose images could all be advertised, the gauges count for
  every registry its listed images, those with a tag and those without; and with or without
  errors the images counted are those counted as tags and those counted as digests.
\<close>

theorem all_gauges:
  assumes "cl_ListImages ociClient = Inr imgs"
    and "all ociClient R resolveLatestTag (g, r) = (err, g', r')"
  shows "AdvertisedImages g' reg = AdvertisedImageTags g' reg + AdvertisedImageDigests g' reg \<and>
    (err = None \<longrightarrow>
       AdvertisedImages g' reg = int (length (filter (\<lambda>img. img_Registry img = reg) imgs)) \<and>
       AdvertisedImageTags g' reg = int (length (filter (\<lambda>img. img_Registry img = reg \<and> img_Tag img \<noteq> []) imgs)))"
proof -
  from assms obtain errs synced where err: "err = errors_Join errs" and
    run: "sync_run ociClient R resolveLatestTag imgs {} (gauges_Reset, r) errs synced (g', r')"
    by (rule all_runE)
  have "synced = imgs" if "err = None"
    using that err sync_run_subseq [OF run] by (auto simp: errors_Join_def subseq_same_length split: if_splits)
  then show ?thesis
    using sync_run_gauges [OF run, of reg] of_registry_split [of reg synced]
    by (auto simp: gauges_Reset_def of_registry_def)
qed

theorem all_gauges_witness:
  "AdvertisedImageTags (fst (snd (all (mock_client (NewMockClient [alpine])) memory_router True (gauges_Reset, node))))
     ''docker.io'' = 1"
proof -
  let ?cl = "mock_client (NewMockClient [alpine])"
  have list: "cl_ListImages ?cl = Inr [alpine]" by (simp add: mock_client_def NewMockClient_def)
  obtain g r where run: "all ?cl memory_router True (gauges_Reset, node) = (None, g, r)"
    using update_alpine [of False] list by (simp add: all_def errors_Join_def Let_def)
  from all_gauges [OF list run, of "''docker.io''"] run show ?thesis by (simp add: alpine_def)
qed

section \<open>The tracking loop\<close>

text \<open>The result a choice of the select makes the loop return with, if it does.\<close>

fun track_stop :: "track_event \<Rightarrow> error option option" where
  "track_stop CtxDone = Some None"
| "track_stop (ImageEv None) = Some (Some (Err ''image event channel closed''))"
| "track_stop (ErrorEv None) = Some (Some (Err ''image error channel closed''))"
| "track_stop ev = None"

lemma track_step_result: "fst (track_step cl R res st ev) = track_stop ev"
  by (cases "(cl, R, res, st, ev)" rule: track_step.cases) auto

text \<open>
  The delete events of a registry that the loop has handled since the images were last listed,
  starting from \<open>n\<close> of them.
\<close>

fun pending_deletes :: "string \<Rightarrow> (Client \<times> track_event) list \<Rightarrow> int \<Rightarrow> int" where
  "pending_deletes reg [] n = n"
| "pending_deletes reg ((ociClient, ev) # evs) n =
     (if track_stop ev \<noteq> None then n
      else pending_deletes reg evs
             (case ev of
                Tick \<Rightarrow> if is_ok (cl_ListImages ociClient) then 0 else n
              | ImageEv (Some e) \<Rightarrow>
                  if ev_Type e = DeleteEvent \<and> img_Registry (ev_Image e) = reg then n + 1 else n
              | _ \<Rightarrow> n))"

definition balance :: "string \<Rightarrow> gauges \<Rightarrow> int" where
  "balance reg g = AdvertisedImageTags g reg + AdvertisedImageDigests g reg - AdvertisedImages g reg"

lemma update_balance:
  assumes "update cl R (g, r) event skip res = (x, g', r')"
  shows "balance reg g' =
    balance reg g + (if ev_Type event = DeleteEvent \<and> img_Registry (ev_Image event) = reg then 1 else 0)"
proof (cases "ev_Type event = DeleteEvent")
  case True
  with assms show ?thesis by (auto simp: update_delete balance_def)
next
  case False
  with assms show ?thesis
    by (cases x) (auto elim!: update_okE update_errE simp: balance_def)
qed

lemma all_balance:
  assumes "all cl R res (g, r) = (err, g', r')"
  shows "balance reg g' = (if is_ok (cl_ListImages cl) then 0 else balance reg g)"
proof (cases "cl_ListImages cl")
  case (Inl e)
  with assms show ?thesis by (simp add: all_def)
next
  case (Inr imgs)
  from Inr assms obtain errs synced where
    "sync_run cl R res imgs {} (gauges_Reset, r) errs synced (g', r')" by (rule all_runE)
  from sync_run_gauges [OF this, of reg] of_registry_split [of reg synced] Inr show ?thesis
    by (simp add: balance_def gauges_Reset_def)
qed

lemma track_step_balance:
  assumes "track_step cl R res (g, r) ev = (None, g', r')"
  shows "balance reg g' = pending_deletes reg [(cl, ev)] (balance reg g)"
proof (cases ev)
  case Tick
  with assms show ?thesis
    using all_balance [of cl R res g r "fst (all cl R res (g, r))" g' r' reg]
    by (cases "all cl R res (g, r)") auto
next
  case (ImageEv e)
  with assms obtain event where e: "e = Some event" by (cases e) auto
  with ImageEv assms show ?thesis
    using update_balance [of cl R g r event False res "fst (update cl R (g, r) event False res)" g' r' reg]
    by (cases "update cl R (g, r) event False res") auto
next
  case (ErrorEv e)
  with assms show ?thesis by (cases e) auto
qed (use assms in auto)

lemma track_loop_balance:
  "track_loop R res evs (g, r) = (x, g', r') \<Longrightarrow> balance reg g' = pending_deletes reg evs (balance reg g)"
proof (induction evs arbitrary: g r)
  case (Cons cev evs)
  obtain cl ev where cev: "cev = (cl, ev)" by (cases cev)
  obtain y g1 r1 where step: "track_step cl R res (g, r) ev = (y, g1, r1)"
    by (cases "track_step cl R res (g, r) ev") auto
  with track_step_result [of cl R res "(g, r)" ev] have y: "y = track_stop ev" by simp
  show ?case
  proof (cases y)
    case None
    with step track_step_balance [of cl R res g r ev g1 r1 reg] y Cons cev show ?thesis by auto
  next
    case (Some v)
    have "(g1, r1) = (g, r)" using step y Some by (cases "(cl, R, res, (g, r), ev)" rule: track_step.cases) auto
    with step y Some Cons.prems cev show ?thesis by auto
  qed
qed simp

text \<open>
  C37. The image gauge of a registry agrees with the tag and digest gauges up to the delete
  events: whatever the loop handles, from consistent gauges, it is below their sum by exactly the
  number of delete events for the registry since the images were last listed. A delete event is
  only taken off the image gauge, so the gauges disagree until the next full synchronisation.
\<close>

theorem track_gauges:
  assumes "Track ociClient R resolveLatestTag evs (g, r) = (res, g', r')"
    and "cl_Subscribe ociClient = None"
    and "AdvertisedImages g reg = AdvertisedImageTags g reg + AdvertisedImageDigests g reg"
  shows "AdvertisedImages g' reg =
    AdvertisedImageTags g' reg + AdvertisedImageDigests g' reg - pending_deletes reg evs 0"
proof -
  from assms(1,2) have "track_loop R resolveLatestTag evs (g, r) = (res, g', r')" by (simp add: Track_def)
  from track_loop_balance [OF this, of reg] assms(3) show ?thesis by (simp add: balance_def)
qed

theorem track_gauges_witness:
  "AdvertisedImages (fst (snd (Track (mock_client (NewMockClient [alpine])) memory_router True
     [(mock_client (NewMockClient [alpine]), Tick),
      (mock_client (NewMockClient []), ImageEv (Some \<lparr>ev_Image = alpine, ev_Type = DeleteEvent\<rparr>))]
     (gauges_Reset, node)))) ''docker.io'' =
   AdvertisedImageTags (fst (snd (Track (mock_client (NewMockClient [alpine])) memory_router True
     [(mock_client (NewMockClient [alpine]), Tick),
      (mock_client (NewMockClient []), ImageEv (Some \<lparr>ev_Image = alpine, ev_Type = DeleteEvent\<rparr>))]
     (gauges_Reset, node)))) ''docker.io'' +
   AdvertisedImageDigests (fst (snd (Track (mock_client (NewMockClient [alpine])) memory_router True
     [(mock_client (NewMockClient [alpine]), Tick),
      (mock_client (NewMockClient []), ImageEv (Some \<lparr>ev_Image = alpine, ev_Type = DeleteEvent\<rparr>))]
     (gauges_Reset, node)))) ''docker.io'' - 1"
  (is "AdvertisedImages (fst (snd (Track ?cl ?R True ?evs ?st))) _ = _")
proof -
  obtain res g r where run: "Track ?cl ?R True ?evs (gauges_Reset, node) = (res, g, r)"
    by (cases "Track ?cl ?R True ?evs (gauges_Reset, node)") auto
  have "cl_Subscribe ?cl = None" by (simp add: mock_client_def)
  moreover have "pending_deletes ''docker.io'' ?evs 0 = 1"
    by (simp add: alpine_def mock_client_def)
  ultimately show ?thesis
    using track_gauges [OF run, of "''docker.io''"] run by (simp add: gauges_Reset_def)
qed

text \<open>
  The tracking loop returns exactly on the first choice that ends it, with the error of that
  choice: nil when its context is done and an error when one of the channels of the subscription
  is closed. Failed updates, failed synchronisations and event errors never end it. It does not
  start when subscribing fails.
\<close>

theorem track_returns:
  "fst (Track ociClient R resolveLatestTag evs st) =
     (case cl_Subscribe ociClient of
        Some err \<Rightarrow> Some (Some err)
      | None \<Rightarrow> (case filter (\<lambda>res. res \<noteq> None) (map (track_stop \<circ> snd) evs) of [] \<Rightarrow> None | res # _ \<Rightarrow> res))"
proof -
  have "fst (track_loop R resolveLatestTag evs st) =
      (case filter (\<lambda>res. res \<noteq> None) (map (track_stop \<circ> snd) evs) of [] \<Rightarrow> None | res # _ \<Rightarrow> res)"
  proof (induction evs arbitrary: st)
    case (Cons cev evs)
    then show ?case
      using track_step_result [of "fst cev" R resolveLatestTag st "snd cev"]
      by (cases cev) (auto split: prod.splits option.splits)
  qed simp
  then show ?thesis by (simp add: Track_def split: option.splits)
qed


section \<open>What the loop provides\<close>

context router_contract
begin

lemma all_frame:
  assumes "all cl R res (g, r) = (err, g', r')"
  shows "self r' = self r \<and> providers r k \<subseteq> providers r' k"
proof (cases "cl_ListImages cl")
  case (Inl e)
  with assms show ?thesis by (simp add: all_def)
next
  case (Inr imgs)
  from Inr assms obtain errs synced where "sync_run cl R res imgs {} (gauges_Reset, r) errs synced (g', r')"
    by (rule all_runE)
  from sync_run_frame [OF this, simplified] show ?thesis by blast
qed

lemma track_step_frame:
  assumes "track_step cl R res (g, r) ev = (x, g', r')"
  shows "self r' = self r \<and> providers r k \<subseteq> providers r' k"
proof (cases ev)
  case Tick
  obtain err g1 r1 where a: "all cl R res (g, r) = (err, g1, r1)" by (cases "all cl R res (g, r)") auto
  from all_frame [OF this] a assms Tick show ?thesis by simp
next
  case (ImageEv oe)
  show ?thesis
  proof (cases oe)
    case (Some e)
    obtain y g1 r1 where u: "update cl R (g, r) e False res = (y, g1, r1)" by (cases "update cl R (g, r) e False res") auto
    from update_frame [OF this] u assms ImageEv Some show ?thesis by simp
  qed (use assms ImageEv in simp)
next
  case (ErrorEv oe)
  with assms show ?thesis by (cases oe) simp_all
qed (use assms in simp)

lemma track_loop_frame:
  "track_loop R res evs (g, r) = (x, g', r') \<Longrightarrow> self r' = self r \<and> providers r k \<subseteq> providers r' k"
proof (induction evs arbitrary: g r)
  case (Cons cev evs)
  obtain cl ev y g1 r1 where s: "cev = (cl, ev)" "track_step cl R res (g, r) ev = (y, g1, r1)"
    by (cases cev; cases "track_step (fst cev) R res (g, r) (snd cev)") auto
  from track_step_frame [OF s(2)] Cons s show ?case by (cases y) (auto, blast)
qed simp

text \<open>
  While the loop runs and advertising does not fail, this node provides the keys of every image
  event that was handled, as they were when it was handled.
\<close>

lemma track_loop_provides:
  assumes "\<And>r ks. fst (rt_Advertise R r ks) = None"
    and "track_loop R res evs (g, r) = (None, g', r')"
    and "(cl, ImageEv (Some e)) \<in> set evs" and "ev_Type e \<noteq> DeleteEvent"
    and "event_keys cl (ev_Image e) False res = Inr keys" and "k \<in> set keys"
  shows "self r \<in> providers r' k"
  using assms(2,3)
proof (induction evs arbitrary: g r)
  case (Cons cev evs)
  obtain cl1 ev1 g1 r1 where s: "cev = (cl1, ev1)" "track_step cl1 R res (g, r) ev1 = (None, g1, r1)"
    using Cons.prems(1) by (cases cev) (auto split: prod.splits option.splits)
  with Cons.prems(1) have rest: "track_loop R res evs (g1, r1) = (None, g', r')" by simp
  note self1 = track_step_frame [OF s(2), of k] and later = track_loop_frame [OF rest, of k]
  show ?case
  proof (cases "cev = (cl, ImageEv (Some e))")
    case True
    obtain r2 where "rt_Advertise R r keys = (None, r2)" using assms(1) [of r keys] by (cases "rt_Advertise R r keys") auto
    with True s assms(4,5) have "r1 = r2" "rt_Advertise R r keys = (None, r1)"
      by (auto simp: update_def event_keys_def Let_def split: if_splits)
    with advertise_adds assms(6) have "self r \<in> providers r1 k" by blast
    with later show ?thesis by blast
  next
    case False
    with Cons.prems(2) Cons.IH [OF rest] self1 show ?thesis by simp
  qed
qed simp

end

end
