(* ===== verification/Cluster.thy ===== *)
theory Cluster
  imports Mirroring Tracking
begin

text \<open>
  A cluster of nodes: a client asks one registry for content, the registry mirrors the request to
  the peers its router resolves, and each of them answers with the same program from its own
  content. The network delivers every request and response unchanged, or a peer is not reached.
\<close>

section \<open>The network\<close>

text \<open>The answer of the registry \<open>r\<close> of a peer to a forwarded request that comes from \<open>remote\<close>.\<close>

definition peer_serves :: "'l Limiter \<Rightarrow> ('r, 'l) Registry \<Rightarrow> string \<Rightarrow> OutRequest \<Rightarrow> round_trip" where
  "peer_serves L r remote out =
     (let w = Unwrap (fst (snd (handle L r (new_response (http_new_writer (out_Method out = MethodHead) None))
            (peer_request out remote)))) in
      ([], Inr \<lparr>rsp_StatusCode = wire_status w, rsp_Status = FormatInt (wire_status w), rsp_Header = wire_header w,
                rsp_Body = ([hw_body w], None)\<rparr>))"

text \<open>
  The transport of a node of the cluster: at the time of attempt \<open>n\<close>, \<open>net n host\<close> is the registry
  that listens at an address, or the error of the connection.
\<close>

definition cluster_transport ::
  "'l Limiter \<Rightarrow> string \<Rightarrow> (nat \<Rightarrow> string \<Rightarrow> error + ('r, 'l) Registry) \<Rightarrow> nat \<Rightarrow> OutRequest \<Rightarrow> round_trip" where
  "cluster_transport L remote net n out =
     (case net n (out_URLHost out) of Inl err \<Rightarrow> ([], Inl err) | Inr r \<Rightarrow> peer_serves L r remote out)"

lemma inflight_simps [simp]:
  "rg_ociClient (inflight r p v) = rg_ociClient r" "rg_throttler (inflight r p v) = rg_throttler r"
  "rg_router (inflight r p v) = rg_router r" "rg_routerState (inflight r p v) = rg_routerState r"
  "rg_transport (inflight r p v) = rg_transport r" "rg_localAddr (inflight r p v) = rg_localAddr r"
  "rg_resolveRetries (inflight r p v) = rg_resolveRetries r" "rg_resolveLatestTag (inflight r p v) = rg_resolveLatestTag r"
  by (simp_all add: inflight_def Let_def)

section \<open>Requests\<close>

text \<open>A GET request for content, whose reference is \<open>ref\<close>.\<close>

definition content_request :: "Request \<Rightarrow> reference \<Rightarrow> bool" where
  "content_request req ref \<longleftrightarrow>
     prefix ''/v2/'' (req_Path req) \<and> path_Clean (req_Path req) \<noteq> ''/v2'' \<and> req_Method req = MethodGet \<and>
     parsePathComponents (query_Get (ParseQuery (req_RawQuery req)) ''ns'') (req_Path req) = Inr ref"

definition blob_request :: "Request \<Rightarrow> reference \<Rightarrow> bool" where
  "blob_request req ref \<longleftrightarrow> content_request req ref \<and> ref_kind ref = referenceKindBlob"

definition manifest_request :: "Request \<Rightarrow> reference \<Rightarrow> bool" where
  "manifest_request req ref \<longleftrightarrow> content_request req ref \<and> ref_kind ref = referenceKindManifest"

text \<open>A request of a client: it has no mirrored header, asks for no upgrade, and is not cancelled.\<close>

definition client_request :: "Request \<Rightarrow> bool" where
  "client_request req \<longleftrightarrow> header_Get (req_Header req) MirroredHeaderKey \<noteq> ''true'' \<and>
     req_Header req ''Connection'' = None \<and> req_Done req = None"

abbreviation is_mirrored :: "Request \<Rightarrow> bool" where
  "is_mirrored req \<equiv> header_Get (req_Header req) MirroredHeaderKey = ''true''"

lemma content_request_dispatch:
  assumes "content_request req ref"
  shows "dispatch L r rw req = registryHandler L r rw req"
  using assms by (auto simp: content_request_def dispatch_def str_HasPrefix_def prefix_def)

lemma content_request_get:
  assumes "content_request req ref"
  shows "req_Method req \<noteq> MethodHead"
  using assms by (simp add: content_request_def MethodGet_def MethodHead_def)

text \<open>The forwarded request is a request for the same content, with the mirrored header.\<close>

lemma forwarded_content_request:
  assumes "content_request req ref"
  shows "content_request (peer_request (out_request s h (mirrored req)) remote) ref"
proof -
  have "singleJoiningSlash [] (req_Path req) = req_Path req"
    using assms by (auto simp: content_request_def singleJoiningSlash_def prefix_def Let_def)
  with assms show ?thesis by (simp add: content_request_def peer_request_def out_request_def)
qed

lemma forwarded_is_mirrored:
  assumes "client_request req"
  shows "is_mirrored (peer_request (out_request s h (mirrored req)) remote)"
proof -
  have "connection_tokens (req_Header req) = []"
    using assms by (simp add: client_request_def connection_tokens_def header_values_def)
  with out_header_mirrored [of req s h] show ?thesis by (simp add: peer_request_def)
qed

section \<open>The node that has the content\<close>

text \<open>The blob is available with its size, and a throttled registry grants its pieces.\<close>

definition has_blob :: "'l Limiter \<Rightarrow> ('r, 'l) Registry \<Rightarrow> string \<Rightarrow> string list \<Rightarrow> bool" where
  "has_blob L r dgst chunks \<longleftrightarrow>
     cl_Size (rg_ociClient r) dgst = Inr (int (length (concat chunks))) \<and> cl_GetBlob (rg_ociClient r) dgst = Inr (chunks, None) \<and>
     (rg_throttler r \<noteq> None \<longrightarrow>
        (\<forall>l now n. 0 \<le> n \<and> n \<le> burstLimit \<longrightarrow> fst (lim_ReserveN L l now n) \<noteq> None) \<and>
        (\<forall>b \<in> set chunks. int (length b) \<le> burstLimit))"

text \<open>The digest of a manifest that is asked for, as this node knows it, and the manifest.\<close>

definition manifest_digest :: "('r, 'l) Registry \<Rightarrow> reference \<Rightarrow> digest result" where
  "manifest_digest r ref =
     (if ref_dgst ref = [] then cl_Resolve (rg_ociClient r) (ref_name ref) else Inr (ref_dgst ref))"

definition local_manifest :: "('r, 'l) Registry \<Rightarrow> reference \<Rightarrow> (digest \<times> string \<times> string) result" where
  "local_manifest r ref =
     bind_result (manifest_digest r ref) (\<lambda>dgst.
       bind_result (cl_GetManifest (rg_ociClient r) dgst) (\<lambda>(b, mediaType). Inr (dgst, mediaType, b)))"

lemma local_manifest_inflight [simp]: "local_manifest (inflight r p v) ref = local_manifest r ref"
  by (simp add: local_manifest_def manifest_digest_def)

text \<open>What a node answers to a mirrored request: the response of its handler for the content.\<close>

lemma blob_answer:
  assumes "blob_request req ref" and "is_mirrored req"
  shows "\<exists>r'. handle L r (new_response (http_new_writer False None)) req =
    (r', snd (handleBlob L (inflight r (metrics_path req) 1) (new_response (http_new_writer False None)) req ref), Done ())"
proof -
  let ?r = "inflight r (metrics_path req) 1"
  obtain r1 rw where b: "handleBlob L ?r (new_response (http_new_writer False None)) req ref = (r1, rw)" by fastforce
  have "content_request req ref" using assms(1) by (simp add: blob_request_def)
  then have "dispatch L ?r (new_response (http_new_writer False None)) req = (r1, rw, Done ''blob'')"
    unfolding content_request_dispatch [OF \<open>content_request req ref\<close>] using assms b by (simp add: registryHandler_def blob_request_def content_request_def referenceKindBlob_def referenceKindManifest_def)
  from handle_dispatch [OF this] b show ?thesis by simp
qed

lemma manifest_answer:
  assumes "manifest_request req ref" and "is_mirrored req"
  shows "\<exists>r'. handle L r (new_response (http_new_writer False None)) req =
    (r', handleManifest (inflight r (metrics_path req) 1) (new_response (http_new_writer False None)) req ref, Done ())"
proof -
  let ?r = "inflight r (metrics_path req) 1"
  have "content_request req ref" using assms(1) by (simp add: manifest_request_def)
  then have "dispatch L ?r (new_response (http_new_writer False None)) req =
      (?r, handleManifest ?r (new_response (http_new_writer False None)) req ref, Done ''manifest'')"
    unfolding content_request_dispatch [OF \<open>content_request req ref\<close>] using assms by (simp add: registryHandler_def manifest_request_def content_request_def)
  from handle_dispatch [OF this] show ?thesis by simp
qed

text \<open>The answers of a peer to a forwarded request, in terms of what the peer has.\<close>

definition blob_headers :: "string \<Rightarrow> string list \<Rightarrow> header" where
  "blob_headers dgst chunks =
     [''Content-Length'' \<mapsto> [FormatInt (int (length (concat chunks)))], ''Docker-Content-Digest'' \<mapsto> [dgst]]"

definition manifest_headers :: "digest \<Rightarrow> string \<Rightarrow> string \<Rightarrow> header" where
  "manifest_headers dgst mediaType b =
     [''Content-Type'' \<mapsto> [mediaType], ''Content-Length'' \<mapsto> [FormatInt (int (length b))], ''Docker-Content-Digest'' \<mapsto> [dgst]]"

definition ok_answer :: "header \<Rightarrow> string \<Rightarrow> Response" where
  "ok_answer h b = \<lparr>rsp_StatusCode = 200, rsp_Status = FormatInt 200, rsp_Header = h, rsp_Body = ([b], None)\<rparr>"

abbreviation forwarded :: "Request \<Rightarrow> string \<Rightarrow> OutRequest" where
  "forwarded req h \<equiv> out_request (request_scheme req) h (mirrored req)"

lemma forwarded_get: "content_request req ref \<Longrightarrow> (out_Method (out_request s h (mirrored req)) = MethodHead) = False"
  by (simp add: content_request_def out_request_def MethodGet_def MethodHead_def)

lemma peer_has_blob:
  assumes "blob_request req ref" and "client_request req" and "has_blob L r (ref_dgst ref) chunks"
  shows "peer_serves L r remote (out_request s h (mirrored req)) = ([], Inr (ok_answer (blob_headers (ref_dgst ref) chunks) (concat chunks)))"
proof -
  let ?req = "peer_request (out_request s h (mirrored req)) remote"
  let ?r = "inflight r (metrics_path ?req) 1"
  have req: "blob_request ?req ref" "content_request req ref"
    using assms(1) forwarded_content_request by (auto simp: blob_request_def)
  from req(1) have get: "(req_Method ?req = MethodHead) = False" unfolding blob_request_def by (blast dest: content_request_get)
  from assms(3) have "has_blob L ?r (ref_dgst ref) chunks" by (simp add: has_blob_def)
  then have "\<exists>r1 rw. handleBlob L ?r (new_response (http_new_writer False None)) ?req ref = (r1, rw) \<and>
      wire_status (Unwrap rw) = 200 \<and> hw_body (Unwrap rw) = concat chunks \<and>
      wire_header (Unwrap rw) = blob_headers (ref_dgst ref) chunks"
    using handleBlob_serves [of ?r ref chunks L ?req] unfolding has_blob_def get blob_headers_def by auto
  with blob_answer [OF req(1) forwarded_is_mirrored [OF assms(2)], of L r] show ?thesis
    by (auto simp: peer_serves_def ok_answer_def Let_def forwarded_get [OF req(2)])
qed

lemma peer_lacks_blob:
  assumes "blob_request req ref" and "client_request req" and "cl_Size (rg_ociClient r) (ref_dgst ref) = Inl e"
  shows "\<exists>res. peer_serves L r remote (out_request s h (mirrored req)) = ([], Inr res) \<and> rsp_StatusCode res = 500"
proof -
  let ?req = "peer_request (out_request s h (mirrored req)) remote"
  have req: "blob_request ?req ref" "content_request req ref"
    using assms(1) forwarded_content_request by (auto simp: blob_request_def)
  from blob_answer [OF req(1) forwarded_is_mirrored [OF assms(2)], of L r] assms(3) show ?thesis
    by (auto simp: peer_serves_def Let_def forwarded_get [OF req(2)] handleBlob_def mux_defs Let_def new_response_def
        http_WriteHeader_def http_informational_def Unwrap_def)
qed

lemma peer_has_manifest:
  assumes "manifest_request req ref" and "client_request req" and "local_manifest r ref = Inr (dgst, mediaType, b)"
  shows "peer_serves L r remote (out_request s h (mirrored req)) = ([], Inr (ok_answer (manifest_headers dgst mediaType b) b))"
proof -
  let ?req = "peer_request (out_request s h (mirrored req)) remote"
  let ?r = "inflight r (metrics_path ?req) 1"
  have req: "manifest_request ?req ref" "content_request req ref"
    using assms(1) forwarded_content_request by (auto simp: manifest_request_def)
  from req(1) have get: "(req_Method ?req = MethodHead) = False" unfolding manifest_request_def by (blast dest: content_request_get)
  from assms(3) have "(if ref_dgst ref = [] then cl_Resolve (rg_ociClient ?r) (ref_name ref) else Inr (ref_dgst ref)) = Inr dgst"
    "cl_GetManifest (rg_ociClient ?r) dgst = Inr (b, mediaType)"
    by (auto simp: local_manifest_def manifest_digest_def bind_result_def split: sum.splits if_splits)
  from handleManifest_serves [OF this, of ?req] have
    "wire_status (Unwrap (handleManifest ?r (new_response (http_new_writer False None)) ?req ref)) = 200"
    "hw_body (Unwrap (handleManifest ?r (new_response (http_new_writer False None)) ?req ref)) = b"
    "wire_header (Unwrap (handleManifest ?r (new_response (http_new_writer False None)) ?req ref)) = manifest_headers dgst mediaType b"
    unfolding get manifest_headers_def by auto
  with manifest_answer [OF req(1) forwarded_is_mirrored [OF assms(2)], of L r] show ?thesis
    by (auto simp: peer_serves_def ok_answer_def Let_def forwarded_get [OF req(2)])
qed

lemma peer_lacks_manifest:
  assumes "manifest_request req ref" and "client_request req" and "local_manifest r ref = Inl e"
  shows "\<exists>res. peer_serves L r remote (out_request s h (mirrored req)) = ([], Inr res) \<and> rsp_StatusCode res = 404"
proof -
  let ?req = "peer_request (out_request s h (mirrored req)) remote"
  have req: "manifest_request ?req ref" "content_request req ref"
    using assms(1) forwarded_content_request by (auto simp: manifest_request_def)
  from assms(3) have "\<exists>x. handleManifest (inflight r (metrics_path ?req) 1) (new_response (http_new_writer False None)) ?req ref =
      WriteError (new_response (http_new_writer False None)) 404 x"
    by (auto simp: handleManifest_def local_manifest_def manifest_digest_def bind_result_def split: sum.splits)
  with manifest_answer [OF req(1) forwarded_is_mirrored [OF assms(2)], of L r] show ?thesis
    by (auto simp: peer_serves_def Let_def forwarded_get [OF req(2)] mux_defs Let_def new_response_def
        http_WriteHeader_def http_informational_def Unwrap_def)
qed

section \<open>The node that mirrors\<close>

lemma copied_headers:
  assumes "set hopHeaders \<inter> dom h = {}" and "\<forall>k. h k \<noteq> Some []"
  shows "copyHeader Map.empty (removeHopByHopHeaders h) = h"
proof
  fix k
  from assms(1) have "''Connection'' \<notin> dom h" by (auto simp: hopHeaders_def)
  then have "connection_tokens h = []" by (auto simp: connection_tokens_def header_values_def dom_def)
  then have "removeHopByHopHeaders h k = h k"
    using assms(1) by (cases "h k") (auto simp: removeHopByHopHeaders_apply)
  with assms(2) show "copyHeader Map.empty (removeHopByHopHeaders h) k = h k"
    by (auto simp: copyHeader_def split: option.splits list.splits)
qed

lemma content_headers:
  "copyHeader Map.empty (removeHopByHopHeaders (blob_headers dgst chunks)) = blob_headers dgst chunks"
  "copyHeader Map.empty (removeHopByHopHeaders (manifest_headers dgst mediaType b)) = manifest_headers dgst mediaType b"
  by (rule copied_headers; auto simp: blob_headers_def manifest_headers_def hopHeaders_def)+

lemma content_length:
  "parse_nat (header_Get (blob_headers dgst chunks) ''Content-Length'') = Some (length (concat chunks))"
  "parse_nat (header_Get (manifest_headers dgst mediaType b) ''Content-Length'') = Some (length b)"
  by (simp_all add: blob_headers_def manifest_headers_def header_Get_def parse_FormatInt)

definition answer_fails :: "round_trip \<Rightarrow> bool" where
  "answer_fails t \<longleftrightarrow> fst t = [] \<and> (case snd t of Inl _ \<Rightarrow> True | Inr res \<Rightarrow> rsp_StatusCode res \<noteq> 200)"

text \<open>The addresses that the router of a node gives for a request.\<close>

definition resolved :: "('r, 'l) Registry \<Rightarrow> Request \<Rightarrow> reference \<Rightarrow> AddrPort list \<Rightarrow> bool" where
  "resolved A req ref ps \<longleftrightarrow>
     rt_Resolve (rg_router A) (rg_routerState A) (mirror_key ref) (isExternalRequest A req) (rg_resolveRetries A) = Done (Inr ps) \<and>
     (rg_resolveLatestTag A \<or> \<not> hasLatestTag ref)"

lemma client_request_dispatch:
  assumes "content_request req ref" and "client_request req"
    and "handleMirror (inflight r (metrics_path req) 1) rw (mirrored req) ref = (r', rw', Done ())"
  shows "\<exists>r''. handle L r rw req = (r'', rw', Done ())"
proof -
  have "dispatch L (inflight r (metrics_path req) 1) rw req = (r', rw', Done ''mirror'')"
    unfolding content_request_dispatch [OF assms(1)]
    using assms by (simp add: registryHandler_def content_request_def client_request_def)
  from handle_dispatch [OF this] show ?thesis by simp
qed

text \<open>The first peer that answers with 200 determines the response.\<close>

lemma cluster_first:
  assumes "content_request req ref" and "client_request req" and "resolved A req ref (ps @ p # qs)"
    and "\<forall>i < length ps. answer_fails (rg_transport A (i + 1) (forwarded req (AddrPort_String (ps ! i))))"
    and "rg_transport A (length ps + 1) (forwarded req (AddrPort_String p)) = ([], Inr (ok_answer h b))"
    and "copyHeader Map.empty (removeHopByHopHeaders h) = h" and "parse_nat (header_Get h ''Content-Length'') = Some (length b)"
  shows "\<exists>A' rw. handle L A (new_response (http_new_writer False None)) req = (A', rw, Done ()) \<and>
    wire_status (Unwrap rw) = 200 \<and> hw_body (Unwrap rw) = b \<and> wire_header (Unwrap rw) = h"
proof -
  let ?A = "inflight A (metrics_path req) 1" and ?req = "mirrored req" and ?res = "ok_answer h b"
  have res: "rsp_StatusCode ?res = 200" "rsp_Body ?res = ([b], None)" "rsp_Header ?res = h" by (simp_all add: ok_answer_def)
  have len: "header_Get (removeHopByHopHeaders h) ''Content-Length'' = header_Get h ''Content-Length''"
    using copyHeader_empty_Get [of "removeHopByHopHeaders h"] assms(6) by simp
  have "\<exists>r' rw'. handleMirror ?A (new_response (http_new_writer False None)) ?req ref = (r', rw', Done ()) \<and>
      Status rw' = 200 \<and> wire_status (Unwrap rw') = 200 \<and> hw_body (Unwrap rw') = concat (fst (rsp_Body ?res)) \<and>
      wire_header (Unwrap rw') = copyHeader Map.empty (removeHopByHopHeaders (rsp_Header ?res)) \<and>
      mirror_count r' ref ?req ''hit'' = mirror_count ?A ref ?req ''hit'' + 1"
  proof (rule handleMirror_first)
    show "rt_Resolve (rg_router ?A) (rg_routerState ?A) (mirror_key ref) (isExternalRequest ?A ?req) (rg_resolveRetries ?A) =
        Done (Inr (ps @ p # qs))" "rg_resolveLatestTag ?A \<or> \<not> hasLatestTag ref"
      using assms(3) by (simp_all add: resolved_def isExternalRequest_def)
    show "\<forall>i < length ps. peer_fails ?A ?req (i + 1) (ps ! i)"
      using assms(4) by (simp add: peer_fails_def peer_answer_def answer_fails_def)
    show "peer_answer ?A ?req (length ps + 1) p = ([], Inr ?res)"
      using assms(5) by (simp add: peer_answer_def)
    show "is_print (upgradeType (req_Header ?req))"
      using assms(2) by (simp add: client_request_def upgradeType_def is_print_def header_values_def containsToken_def
          header_Set_def MirroredHeaderKey_def)
  qed (use assms(2,7) len res in \<open>simp_all add: client_request_def\<close>)
  then obtain r' rw where m: "handleMirror ?A (new_response (http_new_writer False None)) ?req ref = (r', rw, Done ())" and
    rw: "wire_status (Unwrap rw) = 200" "hw_body (Unwrap rw) = b" "wire_header (Unwrap rw) = h"
    using res assms(6) by auto
  from client_request_dispatch [OF assms(1,2) m, of L] rw show ?thesis by blast
qed

lemma cluster_none:
  assumes "content_request req ref" and "client_request req" and "resolved A req ref ps"
    and "\<forall>i < length ps. answer_fails (rg_transport A (i + 1) (forwarded req (AddrPort_String (ps ! i))))"
  shows "\<exists>A' rw. handle L A (new_response (http_new_writer False None)) req = (A', rw, Done ()) \<and>
    wire_status (Unwrap rw) = 404 \<and> hw_body (Unwrap rw) = []"
proof -
  let ?A = "inflight A (metrics_path req) 1" and ?req = "mirrored req"
  have res: "rt_Resolve (rg_router ?A) (rg_routerState ?A) (mirror_key ref) (isExternalRequest ?A ?req) (rg_resolveRetries ?A) =
      Done (Inr ps)" "rg_resolveLatestTag ?A \<or> \<not> hasLatestTag ref"
    using assms(3) by (simp_all add: resolved_def isExternalRequest_def)
  have "req_Done ?req = None" using assms(2) by (simp add: client_request_def)
  moreover have "\<forall>i < length ps. peer_fails ?A ?req (i + 1) (ps ! i)"
    using assms(4) by (simp add: peer_fails_def peer_answer_def answer_fails_def)
  ultimately obtain r' rw where m: "handleMirror ?A (new_response (http_new_writer False None)) ?req ref = (r', rw, Done ())" and
    rw: "wire_status (Unwrap rw) = 404" "hw_body (Unwrap rw) = []"
    using handleMirror_none [OF res, of False None] by blast
  from client_request_dispatch [OF assms(1,2) m, of L] rw show ?thesis by blast
qed

section \<open>The cluster\<close>

text \<open>What is found at an address: a node that has the blob, or none that has it.\<close>

fun blob_at :: "'l Limiter \<Rightarrow> error + ('r, 'l) Registry \<Rightarrow> string \<Rightarrow> string list \<Rightarrow> bool" where
  "blob_at L (Inl err) dgst chunks = False"
| "blob_at L (Inr r) dgst chunks = has_blob L r dgst chunks"

fun blob_absent :: "error + ('r, 'l) Registry \<Rightarrow> string \<Rightarrow> bool" where
  "blob_absent (Inl err) dgst = True"
| "blob_absent (Inr r) dgst = (case cl_Size (rg_ociClient r) dgst of Inl _ \<Rightarrow> True | Inr _ \<Rightarrow> False)"

fun manifest_at :: "error + ('r, 'l) Registry \<Rightarrow> reference \<Rightarrow> (digest \<times> string \<times> string) option" where
  "manifest_at (Inl err) ref = None"
| "manifest_at (Inr r) ref = (case local_manifest r ref of Inl _ \<Rightarrow> None | Inr m \<Rightarrow> Some m)"

lemma cluster_transport_blob:
  assumes "blob_request req ref" and "client_request req"
  shows "blob_at L (net n h) (ref_dgst ref) chunks \<Longrightarrow> cluster_transport L remote net n (forwarded req h) =
      ([], Inr (ok_answer (blob_headers (ref_dgst ref) chunks) (concat chunks)))"
    and "blob_absent (net n h) (ref_dgst ref) \<Longrightarrow> answer_fails (cluster_transport L remote net n (forwarded req h))"
proof -
  have host: "out_URLHost (out_request s h r) = h" for s r by (simp add: out_request_def)
  show "cluster_transport L remote net n (forwarded req h) =
      ([], Inr (ok_answer (blob_headers (ref_dgst ref) chunks) (concat chunks)))"
    if "blob_at L (net n h) (ref_dgst ref) chunks"
    using that peer_has_blob [OF assms] unfolding cluster_transport_def host by (cases "net n h") auto
  show "answer_fails (cluster_transport L remote net n (forwarded req h))" if absent: "blob_absent (net n h) (ref_dgst ref)"
  proof (cases "net n h")
    case (Inr r)
    with absent obtain e where "cl_Size (rg_ociClient r) (ref_dgst ref) = Inl e" by (auto split: sum.splits)
    with peer_lacks_blob [OF assms] obtain res where
      "peer_serves L r remote (forwarded req h) = ([], Inr res)" "rsp_StatusCode res = 500" by blast
    with Inr show ?thesis unfolding cluster_transport_def host by (simp add: answer_fails_def)
  qed (simp add: cluster_transport_def host answer_fails_def)
qed

lemma cluster_transport_manifest:
  assumes "manifest_request req ref" and "client_request req"
  shows "manifest_at (net n h) ref = Some (dgst, mediaType, b) \<Longrightarrow> cluster_transport L remote net n (forwarded req h) =
      ([], Inr (ok_answer (manifest_headers dgst mediaType b) b))"
    and "manifest_at (net n h) ref = None \<Longrightarrow> answer_fails (cluster_transport L remote net n (forwarded req h))"
proof -
  have host: "out_URLHost (out_request s h r) = h" for s r by (simp add: out_request_def)
  show "cluster_transport L remote net n (forwarded req h) = ([], Inr (ok_answer (manifest_headers dgst mediaType b) b))"
    if "manifest_at (net n h) ref = Some (dgst, mediaType, b)"
    using that peer_has_manifest [OF assms] unfolding cluster_transport_def host
    by (cases "net n h") (auto split: sum.splits)
  show "answer_fails (cluster_transport L remote net n (forwarded req h))" if none: "manifest_at (net n h) ref = None"
  proof (cases "net n h")
    case (Inr r)
    with none obtain e where "local_manifest r ref = Inl e" by (auto split: sum.splits)
    with peer_lacks_manifest [OF assms] obtain res where
      "peer_serves L r remote (forwarded req h) = ([], Inr res)" "rsp_StatusCode res = 404" by blast
    with Inr show ?thesis unfolding cluster_transport_def host by (simp add: answer_fails_def)
  qed (simp add: cluster_transport_def host answer_fails_def)
qed

text \<open>The first element of a list at which a property holds at its position.\<close>

lemma first_index:
  assumes "i < length ps" and "P (Suc i) (ps ! i)"
  obtains qs p rs where "ps = qs @ p # rs" "P (Suc (length qs)) p" "\<forall>j < length qs. \<not> P (Suc j) (qs ! j)"
proof -
  let ?P = "\<lambda>i. i < length ps \<and> P (Suc i) (ps ! i)"
  define k where "k = (LEAST i. ?P i)"
  have k: "?P k" unfolding k_def by (rule LeastI [of ?P i]) (use assms in simp)
  have "\<not> ?P j" if "j < k" for j using that not_less_Least [of j ?P] unfolding k_def by blast
  with k have "ps = take k ps @ ps ! k # drop (Suc k) ps" "\<forall>j < length (take k ps). \<not> P (Suc j) (take k ps ! j)"
    by (auto simp: id_take_nth_drop [symmetric])
  with k show ?thesis by (intro that [of "take k ps" "ps ! k" "drop (Suc k) ps"]) auto
qed

lemma cluster_blob:
  assumes "blob_request req ref" and "client_request req" and "resolved A req ref ps"
    and "rg_transport A = cluster_transport L' remote net"
    and "\<forall>i < length ps. blob_at L' (net (i + 1) (AddrPort_String (ps ! i))) (ref_dgst ref) chunks \<or>
      blob_absent (net (i + 1) (AddrPort_String (ps ! i))) (ref_dgst ref)"
  shows "\<exists>A' rw. handle L A (new_response (http_new_writer False None)) req = (A', rw, Done ()) \<and>
    (if \<exists>i < length ps. blob_at L' (net (i + 1) (AddrPort_String (ps ! i))) (ref_dgst ref) chunks
     then wire_status (Unwrap rw) = 200 \<and> hw_body (Unwrap rw) = concat chunks \<and>
       wire_header (Unwrap rw) = blob_headers (ref_dgst ref) chunks
     else wire_status (Unwrap rw) = 404 \<and> hw_body (Unwrap rw) = [])"
proof -
  let ?at = "\<lambda>n p. blob_at L' (net n (AddrPort_String p)) (ref_dgst ref) chunks"
  have content: "content_request req ref" using assms(1) by (simp add: blob_request_def)
  note fails = cluster_transport_blob(2) [OF assms(1,2), of net _ _ L' remote]
  show ?thesis
  proof (cases "\<exists>i < length ps. ?at (i + 1) (ps ! i)")
    case True
    then obtain i where "i < length ps" "?at (Suc i) (ps ! i)" by auto
    then obtain qs p rs where ps: "ps = qs @ p # rs" "?at (Suc (length qs)) p" "\<forall>j < length qs. \<not> ?at (Suc j) (qs ! j)"
      by (rule first_index)
    have "\<forall>j < length qs. answer_fails (rg_transport A (j + 1) (forwarded req (AddrPort_String (qs ! j))))"
    proof (intro allI impI)
      fix j assume j: "j < length qs"
      with assms(5) ps(1,3) have "blob_absent (net (j + 1) (AddrPort_String (qs ! j))) (ref_dgst ref)"
        by (metis Suc_eq_plus1 append_eq_conv_conj length_append nth_append trans_less_add1)
      with fails show "answer_fails (rg_transport A (j + 1) (forwarded req (AddrPort_String (qs ! j))))" by (simp add: assms(4))
    qed
    moreover have "rg_transport A (length qs + 1) (forwarded req (AddrPort_String p)) =
        ([], Inr (ok_answer (blob_headers (ref_dgst ref) chunks) (concat chunks)))"
      using cluster_transport_blob(1) [OF assms(1,2), of L' net "Suc (length qs)" "AddrPort_String p" chunks remote] ps(2)
      by (simp add: assms(4))
    ultimately show ?thesis
      using cluster_first [OF content assms(2) assms(3) [unfolded ps(1)] _ _ content_headers(1) content_length(1)] True
      by simp
  next
    case False
    with assms(4,5) fails have "\<forall>i < length ps. answer_fails (rg_transport A (i + 1) (forwarded req (AddrPort_String (ps ! i))))"
      by simp
    from cluster_none [OF content assms(2,3) this] show ?thesis unfolding if_not_P [OF False] .
  qed
qed


text \<open>
  C7. A manifest in the cluster, asked for by tag or digest: the client gets the manifest of the
  first resolved peer that has one for the reference, with its media type, length and digest, and
  a 404 without body if none of them has. Peers that do not have it or are not reached make no
  difference.
\<close>

theorem cluster_serves_manifest:
  assumes "manifest_request req ref" and "client_request req" and "resolved A req ref ps"
    and "rg_transport A = cluster_transport L' remote net"
  shows "\<exists>A' rw. handle L A (new_response (http_new_writer False None)) req = (A', rw, Done ()) \<and>
    (case filter (\<lambda>m. m \<noteq> None) (map (\<lambda>i. manifest_at (net (i + 1) (AddrPort_String (ps ! i))) ref) [0..<length ps]) of
       Some (dgst, mediaType, b) # _ \<Rightarrow>
         wire_status (Unwrap rw) = 200 \<and> hw_body (Unwrap rw) = b \<and> wire_header (Unwrap rw) = manifest_headers dgst mediaType b
     | _ \<Rightarrow> wire_status (Unwrap rw) = 404 \<and> hw_body (Unwrap rw) = [])"
proof -
  let ?at = "\<lambda>n p. manifest_at (net n (AddrPort_String p)) ref"
  let ?found = "\<lambda>ps. filter (\<lambda>m. m \<noteq> None) (map (\<lambda>i. ?at (i + 1) (ps ! i)) [0..<length ps])"
  have content: "content_request req ref" using assms(1) by (simp add: manifest_request_def)
  note fails = cluster_transport_manifest(2) [OF assms(1,2), of net _ _ L' remote]
  show ?thesis
  proof (cases "\<exists>i < length ps. ?at (i + 1) (ps ! i) \<noteq> None")
    case True
    then obtain i where "i < length ps" "?at (Suc i) (ps ! i) \<noteq> None" by auto
    then obtain qs p rs where ps: "ps = qs @ p # rs" "?at (Suc (length qs)) p \<noteq> None" "\<forall>j < length qs. \<not> ?at (Suc j) (qs ! j) \<noteq> None"
      by (rule first_index)
    then obtain dgst mediaType b where m: "?at (Suc (length qs)) p = Some (dgst, mediaType, b)" by auto
    have "[0..<length ps] = [0..<length qs] @ length qs # [Suc (length qs)..<length ps]"
      using upt_add_eq_append [of 0 "length qs" "Suc (length rs)"] upt_conv_Cons [of "length qs" "length ps"] by (simp add: ps(1))
    then have found: "\<exists>ms. ?found ps = Some (dgst, mediaType, b) # ms"
      using ps(3) m by (auto simp: ps(1) nth_append)
    have "\<forall>j < length qs. answer_fails (rg_transport A (j + 1) (forwarded req (AddrPort_String (qs ! j))))"
      unfolding assms(4) by (intro allI impI fails) (metis ps(3) Suc_eq_plus1)
    moreover have "rg_transport A (length qs + 1) (forwarded req (AddrPort_String p)) =
        ([], Inr (ok_answer (manifest_headers dgst mediaType b) b))"
      using cluster_transport_manifest(1) [OF assms(1,2), of net "Suc (length qs)" "AddrPort_String p" dgst mediaType b L' remote] m
      by (simp add: assms(4))
    ultimately show ?thesis
      using cluster_first [OF content assms(2) assms(3) [unfolded ps(1)] _ _ content_headers(2) content_length(2)] found
      by fastforce
  next
    case False
    then have "\<forall>i < length ps. answer_fails (rg_transport A (i + 1) (forwarded req (AddrPort_String (ps ! i))))"
      unfolding assms(4) by (intro allI impI fails) blast
    moreover from False have "?found ps = []" by (auto simp: filter_empty_conv)
    ultimately show ?thesis using cluster_none [OF content assms(2,3)] by simp
  qed
qed

end
