(* ===== verification/Containerd.thy ===== *)
theory Containerd
  imports Oci
begin

text \<open>
  \<open>pkg/oci/containerd.go\<close>, the OCI client on top of containerd: verification of the daemon,
  events, image lists, identifiers, manifests, media types and blobs.

  The containerd client, its content store, the walk over image descriptors of its package
  \<open>images\<close>, and the decoders of the JSON documents in the store are parameters.
\<close>

section \<open>Documents and the containerd interface\<close>

record Descriptor =
  desc_MediaType :: string
  desc_Digest :: digest

record cImage =
  ci_Name :: string
  ci_Target :: Descriptor

record Index =
  idx_Manifests :: "Descriptor list"

record Manifest =
  mf_Config :: Descriptor
  mf_Layers :: "Descriptor list"

text \<open>The fields of an image configuration that are looked at.\<close>

record OciImage =
  ic_Architecture :: string
  ic_OS :: string
  ic_RootFSType :: string

text \<open>The part of the CRI configuration of the daemon that is looked at.\<close>

record CriConfig =
  cri_ConfigPath :: string
  cri_DiscardUnpackedLayers :: bool

text \<open>Content in the store; the labels in the order in which the map is iterated over.\<close>

record Info =
  info_Digest :: digest
  info_Size :: int
  info_Labels :: "(string \<times> string) list"

text \<open>
  The daemon as its client sees it: service and runtime status (the info map of the response),
  images by filter and by name, and content. A walk over the content with a filter visits a list
  of entries and may end with an error of its own. \<open>cd_Open\<close> is the file system, for blobs that
  are read from the content path.
\<close>

record Daemon =
  cd_IsServing :: "bool result"
  cd_Status :: "(string \<rightharpoonup> string) result"
  cd_ListImages :: "string \<Rightarrow> cImage list result"
  cd_GetImage :: "string \<Rightarrow> cImage result"
  cd_ImageServiceGet :: "string \<Rightarrow> cImage result"
  cd_ImageServiceList :: "string \<Rightarrow> cImage list result"
  cd_Info :: "digest \<Rightarrow> Info result"
  cd_ReadBlob :: "digest \<Rightarrow> string result"
  cd_Reader :: "digest \<Rightarrow> reader result"
  cd_Walk :: "string \<Rightarrow> Info list \<times> error option"
  cd_Open :: "string \<Rightarrow> reader result"

text \<open>The decoders: \<open>json.Unmarshal\<close> into the types above, and the parts of a digest.\<close>

record Decoders =
  js_UnknownDocument :: "string \<Rightarrow> UnknownDocument result"
  js_Image :: "string \<Rightarrow> OciImage result"
  js_Index :: "string \<Rightarrow> Index result"
  js_Manifest :: "string \<Rightarrow> Manifest result"
  js_CriConfig :: "string \<Rightarrow> CriConfig result"
  dg_Algorithm :: "digest \<Rightarrow> string"
  dg_Encoded :: "digest \<Rightarrow> string"

text \<open>
  \<open>images.Walk\<close> with a handler that collects a state: the error it returns and the state after
  it, \<^const>\<open>None\<close> when it does not return.
\<close>

type_synonym walker =
  "(Descriptor \<Rightarrow> string list \<Rightarrow> Descriptor list result \<times> string list) \<Rightarrow> Descriptor list \<Rightarrow> string list \<Rightarrow>
   (error option \<times> string list) option"

section \<open>The client\<close>

text \<open>
  The struct; \<open>ct_client\<close> says whether the client has been created, and \<open>ct_clientGetter\<close> is the
  error with which creating it fails, if it does.
\<close>

record Containerd =
  ct_contentPath :: string
  ct_client :: bool
  ct_clientGetter :: "error option"
  ct_listFilter :: string
  ct_eventFilter :: string
  ct_registryConfigPath :: string

definition createFilters :: "URL list \<Rightarrow> string \<times> string" where
  "createFilters registries =
     (let registryHosts = map (\<lambda>registry. str_ReplaceAllByte (url_Host registry) (CHR ''.'') [CHR 0x5C, CHR 0x5C, CHR ''.'']) registries;
          listFilter = ''name~='' @ [CHR 0x22] @ ''^('' @ str_Join registryHosts ''|'' @ '')/'' @ [CHR 0x22];
          eventFilter = ''topic~='' @ [CHR 0x22] @ ''/images/create|/images/update|/images/delete'' @ [CHR 0x22] @ '',event.'' @ listFilter in
      (listFilter, eventFilter))"

definition WithContentPath :: "string \<Rightarrow> Containerd \<Rightarrow> Containerd" where
  "WithContentPath path c = c\<lparr>ct_contentPath := path\<rparr>"

definition NewContainerd :: "error option \<Rightarrow> string \<Rightarrow> URL list \<Rightarrow> (Containerd \<Rightarrow> Containerd) list \<Rightarrow> Containerd" where
  "NewContainerd clientGetter registryConfigPath registries opts =
     (let (listFilter, eventFilter) = createFilters registries in
      foldl (\<lambda>c opt. opt c)
        \<lparr>ct_contentPath = [], ct_client = False, ct_clientGetter = clientGetter, ct_listFilter = listFilter,
         ct_eventFilter = eventFilter, ct_registryConfigPath = registryConfigPath\<rparr>
        opts)"

definition containerd_Client :: "Containerd \<Rightarrow> unit result \<times> Containerd" where
  "containerd_Client c =
     (if \<not> ct_client c then
        (case ct_clientGetter c of
           Some err \<Rightarrow> (Inl err, c)
         | None \<Rightarrow> (Inr (), c\<lparr>ct_client := True\<rparr>))
      else (Inr (), c))"

text \<open>Every operation first gets the client and returns its error.\<close>

definition with_client :: "Containerd \<Rightarrow> 'a result \<Rightarrow> 'a result \<times> Containerd" where
  "with_client c body = (let (client, c') = containerd_Client c in (bind_result client (\<lambda>_. body), c'))"

definition containerd_Name :: string where "containerd_Name = ''containerd''"

section \<open>Verification of the daemon\<close>

text \<open>\<open>filepath.SplitList\<close>: the empty list for an empty string.\<close>

definition SplitList :: "string \<Rightarrow> string list" where
  "SplitList s = (if s = [] then [] else str_SplitByte s (CHR '':''))"

definition verifyStatusResponse :: "Decoders \<Rightarrow> (string \<rightharpoonup> string) \<Rightarrow> string \<Rightarrow> error option" where
  "verifyStatusResponse J resp configPath =
     (case resp ''config'' of
        None \<Rightarrow> Some (Err ''could not get config data from info response'')
      | Some str \<Rightarrow>
          (case js_CriConfig J str of
             Inl err \<Rightarrow> Some err
           | Inr cfg \<Rightarrow>
               if cri_DiscardUnpackedLayers cfg then Some (Err ''Containerd discard unpacked layers cannot be enabled'')
               else if cri_ConfigPath cfg = [] then
                 Some (Err ''Containerd registry config path needs to be set for mirror configuration to take effect'')
               else if configPath \<in> set (SplitList (cri_ConfigPath cfg)) then None
               else Some (Err (''Containerd registry config path is '' @ cri_ConfigPath cfg @
                      '' but needs to contain path '' @ configPath @ '' for mirror configuration to take effect''))))"

definition containerd_Verify :: "Daemon \<Rightarrow> Decoders \<Rightarrow> Containerd \<Rightarrow> unit result \<times> Containerd" where
  "containerd_Verify S J c =
     with_client c
       (bind_result (cd_IsServing S) (\<lambda>ok.
          if \<not> ok then Inl (Err ''could not reach Containerd service'')
          else bind_result (cd_Status S) (\<lambda>resp.
            case verifyStatusResponse J resp (ct_registryConfigPath c) of
              Some err \<Rightarrow> Inl err
            | None \<Rightarrow> Inr ())))"

section \<open>Images and events\<close>

text \<open>
  An event of the daemon: nil, one that cannot be decoded, or one of its types with the name of
  the image.
\<close>

datatype envelope =
    EvNil
  | EvUndecodable error
  | EvImageCreate string
  | EvImageUpdate string
  | EvImageDelete string
  | EvOther

fun getEventImage :: "envelope \<Rightarrow> (string \<times> EventType) result" where
  "getEventImage EvNil = Inl (Err ''any cannot be nil'')"
| "getEventImage (EvUndecodable err) = Inl (Wrap ''failed to unmarshal any: '' err)"
| "getEventImage (EvImageCreate name) = Inr (name, CreateEvent)"
| "getEventImage (EvImageUpdate name) = Inr (name, UpdateEvent)"
| "getEventImage (EvImageDelete name) = Inr (name, DeleteEvent)"
| "getEventImage EvOther = Inl (Err ''unsupported event type'')"

text \<open>
  What the goroutine of \<open>Subscribe\<close> sends for an event that it receives while the daemon is \<open>S\<close>:
  an error on the error channel or an event on the image channel.
\<close>

definition subscribe_step :: "Daemon \<Rightarrow> envelope \<Rightarrow> ImageEvent result" where
  "subscribe_step S ev =
     bind_result (getEventImage ev) (\<lambda>(imageName, eventType).
       bind_result
         (if eventType = CreateEvent \<or> eventType = UpdateEvent then
            bind_result (cd_GetImage S imageName) (\<lambda>cImg. Parse (ci_Name cImg) (desc_Digest (ci_Target cImg)))
          else Parse imageName [])
         (\<lambda>img. Inr \<lparr>ev_Image = img, ev_Type = eventType\<rparr>))"

text \<open>All that is sent for the events of a subscription, before both channels are closed.\<close>

definition subscribe_sends :: "(Daemon \<times> envelope) list \<Rightarrow> ImageEvent result list" where
  "subscribe_sends evs = map (\<lambda>(S, ev). subscribe_step S ev) evs"

definition containerd_Subscribe :: "Containerd \<Rightarrow> (Daemon \<times> envelope) list \<Rightarrow> ImageEvent result list result \<times> Containerd" where
  "containerd_Subscribe c evs = with_client c (Inr (subscribe_sends evs))"

fun parse_images :: "cImage list \<Rightarrow> Image list result" where
  "parse_images [] = Inr []"
| "parse_images (cImg # cImgs) =
     bind_result (Parse (ci_Name cImg) (desc_Digest (ci_Target cImg))) (\<lambda>img.
       bind_result (parse_images cImgs) (\<lambda>imgs. Inr (img # imgs)))"

definition containerd_ListImages :: "Daemon \<Rightarrow> Containerd \<Rightarrow> Image list result \<times> Containerd" where
  "containerd_ListImages S c = with_client c (bind_result (cd_ListImages S (ct_listFilter c)) parse_images)"

section \<open>Identifiers\<close>

definition MediaTypeDockerSchema2ManifestList :: string where
  "MediaTypeDockerSchema2ManifestList = ''application/vnd.docker.distribution.manifest.list.v2+json''"
definition MediaTypeImageIndex :: string where
  "MediaTypeImageIndex = ''application/vnd.oci.image.index.v1+json''"
definition MediaTypeDockerSchema2Manifest :: string where
  "MediaTypeDockerSchema2Manifest = ''application/vnd.docker.distribution.manifest.v2+json''"
definition MediaTypeImageManifest :: string where
  "MediaTypeImageManifest = ''application/vnd.oci.image.manifest.v1+json''"
definition MediaTypeImageConfig :: string where
  "MediaTypeImageConfig = ''application/vnd.oci.image.config.v1+json''"

definition is_index_type :: "string \<Rightarrow> bool" where
  "is_index_type mt = (mt = MediaTypeDockerSchema2ManifestList \<or> mt = MediaTypeImageIndex)"

definition is_manifest_type :: "string \<Rightarrow> bool" where
  "is_manifest_type mt = (mt = MediaTypeDockerSchema2Manifest \<or> mt = MediaTypeImageManifest)"

text \<open>The handler of the walk: it collects keys and returns the descriptors to visit next.\<close>

definition identifiers_handler :: "Daemon \<Rightarrow> Decoders \<Rightarrow> Descriptor \<Rightarrow> string list \<Rightarrow> Descriptor list result \<times> string list" where
  "identifiers_handler S J desc keys0 =
     (let keys = keys0 @ [desc_Digest desc] in
      if is_index_type (desc_MediaType desc) then
        (case cd_ReadBlob S (desc_Digest desc) of
           Inl err \<Rightarrow> (Inl (Wrap ''failed to read blob for manifest list: '' err), keys)
         | Inr b \<Rightarrow>
             (case js_Index J b of
                Inl err \<Rightarrow> (Inl err, keys)
              | Inr idx \<Rightarrow>
                  (let descs = filter (\<lambda>m. is_ok (cd_Info S (desc_Digest m))) (idx_Manifests idx) in
                   if descs = [] then
                     (Inl (Err (''could not find any platforms with local content in manifest list: '' @ desc_Digest desc)), keys)
                   else (Inr descs, keys))))
      else if is_manifest_type (desc_MediaType desc) then
        (case cd_ReadBlob S (desc_Digest desc) of
           Inl err \<Rightarrow> (Inl (Wrap ''failed to read blob for manifest: '' err), keys)
         | Inr b \<Rightarrow>
             (case js_Manifest J b of
                Inl err \<Rightarrow> (Inl err, keys)
              | Inr manifest \<Rightarrow>
                  (Inr [], keys @ [desc_Digest (mf_Config manifest)] @ map desc_Digest (mf_Layers manifest))))
      else (Inl (Err (''unexpected media type '' @ desc_MediaType desc @ '' for digest: '' @ desc_Digest desc)), keys))"

text \<open>\<^const>\<open>None\<close> when the walk does not return.\<close>

definition containerd_AllIdentifiers ::
  "walker \<Rightarrow> Daemon \<Rightarrow> Decoders \<Rightarrow> Containerd \<Rightarrow> Image \<Rightarrow> (string list result \<times> Containerd) option" where
  "containerd_AllIdentifiers walk S J c img =
     (let (client, c') = containerd_Client c in
      (case client of
         Inl err \<Rightarrow> Some (Inl err, c')
       | Inr _ \<Rightarrow>
           (case cd_ImageServiceGet S (img_Name img) of
              Inl err \<Rightarrow> Some (Inl err, c')
            | Inr cImg \<Rightarrow>
                (case walk (identifiers_handler S J) [ci_Target cImg] [] of
                   None \<Rightarrow> None
                 | Some (Some err, keys) \<Rightarrow> Some (Inl (Wrap ''failed to walk image manifests: '' err), c')
                 | Some (None, keys) \<Rightarrow>
                     if keys = [] then Some (Inl (Err ''no image digests found''), c') else Some (Inr keys, c')))))"

section \<open>Content\<close>

definition containerd_Resolve :: "Daemon \<Rightarrow> Containerd \<Rightarrow> string \<Rightarrow> digest result \<times> Containerd" where
  "containerd_Resolve S c ref =
     with_client c (bind_result (cd_GetImage S ref) (\<lambda>cImg. Inr (desc_Digest (ci_Target cImg))))"

definition containerd_Size :: "Daemon \<Rightarrow> Containerd \<Rightarrow> digest \<Rightarrow> int result \<times> Containerd" where
  "containerd_Size S c dgst = with_client c (bind_result (cd_Info S dgst) (\<lambda>info. Inr (info_Size info)))"

definition isImageConfig :: "OciImage \<Rightarrow> bool" where
  "isImageConfig ic =
     (if ic_Architecture ic = [] then False
      else if ic_OS ic = [] then False
      else if ic_RootFSType ic = [] then False
      else True)"

text \<open>
  The verb \<open>%q\<close> for a string: quotes and backslashes are escaped, control bytes are written as
  escape sequences; bytes from 128 on are copied.
\<close>

definition hex_digit :: "nat \<Rightarrow> char" where
  "hex_digit n = ''0123456789abcdef'' ! n"

definition quote_byte :: "char \<Rightarrow> string" where
  "quote_byte c =
     (let n = of_char c :: nat in
      if c = CHR 0x22 \<or> c = CHR 0x5C then [CHR 0x5C, c]
      else if n = 7 then [CHR 0x5C, CHR ''a''] else if n = 8 then [CHR 0x5C, CHR ''b'']
      else if n = 9 then [CHR 0x5C, CHR ''t''] else if n = 10 then [CHR 0x5C, CHR ''n'']
      else if n = 11 then [CHR 0x5C, CHR ''v''] else if n = 12 then [CHR 0x5C, CHR ''f'']
      else if n = 13 then [CHR 0x5C, CHR ''r'']
      else if n < 32 \<or> n = 127 then [CHR 0x5C, CHR ''x'', hex_digit (n div 16), hex_digit (n mod 16)]
      else [c])"

definition fmt_q :: "string \<Rightarrow> string" where
  "fmt_q s = [CHR 0x22] @ concat (map quote_byte s) @ [CHR 0x22]"

fun getContentFilter :: "(string \<times> string) list \<Rightarrow> string result" where
  "getContentFilter [] = Inl (Err ''could not find distribution label to create content filter'')"
| "getContentFilter ((k, v) # labels) =
     (if \<not> str_HasPrefix k ''containerd.io/distribution.source'' then getContentFilter labels
      else Inr (''labels.'' @ fmt_q k @ ''=='' @ v))"

text \<open>
  The walk that looks for content with a label whose value is the digest: the handler stops it
  with \<^const>\<open>SkipAll\<close>, which is the error the walk then returns.
\<close>

definition find_parent :: "Info list \<times> error option \<Rightarrow> digest \<Rightarrow> digest \<times> error option" where
  "find_parent content dgst =
     (case find (\<lambda>info. dgst \<in> snd ` set (info_Labels info)) (fst content) of
        Some info \<Rightarrow> (info_Digest info, Some SkipAll)
      | None \<Rightarrow> ([], snd content))"

text \<open>The media type under which a parent document refers to a digest.\<close>

definition referenced_media_type :: "Decoders \<Rightarrow> string \<Rightarrow> digest \<Rightarrow> string result" where
  "referenced_media_type J b dgst =
     bind_result (js_Index J b) (\<lambda>idx.
       case find (\<lambda>desc. desc_Digest desc = dgst) (idx_Manifests idx) of
         Some desc \<Rightarrow> Inr (desc_MediaType desc)
       | None \<Rightarrow>
           bind_result (js_Manifest J b) (\<lambda>manifest.
             if desc_Digest (mf_Config manifest) = dgst then Inr (desc_MediaType (mf_Config manifest))
             else
               (case find (\<lambda>layer. desc_Digest layer = dgst) (mf_Layers manifest) of
                  Some layer \<Rightarrow> Inr (desc_MediaType layer)
                | None \<Rightarrow> Inl (Err ''could not find reference in parent''))))"

text \<open>The media type of content that is no target of an image, by way of its parent document.\<close>

definition parent_media_type :: "Daemon \<Rightarrow> Decoders \<Rightarrow> digest \<Rightarrow> string result" where
  "parent_media_type S J dgst =
     bind_result (cd_Info S dgst) (\<lambda>info.
       bind_result (getContentFilter (info_Labels info)) (\<lambda>content_filter.
         let (parentDgst, err) = find_parent (cd_Walk S content_filter) dgst in
         if err \<noteq> None \<and> \<not> errors_Is (the err) SkipAll then Inl (the err)
         else if parentDgst = [] then Inl (Err ''could not find parent'')
         else bind_result (cd_ReadBlob S parentDgst) (\<lambda>b. referenced_media_type J b dgst)))"

definition lookupMediaType :: "Daemon \<Rightarrow> Decoders \<Rightarrow> Containerd \<Rightarrow> digest \<Rightarrow> string result \<times> Containerd" where
  "lookupMediaType S J c dgst =
     with_client c
       (bind_result (cd_ImageServiceList S (''target.digest=='' @ dgst)) (\<lambda>images.
          if length images > 0 then Inr (desc_MediaType (ci_Target (images ! 0)))
          else parent_media_type S J dgst))"

definition containerd_GetManifest :: "Daemon \<Rightarrow> Decoders \<Rightarrow> Containerd \<Rightarrow> digest \<Rightarrow> (string \<times> string) result \<times> Containerd" where
  "containerd_GetManifest S J c dgst =
     (let (client, c') = containerd_Client c in
      (case client of
         Inl err \<Rightarrow> (Inl err, c')
       | Inr _ \<Rightarrow>
           (case cd_ReadBlob S dgst of
              Inl err \<Rightarrow> (Inl err, c')
            | Inr b \<Rightarrow>
                (case js_UnknownDocument J b of
                   Inl err \<Rightarrow> (Inl err, c')
                 | Inr ud \<Rightarrow>
                     if ud_MediaType ud \<noteq> [] then (Inr (b, ud_MediaType ud), c')
                     else
                       (case js_Image J b of
                          Inl err \<Rightarrow> (Inl err, c')
                        | Inr ic \<Rightarrow>
                            if isImageConfig ic then (Inr (b, MediaTypeImageConfig), c')
                            else
                              (case lookupMediaType S J c' dgst of
                                 (Inl err, c'') \<Rightarrow> (Inl (Wrap (''could not get media type for '' @ dgst @ '': '') err), c'')
                               | (Inr mt, c'') \<Rightarrow> (Inr (b, mt), c'')))))))"

text \<open>\<open>filepath.Join\<close> is \<open>path.Join\<close> on the systems the program runs on.\<close>

definition containerd_GetBlob :: "Daemon \<Rightarrow> Decoders \<Rightarrow> Containerd \<Rightarrow> digest \<Rightarrow> reader result \<times> Containerd" where
  "containerd_GetBlob S J c dgst =
     (if ct_contentPath c \<noteq> [] then
        (cd_Open S (path_Join [ct_contentPath c, ''blobs'', dg_Algorithm J dgst, dg_Encoded J dgst]), c)
      else with_client c (cd_Reader S dgst))"

text \<open>The operations as an OCI client, for a walk that returns.\<close>

definition containerd_client :: "walker \<Rightarrow> Daemon \<Rightarrow> Decoders \<Rightarrow> Containerd \<Rightarrow> Client" where
  "containerd_client walk S J c =
     \<lparr>cl_Name = containerd_Name,
      cl_Verify = (case fst (containerd_Verify S J c) of Inl err \<Rightarrow> Some err | Inr _ \<Rightarrow> None),
      cl_Subscribe = (case fst (containerd_Subscribe c []) of Inl err \<Rightarrow> Some err | Inr _ \<Rightarrow> None),
      cl_ListImages = fst (containerd_ListImages S c),
      cl_AllIdentifiers =
        (\<lambda>img. case containerd_AllIdentifiers walk S J c img of
                 Some (r, _) \<Rightarrow> r | None \<Rightarrow> Inl (Err ''walk does not return'')),
      cl_Resolve = (\<lambda>ref. fst (containerd_Resolve S c ref)),
      cl_Size = (\<lambda>dgst. fst (containerd_Size S c dgst)),
      cl_GetManifest = (\<lambda>dgst. fst (containerd_GetManifest S J c dgst)),
      cl_GetBlob = (\<lambda>dgst. fst (containerd_GetBlob S J c dgst))\<rparr>"

section \<open>Basic facts\<close>

lemma with_client_connected:
  assumes "ct_client c \<or> ct_clientGetter c = None"
  shows "with_client c body = (body, c\<lparr>ct_client := True\<rparr>)" and "containerd_Client c = (Inr (), c\<lparr>ct_client := True\<rparr>)"
  using assms by (auto simp: with_client_def containerd_Client_def)

lemma with_client_Inr: "with_client c body = (Inr a, c') \<Longrightarrow> body = Inr a"
  by (auto simp: with_client_def containerd_Client_def split: if_splits option.splits)

text \<open>
  The daemon is accepted exactly when its configuration is there and can be decoded, unpacked
  layers are kept, and the configured registry path is one of the paths of its list.
\<close>

theorem verifyStatusResponse_iff:
  "verifyStatusResponse J resp configPath = None \<longleftrightarrow>
     (\<exists>str cfg. resp ''config'' = Some str \<and> js_CriConfig J str = Inr cfg \<and> \<not> cri_DiscardUnpackedLayers cfg \<and>
        cri_ConfigPath cfg \<noteq> [] \<and> configPath \<in> set (str_SplitByte (cri_ConfigPath cfg) (CHR '':'')))"
  by (auto simp: verifyStatusResponse_def SplitList_def split: option.splits sum.splits)

lemma parse_images_iff:
  "parse_images cImgs = Inr imgs \<longleftrightarrow>
     list_all2 (\<lambda>cImg img. Parse (ci_Name cImg) (desc_Digest (ci_Target cImg)) = Inr img) cImgs imgs"
proof (induction cImgs arbitrary: imgs)
  case (Cons cImg cImgs)
  then show ?case by (auto simp: go_result list_all2_Cons1)
qed auto

text \<open>
  Listing images is all or nothing: it succeeds exactly when every image of the daemon that
  the filter selects can be parsed, and then gives one well-formed image for each, in order, with
  the name and the digest that the daemon has for it.
\<close>

theorem ListImages_all_or_nothing:
  assumes "ct_client c \<or> ct_clientGetter c = None" and "cd_ListImages S (ct_listFilter c) = Inr cImgs"
    and "\<forall>cImg \<in> set cImgs. desc_Digest (ci_Target cImg) \<noteq> []"
  shows "(is_ok (fst (containerd_ListImages S c)) \<longleftrightarrow>
      (\<forall>cImg \<in> set cImgs. is_ok (Parse (ci_Name cImg) (desc_Digest (ci_Target cImg))))) \<and>
    (\<forall>imgs. fst (containerd_ListImages S c) = Inr imgs \<longrightarrow>
      list_all2 (\<lambda>cImg img. image_ok img \<and> img_Name img = ci_Name cImg \<and> img_Digest img = desc_Digest (ci_Target cImg)) cImgs imgs)"
proof -
  have eq: "fst (containerd_ListImages S c) = parse_images cImgs"
    by (simp add: containerd_ListImages_def with_client_connected(1) [OF assms(1)] assms(2))
  have "is_ok (parse_images cImgs) \<longleftrightarrow> (\<forall>cImg \<in> set cImgs. is_ok (Parse (ci_Name cImg) (desc_Digest (ci_Target cImg))))"
    by (induction cImgs) (auto simp: is_ok_def bind_result_def split: sum.splits)
  moreover have "list_all2 (\<lambda>cImg img. image_ok img \<and> img_Name img = ci_Name cImg \<and>
      img_Digest img = desc_Digest (ci_Target cImg)) cImgs imgs" if "parse_images cImgs = Inr imgs" for imgs
    using that [unfolded parse_images_iff] assms(3)
    by (auto simp: list_all2_conv_all_nth dest!: Parse_Inr)
  ultimately show ?thesis by (simp add: eq)
qed



section \<open>The walk over the descriptors\<close>

text \<open>
  The documented behaviour of \<open>images.Walk\<close>: the handler is called for each descriptor, its
  children are visited before the next one, and the first error ends the walk.
\<close>

definition walk_law :: "walker \<Rightarrow> bool" where
  "walk_law walk \<longleftrightarrow>
     (\<forall>h s. walk h [] s = Some (None, s)) \<and>
     (\<forall>h d ds s. walk h (d # ds) s =
        (case h d s of
           (Inl e, s') \<Rightarrow> Some (Some e, s')
         | (Inr cs, s') \<Rightarrow>
             (case walk h cs s' of
                None \<Rightarrow> None
              | Some (Some e, s'') \<Rightarrow> Some (Some e, s'')
              | Some (None, s'') \<Rightarrow> walk h ds s'')))"

lemma walk_Nil: "walk_law walk \<Longrightarrow> walk h [] s = Some (None, s)"
  by (simp add: walk_law_def)

lemma walk_Cons:
  "walk_law walk \<Longrightarrow> h d s = (Inr cs, s') \<Longrightarrow> walk h cs s' = Some (None, s'') \<Longrightarrow> walk h (d # ds) s = walk h ds s''"
  by (simp add: walk_law_def)

text \<open>The keys of an image manifest, and a manifest that is completely in the store.\<close>

definition manifest_keys :: "Descriptor \<Rightarrow> Manifest \<Rightarrow> string list" where
  "manifest_keys m mf = desc_Digest m # desc_Digest (mf_Config mf) # map desc_Digest (mf_Layers mf)"

definition stored_manifest :: "Daemon \<Rightarrow> Decoders \<Rightarrow> Descriptor \<Rightarrow> Manifest \<Rightarrow> bool" where
  "stored_manifest S J m mf \<longleftrightarrow> is_manifest_type (desc_MediaType m) \<and>
     (case cd_ReadBlob S (desc_Digest m) of Inl _ \<Rightarrow> False | Inr b \<Rightarrow> js_Manifest J b = Inr mf)"

lemma index_not_manifest: "is_manifest_type mt \<Longrightarrow> \<not> is_index_type mt"
  by (auto simp: is_manifest_type_def is_index_type_def MediaTypeDockerSchema2ManifestList_def MediaTypeImageIndex_def
      MediaTypeDockerSchema2Manifest_def MediaTypeImageManifest_def)

lemma walk_manifests:
  assumes "walk_law walk" and "\<forall>m \<in> set ms. stored_manifest S J m (mf m)"
  shows "walk (identifiers_handler S J) ms keys = Some (None, keys @ concat (map (\<lambda>m. manifest_keys m (mf m)) ms))"
  using assms(2)
proof (induction ms arbitrary: keys)
  case Nil
  then show ?case using walk_Nil [OF assms(1)] by simp
next
  case (Cons m ms)
  then have "identifiers_handler S J m keys = (Inr [], keys @ manifest_keys m (mf m))"
    using index_not_manifest [of "desc_MediaType m"]
    by (auto simp: stored_manifest_def identifiers_handler_def manifest_keys_def Let_def split: sum.splits)
  from walk_Cons [where h = "identifiers_handler S J", OF assms(1) this walk_Nil [OF assms(1)]] Cons show ?case by simp
qed

lemma AllIdentifiers_walk:
  assumes "walk_law walk" and "ct_client c \<or> ct_clientGetter c = None"
    and "cd_ImageServiceGet S (img_Name img) = Inr cImg"
    and "is_index_type (desc_MediaType (ci_Target cImg)) \<longrightarrow>
      (\<exists>b. cd_ReadBlob S (desc_Digest (ci_Target cImg)) = Inr b \<and> js_Index J b = Inr idx) \<and>
      platforms = filter (\<lambda>m. is_ok (cd_Info S (desc_Digest m))) (idx_Manifests idx) \<and> platforms \<noteq> []"
    and "\<not> is_index_type (desc_MediaType (ci_Target cImg)) \<longrightarrow> platforms = [ci_Target cImg]"
    and "\<forall>m \<in> set platforms. stored_manifest S J m (mf m)"
  shows "\<exists>c'. containerd_AllIdentifiers walk S J c img =
    Some (Inr ((if is_index_type (desc_MediaType (ci_Target cImg)) then [desc_Digest (ci_Target cImg)] else []) @
      concat (map (\<lambda>m. manifest_keys m (mf m)) platforms)), c')"
proof -
  let ?h = "identifiers_handler S J" and ?t = "ci_Target cImg"
  let ?keys = "(if is_index_type (desc_MediaType ?t) then [desc_Digest ?t] else []) @
      concat (map (\<lambda>m. manifest_keys m (mf m)) platforms)"
  have walk: "walk ?h [?t] [] = Some (None, ?keys)"
  proof (cases "is_index_type (desc_MediaType ?t)")
    case True
    with assms(4) have "?h ?t [] = (Inr platforms, [desc_Digest ?t])"
      by (auto simp: identifiers_handler_def Let_def)
    moreover have "walk ?h platforms [desc_Digest ?t] = Some (None, ?keys)"
      using walk_manifests [OF assms(1,6), of "[desc_Digest ?t]"] True by simp
    ultimately show ?thesis using walk_Cons [OF assms(1)] walk_Nil [OF assms(1)] by fastforce
  next
    case False
    with walk_manifests [OF assms(1,6), of "[]"] assms(5) show ?thesis by simp
  qed
  have "?keys \<noteq> []" using assms(5) by (auto simp: manifest_keys_def)
  with walk assms(2,3) show ?thesis
    by (auto simp: containerd_AllIdentifiers_def with_client_connected(2))
qed

text \<open>
  C20. The identifiers of an image: for a manifest list, its digest and then, for every platform
  whose manifest is in the local store and only for those, the digests of the manifest, of its
  configuration and of its layers, in the order of the documents; for a single manifest, the same
  for the manifest alone.
\<close>

theorem AllIdentifiers_complete:
  assumes "walk_law walk" and "ct_client c \<or> ct_clientGetter c = None"
    and "cd_ImageServiceGet S (img_Name img) = Inr cImg"
    and "is_index_type (desc_MediaType (ci_Target cImg)) \<longrightarrow>
      (\<exists>b. cd_ReadBlob S (desc_Digest (ci_Target cImg)) = Inr b \<and> js_Index J b = Inr idx) \<and>
      platforms = filter (\<lambda>m. is_ok (cd_Info S (desc_Digest m))) (idx_Manifests idx) \<and> platforms \<noteq> []"
    and "\<not> is_index_type (desc_MediaType (ci_Target cImg)) \<longrightarrow> platforms = [ci_Target cImg]"
    and "\<forall>m \<in> set platforms. stored_manifest S J m (mf m)"
  shows "\<exists>c'. containerd_AllIdentifiers walk S J c img =
    Some (Inr ((if is_index_type (desc_MediaType (ci_Target cImg)) then [desc_Digest (ci_Target cImg)] else []) @
      concat (map (\<lambda>m. manifest_keys m (mf m)) platforms)), c')"
  by (rule AllIdentifiers_walk [OF assms])

text \<open>A walk with that behaviour, and a store with one image: a list of a local and a missing platform.\<close>

partial_function (option) depth_first ::
  "(Descriptor \<Rightarrow> string list \<Rightarrow> Descriptor list result \<times> string list) \<Rightarrow> Descriptor list \<Rightarrow> string list \<Rightarrow>
   (error option \<times> string list) option" where
  "depth_first h ds s =
     (if ds = [] then Some (None, s)
      else
        let r = h (hd ds) s in
        if is_ok (fst r) then
          Option.bind (depth_first h (projr (fst r)) (snd r)) (\<lambda>x.
            if fst x = None then depth_first h (tl ds) (snd x) else Some x)
        else Some (Some (projl (fst r)), snd r))"

lemma depth_first_law: "walk_law depth_first"
  unfolding walk_law_def
proof (intro conjI allI)
  fix h :: "Descriptor \<Rightarrow> string list \<Rightarrow> Descriptor list result \<times> string list" and d ds s
  show "depth_first h [] s = Some (None, s)" by (simp add: depth_first.simps)
  show "depth_first h (d # ds) s =
        (case h d s of
           (Inl e, s') \<Rightarrow> Some (Some e, s')
         | (Inr cs, s') \<Rightarrow>
             (case depth_first h cs s' of
                None \<Rightarrow> None
              | Some (Some e, s'') \<Rightarrow> Some (Some e, s'')
              | Some (None, s'') \<Rightarrow> depth_first h ds s''))"
    by (subst depth_first.simps) (auto simp: Let_def is_ok_def split: prod.splits sum.splits option.splits Option.bind_splits)
qed

definition example_index :: Descriptor where
  "example_index = \<lparr>desc_MediaType = MediaTypeImageIndex, desc_Digest = ''sha256:i''\<rparr>"

definition example_daemon :: Daemon where
  "example_daemon =
     \<lparr>cd_IsServing = Inr True, cd_Status = Inr Map.empty,
      cd_ListImages = (\<lambda>f. Inr [\<lparr>ci_Name = ''docker.io/library/alpine:3'', ci_Target = example_index\<rparr>]),
      cd_GetImage = (\<lambda>n. Inr \<lparr>ci_Name = n, ci_Target = example_index\<rparr>),
      cd_ImageServiceGet = (\<lambda>n. Inr \<lparr>ci_Name = n, ci_Target = example_index\<rparr>),
      cd_ImageServiceList = (\<lambda>f. Inr []),
      cd_Info = (\<lambda>d. if d = ''sha256:m'' then Inr \<lparr>info_Digest = d, info_Size = 1, info_Labels = []\<rparr> else Inl ErrNotExist),
      cd_ReadBlob = (\<lambda>d. Inr d), cd_Reader = (\<lambda>d. Inr ([d], None)), cd_Walk = (\<lambda>f. ([], None)),
      cd_Open = (\<lambda>p. Inl ErrNotExist)\<rparr>"

definition example_decoders :: Decoders where
  "example_decoders =
     \<lparr>js_UnknownDocument = (\<lambda>b. Inr \<lparr>ud_MediaType = MediaTypeImageManifest\<rparr>),
      js_Image = (\<lambda>b. Inr \<lparr>ic_Architecture = [], ic_OS = [], ic_RootFSType = []\<rparr>),
      js_Index = (\<lambda>b. Inr \<lparr>idx_Manifests = [\<lparr>desc_MediaType = MediaTypeImageManifest, desc_Digest = ''sha256:m''\<rparr>,
                                          \<lparr>desc_MediaType = MediaTypeImageManifest, desc_Digest = ''sha256:n''\<rparr>]\<rparr>),
      js_Manifest = (\<lambda>b. Inr \<lparr>mf_Config = \<lparr>desc_MediaType = MediaTypeImageConfig, desc_Digest = ''sha256:c''\<rparr>,
                             mf_Layers = [\<lparr>desc_MediaType = ''layer'', desc_Digest = ''sha256:l''\<rparr>]\<rparr>),
      js_CriConfig = (\<lambda>s. Inr \<lparr>cri_ConfigPath = s, cri_DiscardUnpackedLayers = False\<rparr>),
      dg_Algorithm = (\<lambda>d. ''sha256''), dg_Encoded = (\<lambda>d. drop 7 d)\<rparr>"

definition example_containerd :: Containerd where
  "example_containerd = NewContainerd None ''/etc/containerd/certs.d'' [] []"

lemma example_connected: "ct_client example_containerd \<or> ct_clientGetter example_containerd = None"
  by (simp add: example_containerd_def NewContainerd_def createFilters_def Let_def)

theorem AllIdentifiers_complete_witness:
  "\<exists>c'. containerd_AllIdentifiers depth_first example_daemon example_decoders example_containerd
      \<lparr>img_Name = ''docker.io/library/alpine:3'', img_Registry = ''docker.io'', img_Repository = ''library/alpine'',
       img_Tag = ''3'', img_Digest = ''sha256:i''\<rparr> =
    Some (Inr [''sha256:i'', ''sha256:m'', ''sha256:c'', ''sha256:l''], c')"
proof -
  let ?img = "\<lparr>img_Name = ''docker.io/library/alpine:3'', img_Registry = ''docker.io'', img_Repository = ''library/alpine'',
       img_Tag = ''3'', img_Digest = ''sha256:i''\<rparr>"
  let ?cImg = "\<lparr>ci_Name = ''docker.io/library/alpine:3'', ci_Target = example_index\<rparr>"
  let ?m = "\<lparr>desc_MediaType = MediaTypeImageManifest, desc_Digest = ''sha256:m''\<rparr>"
  let ?mf = "\<lparr>mf_Config = \<lparr>desc_MediaType = MediaTypeImageConfig, desc_Digest = ''sha256:c''\<rparr>,
                             mf_Layers = [\<lparr>desc_MediaType = ''layer'', desc_Digest = ''sha256:l''\<rparr>]\<rparr>"
  let ?idx = "\<lparr>idx_Manifests = [?m, \<lparr>desc_MediaType = MediaTypeImageManifest, desc_Digest = ''sha256:n''\<rparr>]\<rparr>"
  have index: "is_index_type (desc_MediaType (ci_Target ?cImg))" by (simp add: example_index_def is_index_type_def)
  have get: "cd_ImageServiceGet example_daemon (img_Name ?img) = Inr ?cImg" by (simp add: example_daemon_def)
  have platforms: "is_index_type (desc_MediaType (ci_Target ?cImg)) \<longrightarrow>
      (\<exists>b. cd_ReadBlob example_daemon (desc_Digest (ci_Target ?cImg)) = Inr b \<and> js_Index example_decoders b = Inr ?idx) \<and>
      [?m] = filter (\<lambda>m. is_ok (cd_Info example_daemon (desc_Digest m))) (idx_Manifests ?idx) \<and> [?m] \<noteq> []"
    by (simp add: example_daemon_def example_decoders_def)
  have manifests: "\<forall>m \<in> set [?m]. stored_manifest example_daemon example_decoders m ?mf"
    by (simp add: stored_manifest_def example_daemon_def example_decoders_def is_manifest_type_def)
  from AllIdentifiers_complete [OF depth_first_law example_connected get platforms _ manifests] index
  show ?thesis by (simp add: manifest_keys_def example_index_def)
qed

theorem ListImages_all_or_nothing_witness:
  "is_ok (fst (containerd_ListImages example_daemon example_containerd)) \<longleftrightarrow>
     is_ok (Parse ''docker.io/library/alpine:3'' ''sha256:i'')"
proof -
  have list: "cd_ListImages example_daemon (ct_listFilter example_containerd) =
      Inr [\<lparr>ci_Name = ''docker.io/library/alpine:3'', ci_Target = example_index\<rparr>]" by (simp add: example_daemon_def)
  have "\<forall>cImg \<in> set [\<lparr>ci_Name = ''docker.io/library/alpine:3'', ci_Target = example_index\<rparr>].
      desc_Digest (ci_Target cImg) \<noteq> []" by (simp add: example_index_def)
  from ListImages_all_or_nothing [OF example_connected list this] show ?thesis by (simp add: example_index_def)
qed

section \<open>Media types\<close>

lemma find_SomeD: "find P xs = Some x \<Longrightarrow> x \<in> set xs \<and> P x"
  by (auto simp: find_Some_iff)

text \<open>A document (an index or an image manifest) that refers to a descriptor.\<close>

definition document_refers :: "Decoders \<Rightarrow> string \<Rightarrow> Descriptor \<Rightarrow> bool" where
  "document_refers J b desc \<longleftrightarrow>
     (case js_Index J b of Inl _ \<Rightarrow> False | Inr idx \<Rightarrow> desc \<in> set (idx_Manifests idx)) \<or>
     (case js_Manifest J b of Inl _ \<Rightarrow> False | Inr mf \<Rightarrow> desc \<in> insert (mf_Config mf) (set (mf_Layers mf)))"

lemma referenced_media_type_sound:
  assumes "referenced_media_type J b dgst = Inr mt"
  shows "\<exists>desc. desc_Digest desc = dgst \<and> desc_MediaType desc = mt \<and> document_refers J b desc"
proof -
  from assms obtain idx where idx: "js_Index J b = Inr idx" by (auto simp: referenced_media_type_def go_result)
  show ?thesis
  proof (cases "find (\<lambda>desc. desc_Digest desc = dgst) (idx_Manifests idx)")
    case (Some desc)
    with assms idx find_SomeD [OF Some] show ?thesis by (auto simp: referenced_media_type_def document_refers_def)
  next
    case None
    with assms idx obtain mf where mf: "js_Manifest J b = Inr mf" by (auto simp: referenced_media_type_def go_result)
    show ?thesis
    proof (cases "desc_Digest (mf_Config mf) = dgst")
      case True
      with assms idx None mf show ?thesis by (auto simp: referenced_media_type_def document_refers_def)
    next
      case False
      with assms idx None mf obtain layer where
        "find (\<lambda>layer. desc_Digest layer = dgst) (mf_Layers mf) = Some layer" "desc_MediaType layer = mt"
        by (auto simp: referenced_media_type_def split: option.splits)
      with find_SomeD mf show ?thesis by (fastforce simp: document_refers_def)
    qed
  qed
qed

lemma parent_media_type_sound:
  assumes "parent_media_type S J dgst = Inr mt"
  shows "\<exists>parent b. cd_ReadBlob S parent = Inr b \<and> referenced_media_type J b dgst = Inr mt"
proof -
  from assms obtain info f where "cd_Info S dgst = Inr info" "getContentFilter (info_Labels info) = Inr f"
    by (auto simp: parent_media_type_def bind_result_eq_Inr)
  with assms show ?thesis
    by (cases "find_parent (cd_Walk S f) dgst")
      (auto simp: parent_media_type_def bind_result_eq_Inr split: if_splits)
qed

lemma lookupMediaType_sound:
  assumes "lookupMediaType S J c dgst = (Inr mt, c')"
  shows "(\<exists>imgs. cd_ImageServiceList S (''target.digest=='' @ dgst) = Inr imgs \<and> imgs \<noteq> [] \<and>
      mt = desc_MediaType (ci_Target (imgs ! 0))) \<or>
    (\<exists>parent b. cd_ReadBlob S parent = Inr b \<and> referenced_media_type J b dgst = Inr mt)"
  using with_client_Inr [OF assms [unfolded lookupMediaType_def]] parent_media_type_sound
  by (auto simp: bind_result_eq_Inr split: if_splits)



end
