(* ===== verification/Mirror_Config.thy ===== *)
theory Mirror_Config
  imports Go_Url Go_Http
begin

text \<open>
  The mirror configuration of containerd in \<open>pkg/oci/containerd.go\<close>: backing up, clearing and
  writing the files \<open>hosts.toml\<close> below the configuration directory. The file system
  (\<open>afero.Fs\<close>) and the TOML encoding are parameters.
\<close>

section \<open>Parameters\<close>

text \<open>
  The operations of a file system on its state \<open>'f\<close>, with the error they return. \<open>fs_ReadDir\<close>
  gives the names in a directory.
\<close>

record 'f Fs =
  fs_MkdirAll :: "'f \<Rightarrow> string \<Rightarrow> error option \<times> 'f"
  fs_Stat :: "'f \<Rightarrow> string \<Rightarrow> error option"
  fs_ReadDir :: "'f \<Rightarrow> string \<Rightarrow> string list result"
  fs_Rename :: "'f \<Rightarrow> string \<Rightarrow> string \<Rightarrow> error option \<times> 'f"
  fs_RemoveAll :: "'f \<Rightarrow> string \<Rightarrow> error option \<times> 'f"
  fs_ReadFile :: "'f \<Rightarrow> string \<Rightarrow> string result"
  fs_WriteFile :: "'f \<Rightarrow> string \<Rightarrow> string \<Rightarrow> error option \<times> 'f"

text \<open>
  A host configuration; \<open>'v\<close> stands for TOML values of any type. The map of host configurations
  is nil (\<^const>\<open>None\<close>) in a file that has none.
\<close>

record 'v hostConfig =
  hc_CACert :: "'v option"
  hc_Client :: "'v option"
  hc_OverridePath :: "bool option"
  hc_SkipVerify :: "bool option"
  hc_Header :: "(string \<rightharpoonup> 'v) option"
  hc_Capabilities :: "string list"

record 'v hostFile =
  hf_HostConfigs :: "(string \<rightharpoonup> 'v hostConfig) option"
  hf_Server :: string

record 'v Toml =
  toml_Marshal :: "'v hostFile \<Rightarrow> string result"
  toml_Unmarshal :: "string \<Rightarrow> 'v hostFile result"

section \<open>Operations\<close>

definition backupDir :: string where "backupDir = ''_backup''"

definition os_IsNotExist :: "error \<Rightarrow> bool" where
  "os_IsNotExist e = (e = ErrNotExist)"

text \<open>\<open>path.Dir\<close>: everything before the last slash, cleaned.\<close>

definition path_Dir :: "string \<Rightarrow> string" where
  "path_Dir p = path_Clean (case str_LastIndexByte p (CHR ''/'') of None \<Rightarrow> [] | Some i \<Rightarrow> take (i + 1) p)"

definition registry_errors :: "URL \<Rightarrow> error list" where
  "registry_errors u =
     (if url_Scheme u \<noteq> ''http'' \<and> url_Scheme u \<noteq> ''https''
      then [Err (''invalid registry url scheme must be http or https: '' @ url_String u)] else []) @
     (if url_Path u \<noteq> [] then [Err (''invalid registry url path has to be empty: '' @ url_String u)] else []) @
     (if ParseQuery (url_RawQuery u) \<noteq> [] then [Err (''invalid registry url query has to be empty: '' @ url_String u)] else []) @
     (if url_User u \<noteq> None then [Err (''invalid registry url user has to be empty: '' @ url_String u)] else [])"

definition validateRegistries :: "URL list \<Rightarrow> error option" where
  "validateRegistries urls = errors_Join (concat (map registry_errors urls))"

fun backup_files :: "'f Fs \<Rightarrow> 'f \<Rightarrow> string \<Rightarrow> string \<Rightarrow> string list \<Rightarrow> error option \<times> 'f" where
  "backup_files F f configPath backupDirPath [] = (None, f)"
| "backup_files F f configPath backupDirPath (name # names) =
     (case fs_Rename F f (path_Join [configPath, name]) (path_Join [backupDirPath, name]) of
        (Some err, f') \<Rightarrow> (Some err, f')
      | (None, f') \<Rightarrow> backup_files F f' configPath backupDirPath names)"

definition backupConfig :: "'f Fs \<Rightarrow> 'f \<Rightarrow> string \<Rightarrow> error option \<times> 'f" where
  "backupConfig F f configPath =
     (let backupDirPath = path_Join [configPath, backupDir] in
      case fs_Stat F f backupDirPath of
        None \<Rightarrow> (None, f)
      | Some err \<Rightarrow>
          if \<not> os_IsNotExist err then (Some err, f)
          else
            (case fs_ReadDir F f configPath of
               Inl err \<Rightarrow> (Some err, f)
             | Inr files \<Rightarrow>
                 if length files = 0 then (None, f)
                 else
                   (case fs_MkdirAll F f backupDirPath of
                      (Some err, f') \<Rightarrow> (Some err, f')
                    | (None, f') \<Rightarrow> backup_files F f' configPath backupDirPath files)))"

fun clear_files :: "'f Fs \<Rightarrow> 'f \<Rightarrow> string \<Rightarrow> string list \<Rightarrow> error option \<times> 'f" where
  "clear_files F f configPath [] = (None, f)"
| "clear_files F f configPath (name # names) =
     (if name = backupDir then clear_files F f configPath names
      else
        (case fs_RemoveAll F f (path_Join [configPath, name]) of
           (Some err, f') \<Rightarrow> (Some err, f')
         | (None, f') \<Rightarrow> clear_files F f' configPath names))"

definition clearConfig :: "'f Fs \<Rightarrow> 'f \<Rightarrow> string \<Rightarrow> error option \<times> 'f" where
  "clearConfig F f configPath =
     (case fs_ReadDir F f configPath of
        Inl err \<Rightarrow> (Some err, f)
      | Inr files \<Rightarrow> clear_files F f configPath files)"

text \<open>A host file for a registry that has none in the backup.\<close>

definition fresh_hostFile :: "URL \<Rightarrow> 'v hostFile" where
  "fresh_hostFile registryURL =
     \<lparr>hf_HostConfigs = Some Map.empty,
      hf_Server = (if url_String registryURL = ''https://docker.io'' then ''https://registry-1.docker.io''
                   else url_String registryURL)\<rparr>"

definition getHostFile :: "'f Fs \<Rightarrow> 'v Toml \<Rightarrow> 'f \<Rightarrow> string \<Rightarrow> bool \<Rightarrow> URL \<Rightarrow> ('v hostFile \<times> bool) result" where
  "getHostFile F T f configPath appendToBackup registryURL =
     (if appendToBackup then
        (case fs_ReadFile F f (path_Join [configPath, backupDir, url_Host registryURL, ''hosts.toml'']) of
           Inl err \<Rightarrow>
             if \<not> errors_Is err ErrNotExist then Inl err else Inr (fresh_hostFile registryURL, False)
         | Inr b \<Rightarrow> bind_result (toml_Unmarshal T b) (\<lambda>hf. Inr (hf, True)))
      else Inr (fresh_hostFile registryURL, False))"

definition mirror_hostConfig :: "string list \<Rightarrow> 'v hostConfig" where
  "mirror_hostConfig capabilities =
     \<lparr>hc_CACert = None, hc_Client = None, hc_OverridePath = None, hc_SkipVerify = None, hc_Header = None,
      hc_Capabilities = capabilities\<rparr>"

text \<open>Assigning the host configurations of the mirrors; assigning to a nil map panics.\<close>

fun add_mirrors :: "'v hostFile \<Rightarrow> string list \<Rightarrow> URL list \<Rightarrow> 'v hostFile outcome" where
  "add_mirrors hf capabilities [] = Done hf"
| "add_mirrors hf capabilities (u # mirrorURLs) =
     (case hf_HostConfigs hf of
        None \<Rightarrow> Panic ''assignment to entry in nil map''
      | Some m \<Rightarrow>
          add_mirrors (hf\<lparr>hf_HostConfigs := Some (m(url_String u \<mapsto> mirror_hostConfig capabilities))\<rparr>) capabilities mirrorURLs)"

definition host_path :: "string \<Rightarrow> URL \<Rightarrow> string" where
  "host_path configPath registryURL = path_Join [configPath, url_Host registryURL, ''hosts.toml'']"

fun write_configs ::
  "'f Fs \<Rightarrow> 'v Toml \<Rightarrow> 'f \<Rightarrow> string \<Rightarrow> URL list \<Rightarrow> string list \<Rightarrow> bool \<Rightarrow> URL list \<Rightarrow> error option outcome \<times> 'f" where
  "write_configs F T f configPath mirrorURLs capabilities appendToBackup [] = (Done None, f)"
| "write_configs F T f configPath mirrorURLs capabilities appendToBackup (registryURL # registryURLs) =
     (case getHostFile F T f configPath appendToBackup registryURL of
        Inl err \<Rightarrow> (Done (Some err), f)
      | Inr (hf, appending) \<Rightarrow>
          (case add_mirrors hf capabilities mirrorURLs of
             Panic p \<Rightarrow> (Panic p, f)
           | Done hf' \<Rightarrow>
               (case toml_Marshal T hf' of
                  Inl err \<Rightarrow> (Done (Some err), f)
                | Inr b \<Rightarrow>
                    (let fp = host_path configPath registryURL in
                     case fs_MkdirAll F f (path_Dir fp) of
                       (Some err, f1) \<Rightarrow> (Done (Some err), f1)
                     | (None, f1) \<Rightarrow>
                         (case fs_WriteFile F f1 fp b of
                            (Some err, f2) \<Rightarrow> (Done (Some err), f2)
                          | (None, f2) \<Rightarrow>
                              write_configs F T f2 configPath mirrorURLs capabilities appendToBackup registryURLs)))))"

definition mirror_capabilities :: "bool \<Rightarrow> string list" where
  "mirror_capabilities resolveTags = [''pull''] @ (if resolveTags then [''resolve''] else [])"

definition AddMirrorConfiguration ::
  "'f Fs \<Rightarrow> 'v Toml \<Rightarrow> 'f \<Rightarrow> string \<Rightarrow> URL list \<Rightarrow> URL list \<Rightarrow> bool \<Rightarrow> bool \<Rightarrow> error option outcome \<times> 'f" where
  "AddMirrorConfiguration F T f configPath registryURLs mirrorURLs resolveTags appendToBackup =
     (case validateRegistries registryURLs of
        Some err \<Rightarrow> (Done (Some err), f)
      | None \<Rightarrow>
          (case fs_MkdirAll F f configPath of
             (Some err, f1) \<Rightarrow> (Done (Some err), f1)
           | (None, f1) \<Rightarrow>
               (case backupConfig F f1 configPath of
                  (Some err, f2) \<Rightarrow> (Done (Some err), f2)
                | (None, f2) \<Rightarrow>
                    (case clearConfig F f2 configPath of
                       (Some err, f3) \<Rightarrow> (Done (Some err), f3)
                     | (None, f3) \<Rightarrow>
                         write_configs F T f3 configPath mirrorURLs (mirror_capabilities resolveTags) appendToBackup registryURLs))))"

section \<open>Paths\<close>

text \<open>
  A plain name is an element of a path that cleaning keeps; a clean path is absolute and consists
  of such names.
\<close>

definition plain_name :: "string \<Rightarrow> bool" where
  "plain_name n \<longleftrightarrow> n \<noteq> [] \<and> n \<noteq> ''.'' \<and> n \<noteq> ''..'' \<and> CHR ''/'' \<notin> set n"

definition abs_path :: "string list \<Rightarrow> string" where
  "abs_path es = concat (map ((@) ''/'') es)"

definition clean :: "string \<Rightarrow> bool" where
  "clean p \<longleftrightarrow> (\<exists>es. es \<noteq> [] \<and> (\<forall>e \<in> set es. plain_name e) \<and> p = abs_path es)"

lemma abs_path_simps [simp]:
  "abs_path [] = []" "abs_path (e # es) = ''/'' @ e @ abs_path es" "abs_path (es @ fs) = abs_path es @ abs_path fs"
  by (simp_all add: abs_path_def)

lemma abs_path_Join: "es \<noteq> [] \<Longrightarrow> abs_path es = ''/'' @ str_Join es ''/''"
  by (induction es "''/''" rule: str_Join.induct) auto

lemma clean_plain:
  "\<forall>e \<in> set es. plain_name e \<Longrightarrow> clean_elements rooted stack (es @ fs) = clean_elements rooted (rev es @ stack) fs"
  by (induction es arbitrary: stack) (auto simp: plain_name_def)

lemma split_abs_path:
  "\<forall>e \<in> set es. plain_name e \<Longrightarrow> CHR ''/'' \<notin> set d \<Longrightarrow>
   str_SplitByte (d @ abs_path es @ ''/'' @ t) (CHR ''/'') = d # es @ str_SplitByte t (CHR ''/'')"
proof (induction es arbitrary: d)
  case (Cons e es)
  then have "CHR ''/'' \<notin> set e" by (simp add: plain_name_def)
  with Cons show ?case by simp
qed simp

lemma split_abs_path_end:
  "\<forall>e \<in> set es. plain_name e \<Longrightarrow> CHR ''/'' \<notin> set d \<Longrightarrow> str_SplitByte (d @ abs_path es) (CHR ''/'') = d # es"
proof (induction es arbitrary: d)
  case (Cons e es)
  then have "CHR ''/'' \<notin> set e" by (simp add: plain_name_def)
  with Cons show ?case by simp
qed simp

lemma path_Clean_abs:
  assumes "es \<noteq> []" and "\<forall>e \<in> set es. plain_name e"
  shows "path_Clean (abs_path es) = abs_path es" and "path_Clean (abs_path es @ ''/'') = abs_path es"
proof -
  have pre: "prefix ''/'' (abs_path es @ t)" and nonempty: "abs_path es \<noteq> []" for t
    using assms(1) by (simp_all add: abs_path_Join)
  show "path_Clean (abs_path es) = abs_path es"
    using pre [of "[]"] nonempty clean_plain [OF assms(2), of True "[]" "[]"] split_abs_path_end [OF assms(2), of "[]"]
      abs_path_Join [OF assms(1)] by (simp add: path_Clean_def del: abs_path_simps)
  show "path_Clean (abs_path es @ ''/'') = abs_path es"
    using pre [of "''/''"] clean_plain [OF assms(2), of True "[]" "[[]]"] split_abs_path [OF assms(2), of "[]" "[]"]
      abs_path_Join [OF assms(1)] by (simp add: path_Clean_def del: abs_path_simps)
qed

lemma filter_plain: "\<forall>e \<in> set es. plain_name e \<Longrightarrow> filter (\<lambda>e. e \<noteq> []) es = es"
  by (induction es) (auto simp: plain_name_def)

lemma str_Join_abs: "es \<noteq> [] \<Longrightarrow> str_Join (abs_path es # ns) ''/'' = abs_path (es @ ns)"
  using abs_path_Join [of ns] by (cases ns) (simp_all add: str_Join_Cons)

lemma path_Join_clean:
  assumes "clean p" and "\<forall>n \<in> set ns. plain_name n"
  shows "path_Join (p # ns) = p @ abs_path ns"
proof -
  from assms(1) obtain es where es: "es \<noteq> []" "\<forall>e \<in> set es. plain_name e" "p = abs_path es"
    by (auto simp: clean_def)
  then have "p \<noteq> []" by (simp add: abs_path_Join)
  then have "path_Join (p # ns) = path_Clean (abs_path (es @ ns))"
    using str_Join_abs [OF es(1), of ns] filter_plain [OF assms(2)] by (simp add: path_Join_def es(3))
  also have "\<dots> = abs_path (es @ ns)" using es assms(2) by (intro path_Clean_abs) auto
  finally show ?thesis by (simp add: es(3))
qed

lemma clean_append: "clean p \<Longrightarrow> \<forall>n \<in> set ns. plain_name n \<Longrightarrow> clean (p @ abs_path ns)"
  unfolding clean_def by (metis (no_types, lifting) Un_iff abs_path_simps(3) append_is_Nil_conv set_append)

lemma clean_name: "clean p \<Longrightarrow> plain_name n \<Longrightarrow> clean (p @ ''/'' @ n)"
  using clean_append [of p "[n]"] by simp

lemma path_Dir_clean:
  assumes "clean p" and "plain_name n"
  shows "path_Dir (p @ ''/'' @ n) = p"
proof -
  from assms(2) have "str_LastIndexByte (p @ ''/'' @ n) (CHR ''/'') = Some (length p)"
    by (simp add: plain_name_def)
  then have "path_Dir (p @ ''/'' @ n) = path_Clean (p @ ''/'')" by (simp add: path_Dir_def)
  with assms(1) path_Clean_abs(2) show ?thesis by (auto simp: clean_def)
qed

lemma plain_backupDir: "plain_name backupDir"
  by (simp add: plain_name_def backupDir_def)

lemma plain_hosts: "plain_name ''hosts.toml''"
  by (simp add: plain_name_def)

text \<open>The path of a file or directory and everything below it.\<close>

definition below :: "string \<Rightarrow> string \<Rightarrow> bool" where
  "below p q \<longleftrightarrow> q = p \<or> prefix (p @ ''/'') q"

text \<open>The rest of a path after an element: empty, or a slash and more.\<close>

definition path_rest :: "string \<Rightarrow> bool" where
  "path_rest r \<longleftrightarrow> r = [] \<or> hd r = CHR ''/''"

lemma takeWhile_name:
  assumes "plain_name n" and "path_rest r"
  shows "takeWhile (\<lambda>c. c \<noteq> CHR ''/'') (n @ r) = n"
proof -
  have "\<forall>c \<in> set n. c \<noteq> CHR ''/''" using assms(1) by (auto simp: plain_name_def)
  with assms(2) show ?thesis by (cases r) (auto simp: path_rest_def takeWhile_append2)
qed

lemma below_name:
  assumes "plain_name m" and "plain_name n" and "path_rest r"
  shows "below (d @ ''/'' @ m) (d @ ''/'' @ n @ r) \<longleftrightarrow> m = n"
proof
  assume "below (d @ ''/'' @ m) (d @ ''/'' @ n @ r)"
  then have "n @ r = m \<or> prefix (m @ ''/'') (n @ r)" by (simp add: below_def)
  then obtain r' where "n @ r = m @ r'" "path_rest r'" by (auto simp: path_rest_def prefix_def)
  with takeWhile_name [OF assms(2,3)] takeWhile_name [OF assms(1), of r'] show "m = n" by simp
next
  assume "m = n"
  with assms(3) show "below (d @ ''/'' @ m) (d @ ''/'' @ n @ r)"
    by (cases r) (auto simp: below_def path_rest_def)
qed

section \<open>The behaviour of the file system\<close>

text \<open>
  What is relied on, over the contents of the regular files by their clean paths, in a file system
  without links: the documented effect of each operation that succeeds on a clean path, and that an
  operation that fails changes no more than one that succeeds. A failed renaming changes no file, a
  failed removal may have removed a part of what is below its path, a failed write may have left
  any content at its path.
\<close>

definition law_MkdirAll :: "'f Fs \<Rightarrow> ('f \<Rightarrow> string \<Rightarrow> string option) \<Rightarrow> bool" where
  "law_MkdirAll F file \<longleftrightarrow>
     (\<forall>f p e f'. clean p \<longrightarrow> fs_MkdirAll F f p = (e, f') \<longrightarrow>
        file f' = file f \<and> (\<forall>q. clean q \<longrightarrow> \<not> below q p \<longrightarrow> fs_Stat F f' q = fs_Stat F f q))"

definition law_WriteFile :: "'f Fs \<Rightarrow> ('f \<Rightarrow> string \<Rightarrow> string option) \<Rightarrow> bool" where
  "law_WriteFile F file \<longleftrightarrow>
     (\<forall>f p b e f'. clean p \<longrightarrow> fs_WriteFile F f p b = (e, f') \<longrightarrow>
        (e = None \<longrightarrow> file f' p = Some b) \<and> (\<forall>x. x \<noteq> p \<longrightarrow> file f' x = file f x))"

definition law_RemoveAll :: "'f Fs \<Rightarrow> ('f \<Rightarrow> string \<Rightarrow> string option) \<Rightarrow> bool" where
  "law_RemoveAll F file \<longleftrightarrow>
     (\<forall>f p e f'. clean p \<longrightarrow> fs_RemoveAll F f p = (e, f') \<longrightarrow>
        (\<forall>x. below p x \<longrightarrow> e = None \<longrightarrow> file f' x = None) \<and> (\<forall>x. \<not> below p x \<longrightarrow> file f' x = file f x))"

definition renamed :: "(string \<Rightarrow> string option) \<Rightarrow> string \<Rightarrow> string \<Rightarrow> string \<Rightarrow> string option" where
  "renamed m p q x =
     (if below q x then m (p @ drop (length q) x) else if below p x then None else m x)"

definition law_Rename :: "'f Fs \<Rightarrow> ('f \<Rightarrow> string \<Rightarrow> string option) \<Rightarrow> bool" where
  "law_Rename F file \<longleftrightarrow>
     (\<forall>f p q e f'. clean p \<longrightarrow> clean q \<longrightarrow> fs_Rename F f p q = (e, f') \<longrightarrow>
        file f' = (if e = None then renamed (file f) p q else file f))"

definition law_ReadFile :: "'f Fs \<Rightarrow> ('f \<Rightarrow> string \<Rightarrow> string option) \<Rightarrow> bool" where
  "law_ReadFile F file \<longleftrightarrow> (\<forall>f p b. clean p \<longrightarrow> (fs_ReadFile F f p = Inr b \<longleftrightarrow> file f p = Some b))"

definition law_ReadDir :: "'f Fs \<Rightarrow> ('f \<Rightarrow> string \<Rightarrow> string option) \<Rightarrow> bool" where
  "law_ReadDir F file \<longleftrightarrow>
     (\<forall>f d names. clean d \<longrightarrow> fs_ReadDir F f d = Inr names \<longrightarrow>
        distinct names \<and>
        (\<forall>n. n \<in> set names \<longrightarrow> plain_name n \<and> fs_Stat F f (d @ ''/'' @ n) \<noteq> Some ErrNotExist) \<and>
        (\<forall>n r. plain_name n \<longrightarrow> path_rest r \<longrightarrow> file f (d @ ''/'' @ n @ r) \<noteq> None \<longrightarrow> n \<in> set names))"

definition law_Stat :: "'f Fs \<Rightarrow> ('f \<Rightarrow> string \<Rightarrow> string option) \<Rightarrow> bool" where
  "law_Stat F file \<longleftrightarrow> (\<forall>f p q. clean p \<longrightarrow> fs_Stat F f p = Some ErrNotExist \<longrightarrow> below p q \<longrightarrow> file f q = None)"

definition fs_law :: "'f Fs \<Rightarrow> ('f \<Rightarrow> string \<Rightarrow> string option) \<Rightarrow> bool" where
  "fs_law F file \<longleftrightarrow>
     law_MkdirAll F file \<and> law_WriteFile F file \<and> law_RemoveAll F file \<and> law_Rename F file \<and>
     law_ReadFile F file \<and> law_ReadDir F file \<and> law_Stat F file"

lemma MkdirAll_files:
  assumes "fs_law F file" and "clean p" and "fs_MkdirAll F f p = (e, f')"
  shows "file f' = file f" and "clean q \<Longrightarrow> \<not> below q p \<Longrightarrow> fs_Stat F f' q = fs_Stat F f q"
  using assms by (auto simp: fs_law_def law_MkdirAll_def)

lemma WriteFile_files:
  assumes "fs_law F file" and "clean p" and "fs_WriteFile F f p b = (e, f')"
  shows "e = None \<Longrightarrow> file f' p = Some b" and "x \<noteq> p \<Longrightarrow> file f' x = file f x"
  using assms by (auto simp: fs_law_def law_WriteFile_def)

lemma RemoveAll_files:
  assumes "fs_law F file" and "clean p" and "fs_RemoveAll F f p = (e, f')"
  shows "e = None \<Longrightarrow> below p x \<Longrightarrow> file f' x = None" and "\<not> below p x \<Longrightarrow> file f' x = file f x"
  using assms by (auto simp: fs_law_def law_RemoveAll_def)

lemma Rename_files:
  assumes "fs_law F file" and "clean p" and "clean q" and "fs_Rename F f p q = (e, f')"
  shows "file f' = (if e = None then renamed (file f) p q else file f)"
  using assms by (simp add: fs_law_def law_Rename_def)

lemma ReadFile_files: "fs_law F file \<Longrightarrow> clean p \<Longrightarrow> fs_ReadFile F f p = Inr b \<longleftrightarrow> file f p = Some b"
  by (simp add: fs_law_def law_ReadFile_def)

lemma ReadDir_names:
  assumes "fs_law F file" and "clean d" and "fs_ReadDir F f d = Inr names"
  shows "distinct names"
    and "n \<in> set names \<Longrightarrow> plain_name n \<and> fs_Stat F f (d @ ''/'' @ n) \<noteq> Some ErrNotExist"
    and "plain_name n \<Longrightarrow> path_rest r \<Longrightarrow> n \<notin> set names \<Longrightarrow> file f (d @ ''/'' @ n @ r) = None"
  using assms unfolding fs_law_def law_ReadDir_def by blast+

lemma Stat_files: "fs_law F file \<Longrightarrow> clean p \<Longrightarrow> fs_Stat F f p = Some ErrNotExist \<Longrightarrow> below p q \<Longrightarrow> file f q = None"
  by (simp add: fs_law_def law_Stat_def)

section \<open>The backup\<close>

text \<open>One renaming moves the files of one name into the backup and touches no other name.\<close>

lemma rename_to_backup:
  assumes "fs_law F file" and "clean cp"
    and "fs_Rename F f (cp @ ''/'' @ m) (cp @ ''/'' @ backupDir @ ''/'' @ m) = (None, f')"
    and "plain_name m" "m \<noteq> backupDir" and "plain_name n" "path_rest r"
  shows "file f' (cp @ ''/'' @ backupDir @ ''/'' @ n @ r) =
      (if n = m then file f (cp @ ''/'' @ n @ r) else file f (cp @ ''/'' @ backupDir @ ''/'' @ n @ r))"
    and "n \<noteq> backupDir \<Longrightarrow> file f' (cp @ ''/'' @ n @ r) = (if n = m then None else file f (cp @ ''/'' @ n @ r))"
proof -
  have "clean (cp @ ''/'' @ m)" "clean (cp @ ''/'' @ backupDir @ ''/'' @ m)"
    using clean_name [OF assms(2,4)] clean_append [OF assms(2), of "[backupDir, m]"] assms(4) plain_backupDir by auto
  note eq = Rename_files [OF assms(1) this assms(3), simplified] renamed_def
  have in_backup: "below (cp @ ''/'' @ backupDir @ ''/'' @ m) (cp @ ''/'' @ backupDir @ ''/'' @ n @ r) \<longleftrightarrow> m = n"
    using below_name [OF assms(4,6,7), of "cp @ ''/'' @ backupDir"] by simp
  have slash: "path_rest (''/'' @ s)" for s by (simp add: path_rest_def)
  have not_m: "\<not> below (cp @ ''/'' @ m) (cp @ ''/'' @ backupDir @ ''/'' @ n @ r)"
    using below_name [OF assms(4) plain_backupDir slash [of "n @ r"], of cp] assms(5) by simp
  show "file f' (cp @ ''/'' @ backupDir @ ''/'' @ n @ r) =
      (if n = m then file f (cp @ ''/'' @ n @ r) else file f (cp @ ''/'' @ backupDir @ ''/'' @ n @ r))"
    using in_backup not_m by (simp add: eq)
  show "file f' (cp @ ''/'' @ n @ r) = (if n = m then None else file f (cp @ ''/'' @ n @ r))" if "n \<noteq> backupDir"
  proof -
    have "\<not> below (cp @ ''/'' @ backupDir @ ''/'' @ m) (cp @ ''/'' @ n @ r)"
    proof
      assume "below (cp @ ''/'' @ backupDir @ ''/'' @ m) (cp @ ''/'' @ n @ r)"
      then have "below (cp @ ''/'' @ backupDir) (cp @ ''/'' @ n @ r)" by (auto simp: below_def prefix_def)
      with below_name [OF plain_backupDir assms(6,7), of cp] that show False by simp
    qed
    with below_name [OF assms(4,6,7), of cp] show ?thesis by (auto simp: eq)
  qed
qed

lemma path_Join_backup:
  assumes "clean cp" and "plain_name n"
  shows "path_Join [cp, n] = cp @ ''/'' @ n"
    and "path_Join [cp, backupDir] = cp @ ''/'' @ backupDir"
    and "path_Join [cp @ ''/'' @ backupDir, n] = cp @ ''/'' @ backupDir @ ''/'' @ n"
  using path_Join_clean [OF assms(1), of "[n]"] path_Join_clean [OF assms(1), of "[backupDir]"]
    path_Join_clean [OF clean_name [OF assms(1) plain_backupDir], of "[n]"] assms(2) plain_backupDir by simp_all

lemma backup_files_spec:
  assumes "fs_law F file" and "clean cp" and "plain_name n" "path_rest r"
  shows "distinct names \<Longrightarrow> \<forall>m \<in> set names. plain_name m \<and> m \<noteq> backupDir \<Longrightarrow>
    backup_files F f cp (cp @ ''/'' @ backupDir) names = (None, f') \<Longrightarrow>
    file f' (cp @ ''/'' @ backupDir @ ''/'' @ n @ r) =
      (if n \<in> set names then file f (cp @ ''/'' @ n @ r) else file f (cp @ ''/'' @ backupDir @ ''/'' @ n @ r))"
proof (induction names arbitrary: f)
  case (Cons m names)
  from Cons.prems(2) have m: "plain_name m" "m \<noteq> backupDir" by auto
  from Cons.prems(3) obtain f1 where
    ren: "fs_Rename F f (cp @ ''/'' @ m) (cp @ ''/'' @ backupDir @ ''/'' @ m) = (None, f1)" and
    rest: "backup_files F f1 cp (cp @ ''/'' @ backupDir) names = (None, f')"
    using path_Join_backup [OF assms(2) m(1)] by (auto split: prod.splits option.splits)
  note step = rename_to_backup [OF assms(1,2) ren m assms(3,4)]
  from Cons.IH [OF _ _ rest] Cons.prems(1,2)
  have IH: "file f' (cp @ ''/'' @ backupDir @ ''/'' @ n @ r) =
      (if n \<in> set names then file f1 (cp @ ''/'' @ n @ r) else file f1 (cp @ ''/'' @ backupDir @ ''/'' @ n @ r))" by simp
  show ?case
  proof (cases "n \<in> set names")
    case True
    with Cons.prems(1,2) have "n \<noteq> m" "n \<noteq> backupDir" by auto
    with IH step True show ?thesis by simp
  next
    case False
    with IH step show ?thesis by simp
  qed
qed simp

text \<open>
  A backup that fails half-way leaves every file at its place or has moved it into the backup.
\<close>

definition kept_or_moved :: "('f \<Rightarrow> string \<Rightarrow> string option) \<Rightarrow> string \<Rightarrow> string \<Rightarrow> 'f \<Rightarrow> 'f \<Rightarrow> bool" where
  "kept_or_moved file cp s f f' \<longleftrightarrow>
     file f' (cp @ ''/'' @ backupDir @ ''/'' @ s) = file f (cp @ ''/'' @ s) \<or>
     file f' (cp @ ''/'' @ s) = file f (cp @ ''/'' @ s) \<and>
     file f' (cp @ ''/'' @ backupDir @ ''/'' @ s) = file f (cp @ ''/'' @ backupDir @ ''/'' @ s)"

lemma kept_or_moved_same: "file f' = file f \<Longrightarrow> kept_or_moved file cp s f f'"
  by (simp add: kept_or_moved_def)

lemma backup_files_interrupted:
  assumes "fs_law F file" and "clean cp" and "plain_name n" "path_rest r" and "n \<noteq> backupDir"
  shows "distinct names \<Longrightarrow> \<forall>m \<in> set names. plain_name m \<and> m \<noteq> backupDir \<Longrightarrow>
    backup_files F f cp (cp @ ''/'' @ backupDir) names = (e, f') \<Longrightarrow>
    kept_or_moved file cp (n @ r) f f' \<and>
    (n \<notin> set names \<longrightarrow> file f' (cp @ ''/'' @ backupDir @ ''/'' @ n @ r) = file f (cp @ ''/'' @ backupDir @ ''/'' @ n @ r))"
proof (induction names arbitrary: f)
  case (Cons m names)
  from Cons.prems(2) have m: "plain_name m" "m \<noteq> backupDir" by auto
  obtain e1 f1 where ren: "fs_Rename F f (cp @ ''/'' @ m) (cp @ ''/'' @ backupDir @ ''/'' @ m) = (e1, f1)" by fastforce
  show ?case
  proof (cases e1)
    case None
    with ren Cons.prems(3) have rest: "backup_files F f1 cp (cp @ ''/'' @ backupDir) names = (e, f')"
      using path_Join_backup [OF assms(2) m(1)] by simp
    have IH: "kept_or_moved file cp (n @ r) f1 f'"
      "n \<notin> set names \<Longrightarrow> file f' (cp @ ''/'' @ backupDir @ ''/'' @ n @ r) = file f1 (cp @ ''/'' @ backupDir @ ''/'' @ n @ r)"
      using Cons.IH [OF _ _ rest] Cons.prems(1,2) by auto
    note step = rename_to_backup [OF assms(1,2) ren [unfolded None] m assms(3,4)]
    from Cons.prems(1) IH step assms(5) show ?thesis by (cases "n = m") (auto simp: kept_or_moved_def)
  next
    case (Some err)
    with ren Cons.prems(3) have "f' = f1" using path_Join_backup [OF assms(2) m(1)] by simp
    moreover have "clean (cp @ ''/'' @ m)" "clean (cp @ ''/'' @ backupDir @ ''/'' @ m)"
      using clean_name [OF assms(2) m(1)] clean_append [OF assms(2), of "[backupDir, m]"] m(1) plain_backupDir by auto
    from Rename_files [OF assms(1) this ren] Some have "file f1 = file f" by simp
    ultimately show ?thesis by (simp add: kept_or_moved_same)
  qed
qed (simp add: kept_or_moved_same)

lemma backupConfig_interrupted:
  assumes "fs_law F file" and "clean cp" and "plain_name n" "path_rest r" and "n \<noteq> backupDir"
    and "backupConfig F f cp = (e, f')"
  shows "kept_or_moved file cp (n @ r) f f'"
proof -
  note join = path_Join_backup(2) [OF assms(2,3)]
  have "kept_or_moved file cp (n @ r) f f'"
    if "fs_Stat F f (cp @ ''/'' @ backupDir) = Some ErrNotExist" "fs_ReadDir F f cp = Inr names"
      "fs_MkdirAll F f (cp @ ''/'' @ backupDir) = (None, f1)"
      "backup_files F f1 cp (cp @ ''/'' @ backupDir) names = (e, f')" for names f1
  proof -
    note dir = ReadDir_names [OF assms(1,2) that(2)]
    have ns: "\<forall>m \<in> set names. plain_name m \<and> m \<noteq> backupDir" using dir(2) that(1) by auto
    have "file f1 = file f" by (rule MkdirAll_files(1) [OF assms(1) clean_name [OF assms(2) plain_backupDir] that(3)])
    with backup_files_interrupted [OF assms(1-5) dir(1) ns that(4)] show ?thesis by (simp add: kept_or_moved_def)
  qed
  moreover have "file f1 = file f" if "fs_MkdirAll F f (cp @ ''/'' @ backupDir) = (e1, f1)" for e1 f1
    by (rule MkdirAll_files(1) [OF assms(1) clean_name [OF assms(2) plain_backupDir] that])
  ultimately show ?thesis
    using assms(6) by (auto simp: backupConfig_def join Let_def os_IsNotExist_def kept_or_moved_same
      split: option.splits if_splits sum.splits prod.splits)
qed

lemma backupConfig_first:
  assumes "fs_Stat F f (path_Join [cp, backupDir]) = Some ErrNotExist" and "backupConfig F f cp = (None, f')"
  obtains names where "fs_ReadDir F f cp = Inr names" and "names = [] \<Longrightarrow> f' = f"
    and "names \<noteq> [] \<Longrightarrow> \<exists>f1. fs_MkdirAll F f (path_Join [cp, backupDir]) = (None, f1) \<and>
      backup_files F f1 cp (path_Join [cp, backupDir]) names = (None, f')"
proof (cases "fs_ReadDir F f cp")
  case (Inr names)
  obtain e f1 where mk: "fs_MkdirAll F f (path_Join [cp, backupDir]) = (e, f1)" by fastforce
  show ?thesis
    by (rule that [of names]; cases e) (use assms Inr mk in \<open>simp_all add: backupConfig_def os_IsNotExist_def\<close>)
qed (use assms in \<open>simp add: backupConfig_def os_IsNotExist_def\<close>)

lemma backupConfig_later:
  assumes "fs_Stat F f (path_Join [cp, backupDir]) \<noteq> Some ErrNotExist" and "backupConfig F f cp = (e, f')"
  shows "f' = f"
  using assms by (cases "fs_Stat F f (path_Join [cp, backupDir])") (auto simp: backupConfig_def os_IsNotExist_def)

text \<open>
  The content of the configuration directory before the mirrors were first written: what the
  backup holds when there is one, and the directory itself otherwise.
\<close>

definition original :: "'f Fs \<Rightarrow> ('f \<Rightarrow> string \<Rightarrow> string option) \<Rightarrow> 'f \<Rightarrow> string \<Rightarrow> string \<Rightarrow> string option" where
  "original F file f cp s =
     (if fs_Stat F f (path_Join [cp, backupDir]) = Some ErrNotExist then file f (cp @ ''/'' @ s)
      else file f (cp @ ''/'' @ backupDir @ ''/'' @ s))"

lemma backupConfig_original:
  assumes "fs_law F file" and "clean cp" and "backupConfig F f cp = (None, f')" and "plain_name n" "path_rest r"
  shows "file f' (cp @ ''/'' @ backupDir @ ''/'' @ n @ r) = original F file f cp (n @ r)"
proof (cases "fs_Stat F f (path_Join [cp, backupDir]) = Some ErrNotExist")
  case True
  note join = path_Join_backup [OF assms(2,4)]
  note cb = clean_name [OF assms(2) plain_backupDir]
  have empty: "file f (cp @ ''/'' @ backupDir @ ''/'' @ n @ r) = None"
    by (rule Stat_files [OF assms(1) cb True [unfolded join]]) (simp add: below_def)
  obtain names where names: "fs_ReadDir F f cp = Inr names" and
    run: "names \<noteq> [] \<Longrightarrow> \<exists>f1. fs_MkdirAll F f (cp @ ''/'' @ backupDir) = (None, f1) \<and>
      backup_files F f1 cp (cp @ ''/'' @ backupDir) names = (None, f')" and none: "names = [] \<Longrightarrow> f' = f"
    using backupConfig_first [OF True assms(3)] unfolding join(2) by metis
  note dir = ReadDir_names [OF assms(1,2) names]
  have ns: "\<forall>m \<in> set names. plain_name m \<and> m \<noteq> backupDir" using dir(2) True join(2) by auto
  have absent: "n \<notin> set names \<Longrightarrow> file f (cp @ ''/'' @ n @ r) = None" by (rule dir(3) [OF assms(4,5)])
  have "file f' (cp @ ''/'' @ backupDir @ ''/'' @ n @ r) = file f (cp @ ''/'' @ n @ r)"
  proof (cases "names = []")
    case True
    with none empty absent show ?thesis by simp
  next
    case False
    with run obtain f1 where "file f1 = file f" "backup_files F f1 cp (cp @ ''/'' @ backupDir) names = (None, f')"
      using MkdirAll_files(1) [OF assms(1) cb] by blast
    with backup_files_spec [OF assms(1,2,4,5) dir(1) ns] empty absent show ?thesis by auto
  qed
  with True show ?thesis by (simp add: original_def)
next
  case False
  with backupConfig_later [OF False assms(3)] show ?thesis by (simp add: original_def)
qed

text \<open>A file of the user is after the backup, whatever its result, in the backup or still at its place.\<close>

definition survives :: "'f Fs \<Rightarrow> ('f \<Rightarrow> string \<Rightarrow> string option) \<Rightarrow> 'f \<Rightarrow> string \<Rightarrow> string \<Rightarrow> 'f \<Rightarrow> bool" where
  "survives F file f cp s f' \<longleftrightarrow>
     (\<forall>b. original F file f cp s = Some b \<longrightarrow>
        file f' (cp @ ''/'' @ backupDir @ ''/'' @ s) = Some b \<or>
        fs_Stat F f (path_Join [cp, backupDir]) = Some ErrNotExist \<and> file f' (cp @ ''/'' @ s) = Some b)"

lemma survives_same: "file f' = file f \<Longrightarrow> survives F file f cp s f'"
  by (simp add: survives_def original_def)

lemma backupConfig_survives:
  assumes "fs_law F file" and "clean cp" and "backupConfig F f cp = (e, f')" and "plain_name n" "path_rest r"
  shows "survives F file f cp (n @ r) f'"
proof (cases "fs_Stat F f (path_Join [cp, backupDir]) = Some ErrNotExist")
  case True
  have "file f (cp @ ''/'' @ n @ r) = None" if "n = backupDir"
    using Stat_files [OF assms(1) clean_name [OF assms(2) plain_backupDir] True [unfolded path_Join_backup(2) [OF assms(2,4)]]]
      below_name [OF plain_backupDir plain_backupDir assms(5), of cp] that by simp
  moreover have "kept_or_moved file cp (n @ r) f f'" if "n \<noteq> backupDir"
    by (rule backupConfig_interrupted [OF assms(1,2,4,5) that assms(3)])
  ultimately show ?thesis
    using True by (cases "n = backupDir") (auto simp: survives_def original_def kept_or_moved_def)
next
  case False
  with backupConfig_later [OF False assms(3)] show ?thesis by (simp add: survives_same)
qed

section \<open>Clearing\<close>

lemma clear_files_spec:
  assumes "fs_law F file" and "clean cp" and "plain_name n" "path_rest r"
  shows "\<forall>m \<in> set names. plain_name m \<Longrightarrow> clear_files F f cp names = (None, f') \<Longrightarrow>
    file f' (cp @ ''/'' @ n @ r) =
      (if n \<in> set names \<and> n \<noteq> backupDir then None else file f (cp @ ''/'' @ n @ r))"
proof (induction names arbitrary: f)
  case (Cons m names)
  show ?case
  proof (cases "m = backupDir")
    case True
    with Cons show ?thesis by auto
  next
    case False
    from Cons.prems(1) have m: "plain_name m" by simp
    from Cons.prems(2) False obtain f1 where
      rem: "fs_RemoveAll F f (cp @ ''/'' @ m) = (None, f1)" and rest: "clear_files F f1 cp names = (None, f')"
      using path_Join_backup(1) [OF assms(2) m] by (auto split: prod.splits option.splits)
    have "file f1 (cp @ ''/'' @ n @ r) = (if n = m then None else file f (cp @ ''/'' @ n @ r))"
      using RemoveAll_files [OF assms(1) clean_name [OF assms(2) m] rem] below_name [OF m assms(3,4), of cp] by auto
    with Cons.IH [OF _ rest] Cons.prems(1) False show ?thesis by auto
  qed
qed simp

text \<open>The backup is never cleared, whatever the result.\<close>

lemma clear_files_backup:
  assumes "fs_law F file" and "clean cp" and "path_rest r"
  shows "\<forall>m \<in> set names. plain_name m \<Longrightarrow> clear_files F f cp names = (e, f') \<Longrightarrow>
    file f' (cp @ ''/'' @ backupDir @ r) = file f (cp @ ''/'' @ backupDir @ r)"
proof (induction names arbitrary: f)
  case (Cons m names)
  from Cons.prems(1) have m: "plain_name m" by simp
  obtain e1 f1 where rem: "fs_RemoveAll F f (cp @ ''/'' @ m) = (e1, f1)" by fastforce
  have "m \<noteq> backupDir \<Longrightarrow> file f1 (cp @ ''/'' @ backupDir @ r) = file f (cp @ ''/'' @ backupDir @ r)"
    using RemoveAll_files(2) [OF assms(1) clean_name [OF assms(2) m] rem] below_name [OF m plain_backupDir assms(3), of cp]
    by simp
  with Cons.IH Cons.prems rem path_Join_backup(1) [OF assms(2) m] show ?case by (auto split: if_splits option.splits)
qed simp

lemma clearConfig_backup:
  assumes "fs_law F file" and "clean cp" and "clearConfig F f cp = (e, f')" and "path_rest r"
  shows "file f' (cp @ ''/'' @ backupDir @ r) = file f (cp @ ''/'' @ backupDir @ r)"
proof (cases "fs_ReadDir F f cp")
  case (Inl err)
  with assms(3) show ?thesis by (simp add: clearConfig_def)
next
  case (Inr names)
  with assms(3) have "clear_files F f cp names = (e, f')" by (simp add: clearConfig_def)
  with clear_files_backup [OF assms(1,2,4)] ReadDir_names(2) [OF assms(1,2) Inr] show ?thesis by blast
qed

lemma clearConfig_spec:
  assumes "fs_law F file" and "clean cp" and "clearConfig F f cp = (None, f')" and "plain_name n" "path_rest r"
  shows "file f' (cp @ ''/'' @ n @ r) = (if n = backupDir then file f (cp @ ''/'' @ n @ r) else None)"
proof -
  from assms(3) obtain names where names: "fs_ReadDir F f cp = Inr names" "clear_files F f cp names = (None, f')"
    by (auto simp: clearConfig_def split: sum.splits)
  note dir = ReadDir_names [OF assms(1,2) names(1)]
  have "\<forall>m \<in> set names. plain_name m" using dir(2) by blast
  from clear_files_spec [OF assms(1,2,4,5) this names(2)] dir(3) [OF assms(4,5)] show ?thesis by auto
qed

section \<open>The written files\<close>

text \<open>The host file with the mirrors added, whatever their number.\<close>

definition with_mirrors :: "'v hostFile \<Rightarrow> string list \<Rightarrow> URL list \<Rightarrow> 'v hostFile" where
  "with_mirrors hf capabilities mirrorURLs =
     hf\<lparr>hf_HostConfigs :=
       map_option (\<lambda>m h. if h \<in> url_String ` set mirrorURLs then Some (mirror_hostConfig capabilities) else m h)
         (hf_HostConfigs hf)\<rparr>"

lemma add_mirrors_Done: "add_mirrors hf capabilities us = Done hf' \<Longrightarrow> hf' = with_mirrors hf capabilities us"
proof (induction hf capabilities us arbitrary: hf' rule: add_mirrors.induct)
  case (1 hf capabilities)
  then show ?case by (cases "hf_HostConfigs hf") (simp_all add: with_mirrors_def)
next
  case (2 hf capabilities u us)
  then obtain m where m: "hf_HostConfigs hf = Some m" by (auto split: option.splits)
  let ?c = "mirror_hostConfig capabilities"
  have "(\<lambda>h. if h \<in> url_String ` set us then Some ?c else (m(url_String u \<mapsto> ?c)) h) =
      (\<lambda>h. if h \<in> url_String ` set (u # us) then Some ?c else m h)" by auto
  moreover from m 2(2) have
    "add_mirrors (hf\<lparr>hf_HostConfigs := Some (m(url_String u \<mapsto> ?c))\<rparr>) capabilities us = Done hf'" by simp
  from 2(1) [OF m this] have
    "hf' = with_mirrors (hf\<lparr>hf_HostConfigs := Some (m(url_String u \<mapsto> ?c))\<rparr>) capabilities us" .
  ultimately show ?case using m by (simp add: with_mirrors_def)
qed

text \<open>
  Adding a mirror fails with a panic exactly when the host file has no map of host
  configurations, which a backed up \<open>hosts.toml\<close> without a \<open>host\<close> table decodes to.
\<close>

lemma add_mirrors_panics_iff:
  "(\<exists>p. add_mirrors hf capabilities us = Panic p) \<longleftrightarrow> us \<noteq> [] \<and> hf_HostConfigs hf = None"
  by (induction hf capabilities us rule: add_mirrors.induct) (auto split: option.splits)

text \<open>The host file that the mirrors are added to, from the content of the backed up file.\<close>

definition base_hostFile :: "'v Toml \<Rightarrow> string option \<Rightarrow> URL \<Rightarrow> 'v hostFile \<Rightarrow> bool" where
  "base_hostFile T content u hf =
     (case content of None \<Rightarrow> hf = fresh_hostFile u | Some b \<Rightarrow> toml_Unmarshal T b = Inr hf)"

abbreviation hosts_toml :: "URL \<Rightarrow> string" where
  "hosts_toml u \<equiv> url_Host u @ ''/hosts.toml''"

lemma getHostFile_base:
  assumes "fs_law F file" and "clean cp" and "plain_name (url_Host u)"
    and "getHostFile F T f cp appendToBackup u = Inr (hf, a)"
  shows "base_hostFile T (if appendToBackup then file f (cp @ ''/'' @ backupDir @ ''/'' @ hosts_toml u) else None) u hf"
proof -
  let ?p = "cp @ abs_path [backupDir, url_Host u, ''hosts.toml'']"
  have p: "path_Join [cp, backupDir, url_Host u, ''hosts.toml''] = ?p" "clean ?p"
    using assms(2,3) plain_backupDir plain_hosts
    by (auto intro!: path_Join_clean clean_append simp del: abs_path_simps)
  note read = ReadFile_files [OF assms(1) p(2)]
  show ?thesis
  proof (cases "fs_ReadFile F f ?p")
    case (Inr b)
    with read [of f b] assms(4) p(1) show ?thesis
      by (auto simp: getHostFile_def base_hostFile_def bind_result_eq_Inr split: if_splits)
  next
    case (Inl err)
    then have "file f ?p = None" using read [of f] by (cases "file f ?p") auto
    with Inl assms(4) p(1) show ?thesis
      by (auto simp: getHostFile_def base_hostFile_def split: if_splits)
  qed
qed

text \<open>One write changes the file of its registry only, also when it fails.\<close>

lemma host_path_clean:
  assumes "clean cp" and "plain_name (url_Host u)"
  shows "host_path cp u = cp @ ''/'' @ hosts_toml u" and "clean (host_path cp u)"
    and "path_Dir (host_path cp u) = cp @ ''/'' @ url_Host u" and "clean (path_Dir (host_path cp u))"
proof -
  have dir: "clean (cp @ ''/'' @ url_Host u)" by (rule clean_name [OF assms])
  show p: "host_path cp u = cp @ ''/'' @ hosts_toml u"
    using path_Join_clean [OF assms(1), of "[url_Host u, ''hosts.toml'']"] assms(2) plain_hosts by (simp add: host_path_def)
  then show d: "path_Dir (host_path cp u) = cp @ ''/'' @ url_Host u"
    using path_Dir_clean [OF dir plain_hosts] by simp
  show "clean (host_path cp u)" using clean_name [OF dir plain_hosts] p by simp
  show "clean (path_Dir (host_path cp u))" using dir d by simp
qed

lemma write_host:
  assumes "fs_law F file" and "clean cp" and "plain_name (url_Host u)"
    and "fs_MkdirAll F f (path_Dir (host_path cp u)) = (e1, f1)"
    and "fs_WriteFile F f1 (host_path cp u) b = (e2, f2)"
  shows "e2 = None \<Longrightarrow> file f2 (cp @ ''/'' @ hosts_toml u) = Some b"
    and "plain_name n \<Longrightarrow> path_rest r \<Longrightarrow> n \<noteq> url_Host u \<Longrightarrow> file f2 (cp @ ''/'' @ n @ r) = file f (cp @ ''/'' @ n @ r)"
proof -
  note p = host_path_clean [OF assms(2,3)]
  note mk = MkdirAll_files(1) [OF assms(1) p(4) assms(4)]
  note wr = WriteFile_files [OF assms(1) p(2) assms(5)]
  show "file f2 (cp @ ''/'' @ hosts_toml u) = Some b" if "e2 = None" using wr(1) [OF that] p(1) by simp
  show "file f2 (cp @ ''/'' @ n @ r) = file f (cp @ ''/'' @ n @ r)" if "plain_name n" "path_rest r" "n \<noteq> url_Host u"
  proof -
    have "cp @ ''/'' @ n @ r \<noteq> host_path cp u"
    proof
      assume "cp @ ''/'' @ n @ r = host_path cp u"
      then have "below (cp @ ''/'' @ url_Host u) (cp @ ''/'' @ n @ r)" by (simp add: p(1) below_def)
      with below_name [OF assms(3) that(1,2), of cp] that(3) show False by simp
    qed
    with wr(2) mk show ?thesis by simp
  qed
qed

lemma write_configs_Cons:
  assumes "write_configs F T f cp mirrorURLs capabilities a (u # us) = (Done None, f')"
  obtains hf x b f1 f2 where "getHostFile F T f cp a u = Inr (hf, x)"
    and "toml_Marshal T (with_mirrors hf capabilities mirrorURLs) = Inr b"
    and "fs_MkdirAll F f (path_Dir (host_path cp u)) = (None, f1)"
    and "fs_WriteFile F f1 (host_path cp u) b = (None, f2)"
    and "write_configs F T f2 cp mirrorURLs capabilities a us = (Done None, f')"
  using assms by (auto simp: Let_def split: sum.splits prod.splits outcome.splits option.splits dest!: add_mirrors_Done)

lemma path_rest_hosts: "path_rest ''/hosts.toml''" "path_rest (''/'' @ s)"
  by (simp_all add: path_rest_def)

lemma write_configs_frame:
  assumes "fs_law F file" and "clean cp" and "plain_name n" "path_rest r"
  shows "write_configs F T f cp mirrorURLs capabilities a us = (res, f') \<Longrightarrow>
    \<forall>u \<in> set us. plain_name (url_Host u) \<and> n \<noteq> url_Host u \<Longrightarrow>
    file f' (cp @ ''/'' @ n @ r) = file f (cp @ ''/'' @ n @ r)"
proof (induction us arbitrary: f)
  case (Cons u us)
  from Cons.prems(2) have u: "plain_name (url_Host u)" "n \<noteq> url_Host u" by auto
  obtain e1 f1 where mk: "fs_MkdirAll F f (path_Dir (host_path cp u)) = (e1, f1)" by fastforce
  have same1: "file f1 = file f" by (rule MkdirAll_files(1) [OF assms(1) host_path_clean(4) [OF assms(2) u(1)] mk])
  have same2: "file f2 (cp @ ''/'' @ n @ r) = file f (cp @ ''/'' @ n @ r)"
    if "fs_WriteFile F f1 (host_path cp u) b = (e2, f2)" for b e2 f2
    by (rule write_host(2) [OF assms(1,2) u(1) mk that assms(3,4) u(2)])
  have same3: "file f' (cp @ ''/'' @ n @ r) = file f2 (cp @ ''/'' @ n @ r)"
    if "write_configs F T f2 cp mirrorURLs capabilities a us = (res, f')" for f2
    using Cons.IH [OF that] Cons.prems(2) by simp
  from Cons.prems(1) mk show ?case
    using same1 same2 same3 by (auto simp: Let_def split: sum.splits outcome.splits prod.splits option.splits)
qed simp

text \<open>What a successful run leaves for one registry.\<close>

definition host_written ::
  "'v Toml \<Rightarrow> string option \<Rightarrow> string list \<Rightarrow> URL list \<Rightarrow> URL \<Rightarrow> string option \<Rightarrow> bool" where
  "host_written T content capabilities mirrorURLs u written \<longleftrightarrow>
     (\<exists>hf b. base_hostFile T content u hf \<and> toml_Marshal T (with_mirrors hf capabilities mirrorURLs) = Inr b \<and>
        written = Some b)"

lemma write_configs_spec:
  assumes "fs_law F file" and "clean cp"
  shows "write_configs F T f cp mirrorURLs capabilities a us = (Done None, f') \<Longrightarrow>
    \<forall>u \<in> set us. plain_name (url_Host u) \<and> url_Host u \<noteq> backupDir \<Longrightarrow> distinct (map url_Host us) \<Longrightarrow> u \<in> set us \<Longrightarrow>
    host_written T (if a then file f (cp @ ''/'' @ backupDir @ ''/'' @ hosts_toml u) else None) capabilities mirrorURLs u
      (file f' (cp @ ''/'' @ hosts_toml u))"
proof (induction us arbitrary: f)
  case (Cons v us)
  from Cons.prems(1) obtain hf x b f1 f2 where get: "getHostFile F T f cp a v = Inr (hf, x)" and
    marshal: "toml_Marshal T (with_mirrors hf capabilities mirrorURLs) = Inr b" and
    fs: "fs_MkdirAll F f (path_Dir (host_path cp v)) = (None, f1)" "fs_WriteFile F f1 (host_path cp v) b = (None, f2)" and
    rest: "write_configs F T f2 cp mirrorURLs capabilities a us = (Done None, f')" by (rule write_configs_Cons)
  from Cons.prems(2) have v: "plain_name (url_Host v)" "backupDir \<noteq> url_Host v" by auto
  show ?case
  proof (cases "u = v")
    case True
    have "file f' (cp @ ''/'' @ hosts_toml v) = Some b"
      using write_configs_frame [OF assms v(1) path_rest_hosts(1) rest] write_host(1) [OF assms v(1) fs] Cons.prems(2,3)
      by force
    with True marshal getHostFile_base [OF assms v(1) get] show ?thesis by (auto simp: host_written_def)
  next
    case False
    have "file f2 (cp @ ''/'' @ backupDir @ ''/'' @ hosts_toml u) = file f (cp @ ''/'' @ backupDir @ ''/'' @ hosts_toml u)"
      by (rule write_host(2) [OF assms v(1) fs plain_backupDir path_rest_hosts(2) v(2)])
    moreover have "u \<in> set us" using Cons.prems(4) False by simp
    with Cons.IH [OF rest] Cons.prems(2,3)
    have "host_written T (if a then file f2 (cp @ ''/'' @ backupDir @ ''/'' @ hosts_toml u) else None)
        capabilities mirrorURLs u (file f' (cp @ ''/'' @ hosts_toml u))" by (simp del: write_configs.simps)
    ultimately show ?thesis by (simp only:)
  qed
qed simp

section \<open>The configuration as a whole\<close>

lemma AddMirrorConfiguration_stages:
  assumes "AddMirrorConfiguration F T f cp us mirrorURLs resolveTags a = (Done None, f')"
  obtains f1 f2 f3 where "fs_MkdirAll F f cp = (None, f1)" and "backupConfig F f1 cp = (None, f2)"
    and "clearConfig F f2 cp = (None, f3)"
    and "write_configs F T f3 cp mirrorURLs (mirror_capabilities resolveTags) a us = (Done None, f')"
  using assms by (auto simp: AddMirrorConfiguration_def split: option.splits prod.splits)

lemma not_below_longer: "length p < length q \<Longrightarrow> \<not> below q p"
  by (auto simp: below_def dest: prefix_length_le)

lemma Stat_MkdirAll:
  assumes "fs_law F file" and "clean cp" and "fs_MkdirAll F f cp = (e, f1)"
  shows "fs_Stat F f1 (path_Join [cp, backupDir]) = fs_Stat F f (path_Join [cp, backupDir])"
  unfolding path_Join_backup(2) [OF assms(2) plain_backupDir]
  by (rule MkdirAll_files(2) [OF assms clean_name [OF assms(2) plain_backupDir] not_below_longer]) simp

lemma original_MkdirAll:
  assumes "fs_law F file" and "clean cp" and "fs_MkdirAll F f cp = (e, f1)"
  shows "original F file f1 cp s = original F file f cp s"
  by (simp add: original_def Stat_MkdirAll [OF assms] MkdirAll_files(1) [OF assms])

text \<open>Once the backup is made, neither clearing nor writing changes it, also when they fail.\<close>

lemma AddMirrorConfiguration_run:
  assumes "fs_law F file" and "clean cp" and "plain_name n" "path_rest r"
    and "\<forall>u \<in> set us. plain_name (url_Host u) \<and> url_Host u \<noteq> backupDir"
    and "AddMirrorConfiguration F T f cp us mirrorURLs resolveTags a = (res, f')"
  shows "file f' (cp @ ''/'' @ backupDir @ ''/'' @ n @ r) = original F file f cp (n @ r) \<or>
    res \<noteq> Done None \<and> survives F file f cp (n @ r) f'"
proof (cases "validateRegistries us")
  case None
  obtain e1 f1 e2 f2 e3 f3 where mk: "fs_MkdirAll F f cp = (e1, f1)" and
    backup: "backupConfig F f1 cp = (e2, f2)" and clear: "clearConfig F f2 cp = (e3, f3)" by fastforce
  note run = assms(6) [unfolded AddMirrorConfiguration_def None mk prod.case backup clear option.case]
  note f1 = MkdirAll_files(1) [OF assms(1,2) mk] original_MkdirAll [OF assms(1,2) mk] Stat_MkdirAll [OF assms(1,2) mk]
  show ?thesis
  proof (cases "e1 = None \<and> e2 = None")
    case True
    then have "file f2 (cp @ ''/'' @ backupDir @ ''/'' @ n @ r) = original F file f cp (n @ r)"
      using backupConfig_original [OF assms(1,2) _ assms(3,4)] backup f1(2) by simp
    moreover have "file f3 (cp @ ''/'' @ backupDir @ ''/'' @ n @ r) = file f2 (cp @ ''/'' @ backupDir @ ''/'' @ n @ r)"
      using clearConfig_backup [OF assms(1,2) clear path_rest_hosts(2)] by simp
    moreover have "file f' (cp @ ''/'' @ backupDir @ ''/'' @ n @ r) = file f3 (cp @ ''/'' @ backupDir @ ''/'' @ n @ r)"
      using write_configs_frame [OF assms(1,2) plain_backupDir path_rest_hosts(2), of T f3 mirrorURLs _ a us res f' "n @ r"]
        run True assms(5) by (force split: option.splits)
    ultimately show ?thesis by simp
  next
    case False
    have "survives F file f cp (n @ r) f2"
      using backupConfig_survives [OF assms(1,2) backup assms(3,4)] f1(2,3) by (simp add: survives_def)
    with False run survives_same [OF f1(1)] show ?thesis by (auto split: option.splits)
  qed
qed (use assms(6) in \<open>auto simp: AddMirrorConfiguration_def survives_same\<close>)


text \<open>
  C24. After a successful run the file \<open>hosts.toml\<close> of every registry is the encoding of the
  host file it starts from (with \<open>appendToBackup\<close> the user's own file for the registry, if there
  was one before the first run; otherwise a new one for the registry) in which every mirror, and
  nothing else, is set to the capabilities asked for; and outside the backup the directory has
  no file of any other name.
\<close>

theorem mirror_config_written:
  assumes "fs_law F file" and "clean cp" and "distinct (map url_Host us)"
    and "\<forall>u \<in> set us. plain_name (url_Host u) \<and> url_Host u \<noteq> ''_backup''"
    and "AddMirrorConfiguration F T f cp us mirrorURLs resolveTags a = (Done None, f')"
  shows "(\<forall>u \<in> set us. host_written T (if a then original F file f cp (url_Host u @ ''/hosts.toml'') else None)
      (mirror_capabilities resolveTags) mirrorURLs u (file f' (cp @ ''/'' @ url_Host u @ ''/hosts.toml''))) \<and>
    (\<forall>n r. plain_name n \<longrightarrow> path_rest r \<longrightarrow> n \<notin> insert ''_backup'' (url_Host ` set us) \<longrightarrow> file f' (cp @ ''/'' @ n @ r) = None)"
proof -
  from assms(5) obtain f1 f2 f3 where mk: "fs_MkdirAll F f cp = (None, f1)" and
    backup: "backupConfig F f1 cp = (None, f2)" and clear: "clearConfig F f2 cp = (None, f3)" and
    wr: "write_configs F T f3 cp mirrorURLs (mirror_capabilities resolveTags) a us = (Done None, f')"
    by (rule AddMirrorConfiguration_stages)
  note hosts = assms(4) [folded backupDir_def]
  note clear_spec = clearConfig_spec [OF assms(1,2) clear]
  have "host_written T (if a then original F file f cp (hosts_toml u) else None)
      (mirror_capabilities resolveTags) mirrorURLs u (file f' (cp @ ''/'' @ hosts_toml u))" if "u \<in> set us" for u
  proof -
    from hosts that have u: "plain_name (url_Host u)" by simp
    have "file f3 (cp @ ''/'' @ backupDir @ ''/'' @ hosts_toml u) = original F file f cp (hosts_toml u)"
      using clear_spec [OF plain_backupDir path_rest_hosts(2), of "hosts_toml u"] original_MkdirAll [OF assms(1,2) mk]
        backupConfig_original [OF assms(1,2) backup u path_rest_hosts(1)] by simp
    with write_configs_spec [OF assms(1,2) wr hosts assms(3) that] show ?thesis by (simp only:)
  qed
  moreover have "file f' (cp @ ''/'' @ n @ r) = None"
    if "plain_name n" "path_rest r" "n \<notin> insert ''_backup'' (url_Host ` set us)" for n r
    using write_configs_frame [OF assms(1,2) that(1,2) wr] clear_spec [OF that(1,2)] hosts that(3)
    by (auto simp: backupDir_def)
  ultimately show ?thesis by blast
qed

section \<open>A file system in memory\<close>

text \<open>
  A file system that has the behaviour relied on: the files with their paths, where a directory
  exists when a file is below it.
\<close>

type_synonym files = "(string \<times> string) list"

definition move :: "string \<Rightarrow> string \<Rightarrow> files \<Rightarrow> files" where
  "move p q f = map (\<lambda>(x, b). (q @ drop (length p) x, b)) (filter (\<lambda>(x, b). below p x) f) @
     filter (\<lambda>(x, b). \<not> below q x \<and> \<not> below p x) f"

definition dir_names :: "files \<Rightarrow> string \<Rightarrow> string list" where
  "dir_names f d = remdups (filter plain_name
     (map (\<lambda>(x, b). takeWhile (\<lambda>c. c \<noteq> CHR ''/'') (drop (length d + 1) x))
       (filter (\<lambda>(x, b). prefix (d @ ''/'') x) f)))"

definition files_Fs :: "files Fs" where
  "files_Fs =
     \<lparr>fs_MkdirAll = \<lambda>f p. (None, f),
      fs_Stat = \<lambda>f p. if list_ex (\<lambda>(x, b). below p x) f then None else Some ErrNotExist,
      fs_ReadDir = \<lambda>f d. Inr (dir_names f d),
      fs_Rename = \<lambda>f p q. (None, move p q f),
      fs_RemoveAll = \<lambda>f p. (None, filter (\<lambda>(x, b). \<not> below p x) f),
      fs_ReadFile = \<lambda>f p. case map_of f p of None \<Rightarrow> Inl ErrNotExist | Some b \<Rightarrow> Inr b,
      fs_WriteFile = \<lambda>f p b. (None, (p, b) # f)\<rparr>"

lemma map_of_filter_key: "map_of (filter (\<lambda>(x, b). P x) f) k = (if P k then map_of f k else None)"
  by (induction f) auto

lemma below_split: "below p x \<longleftrightarrow> (\<exists>r. path_rest r \<and> x = p @ r)"
  by (auto simp: below_def path_rest_def prefix_def) (metis append_Nil2 hd_Cons_tl)

lemma map_of_moved:
  "below q y \<Longrightarrow> map_of (map (\<lambda>(x, b). (q @ drop (length p) x, b)) (filter (\<lambda>(x, b). below p x) f)) y =
     map_of f (p @ drop (length q) y)"
  by (induction f) (auto simp: below_split)

lemma map_of_moved_other:
  "\<not> below q y \<Longrightarrow> map_of (map (\<lambda>(x, b). (q @ drop (length p) x, b)) (filter (\<lambda>(x, b). below p x) f)) y = None"
  by (induction f) (auto simp: below_split)

lemma map_of_move: "map_of (move p q f) = renamed (map_of f) p q"
proof
  fix y
  have rest: "map_of (filter (\<lambda>(x, b). \<not> below q x \<and> \<not> below p x) f) y =
      (if \<not> below q y \<and> \<not> below p y then map_of f y else None)"
    by (rule map_of_filter_key)
  show "map_of (move p q f) y = renamed (map_of f) p q y"
    using rest map_of_moved [of q y p f] map_of_moved_other [of q y p f]
    by (auto simp: move_def renamed_def map_add_def split: option.splits)
qed

lemma dir_names_distinct: "distinct (dir_names f d)"
  by (simp add: dir_names_def)

lemma dir_names_found:
  assumes "plain_name n" and "path_rest r" and "map_of f (d @ ''/'' @ n @ r) \<noteq> None"
  shows "n \<in> set (dir_names f d)"
proof -
  from assms(3) obtain b where "(d @ ''/'' @ n @ r, b) \<in> set f" by (auto dest: map_of_SomeD)
  then have "takeWhile (\<lambda>c. c \<noteq> CHR ''/'') (n @ r) \<in> set (map (\<lambda>(x, b). takeWhile (\<lambda>c. c \<noteq> CHR ''/'') (drop (length d + 1) x))
       (filter (\<lambda>(x, b). prefix (d @ ''/'') x) f))" by force
  with takeWhile_name [OF assms(1,2)] assms(1) show ?thesis by (simp add: dir_names_def)
qed

lemma takeWhile_rest: "\<exists>r. path_rest r \<and> s = takeWhile (\<lambda>c. c \<noteq> CHR ''/'') s @ r"
proof (intro exI conjI)
  show "path_rest (dropWhile (\<lambda>c. c \<noteq> CHR ''/'') s)" using hd_dropWhile [of "\<lambda>c. c \<noteq> CHR ''/''" s] by (auto simp: path_rest_def)
qed simp

lemma dir_names_exist:
  assumes "n \<in> set (dir_names f d)"
  shows "plain_name n \<and> list_ex (\<lambda>(x, b). below (d @ ''/'' @ n) x) f"
proof -
  from assms obtain s b where "plain_name n" "(d @ ''/'' @ s, b) \<in> set f" "n = takeWhile (\<lambda>c. c \<noteq> CHR ''/'') s"
    by (auto simp: dir_names_def prefix_def)
  with takeWhile_rest [of s] show ?thesis by (fastforce simp: list_ex_iff below_split)
qed

lemma files_Fs_law: "fs_law files_Fs map_of"
proof -
  have "law_Stat files_Fs map_of"
    by (auto simp: law_Stat_def files_Fs_def list_ex_iff map_of_eq_None_iff split: if_splits)
  moreover have "law_RemoveAll files_Fs map_of"
    by (auto simp: law_RemoveAll_def files_Fs_def map_of_filter_key)
  moreover have "law_ReadDir files_Fs map_of"
    using dir_names_found dir_names_exist dir_names_distinct by (simp add: law_ReadDir_def files_Fs_def)
  moreover have "law_ReadFile files_Fs map_of"
    by (auto simp: law_ReadFile_def files_Fs_def split: option.splits)
  ultimately show ?thesis
    by (auto simp: fs_law_def law_MkdirAll_def law_WriteFile_def law_Rename_def files_Fs_def map_of_move)
qed

subsection \<open>Concrete runs\<close>

definition example_Toml :: "unit Toml" where
  "example_Toml =
     \<lparr>toml_Marshal = \<lambda>hf. Inr (hf_Server hf @
        (if (case hf_HostConfigs hf of None \<Rightarrow> False | Some m \<Rightarrow> m ''http://10.0.0.1:30020'' \<noteq> None) then '' mirrored'' else [])),
      toml_Unmarshal = \<lambda>b. Inr \<lparr>hf_HostConfigs = Some Map.empty, hf_Server = b\<rparr>\<rparr>"

definition example_URL :: "string \<Rightarrow> string \<Rightarrow> URL" where
  "example_URL scheme host =
     \<lparr>url_Scheme = scheme, url_Opaque = [], url_User = None, url_Host = host, url_Path = [], url_RawQuery = [],
      url_Fragment = []\<rparr>"

definition example_files :: files where
  "example_files = [(''/etc/certs.d/ghcr.io/hosts.toml'', ''mine''), (''/etc/certs.d/quay.io/hosts.toml'', ''other'')]"

definition example_configured :: files where
  "example_configured =
     snd (AddMirrorConfiguration files_Fs example_Toml example_files ''/etc/certs.d'' [example_URL ''https'' ''ghcr.io'', example_URL ''https'' ''docker.io'']
       [example_URL ''http'' ''10.0.0.1:30020''] True True)"

lemma configured_run:
  "AddMirrorConfiguration files_Fs example_Toml example_files ''/etc/certs.d''
     [example_URL ''https'' ''ghcr.io'', example_URL ''https'' ''docker.io'']
     [example_URL ''http'' ''10.0.0.1:30020''] True True = (Done None, example_configured)"
  unfolding example_configured_def by code_simp

lemma example_clean: "clean ''/etc/certs.d''"
  unfolding clean_def by (rule exI [of _ "[''etc'', ''certs.d'']"]) (simp add: plain_name_def)

text \<open>
  A run that the file system interrupts: moving the configuration of \<open>quay.io\<close> fails.
\<close>

definition busy_Fs :: "files Fs" where
  "busy_Fs = files_Fs\<lparr>fs_Rename := \<lambda>f p q. if p = ''/etc/certs.d/quay.io'' then (Some (Err ''device or resource busy''), f)
     else fs_Rename files_Fs f p q\<rparr>"

lemma busy_Fs_law: "fs_law busy_Fs map_of"
  using files_Fs_law
  by (auto simp: fs_law_def law_MkdirAll_def law_WriteFile_def law_RemoveAll_def law_Rename_def law_ReadFile_def
    law_ReadDir_def law_Stat_def busy_Fs_def)

definition example_mirrors :: "'f Fs \<Rightarrow> 'f \<Rightarrow> error option outcome \<times> 'f" where
  "example_mirrors F f =
     AddMirrorConfiguration F example_Toml f ''/etc/certs.d'' [example_URL ''https'' ''ghcr.io'']
       [example_URL ''http'' ''10.0.0.1:30020''] True True"


text \<open>
  A run after one that was interrupted during the backup finds a backup, takes it for complete and
  clears the files that were not moved into it: they are lost.
\<close>

lemma interrupted_backup_loses_files:
  "let f1 = snd (example_mirrors busy_Fs example_files); f2 = snd (example_mirrors files_Fs f1)
   in map_of f1 ''/etc/certs.d/quay.io/hosts.toml'' = Some ''other'' \<and>
      fst (example_mirrors files_Fs f1) = Done None \<and> ''other'' \<notin> snd ` set f2"
  by code_simp

text \<open>
  When the directory is empty before the first run no backup is made, and the second run backs up
  the configuration that the first has written as if it were the user's.
\<close>

lemma own_configuration_backed_up:
  "let f1 = snd (example_mirrors files_Fs []); f2 = snd (example_mirrors files_Fs f1)
   in map_of f1 ''/etc/certs.d/ghcr.io/hosts.toml'' = Some ''https://ghcr.io mirrored'' \<and>
      map_of f2 ''/etc/certs.d/_backup/ghcr.io/hosts.toml'' = Some ''https://ghcr.io mirrored'' \<and>
      map_of f2 ''/etc/certs.d/ghcr.io/hosts.toml'' = Some ''https://ghcr.io mirrored mirrored''"
  by code_simp

theorem mirror_config_written_witness:
  "map_of example_configured ''/etc/certs.d/ghcr.io/hosts.toml'' = Some ''mine mirrored'' \<and>
   map_of example_configured ''/etc/certs.d/quay.io/hosts.toml'' = None"
proof -
  let ?us = "[example_URL ''https'' ''ghcr.io'', example_URL ''https'' ''docker.io'']"
  have ns: "distinct (map url_Host ?us)" "\<forall>u \<in> set ?us. plain_name (url_Host u) \<and> url_Host u \<noteq> ''_backup''"
    by (simp_all add: example_URL_def plain_name_def)
  note written = mirror_config_written [OF files_Fs_law example_clean ns configured_run]
  have "original files_Fs map_of example_files ''/etc/certs.d'' ''ghcr.io/hosts.toml'' = Some ''mine''" by code_simp
  with written have "host_written example_Toml (Some ''mine'') (mirror_capabilities True) [example_URL ''http'' ''10.0.0.1:30020'']
      (example_URL ''https'' ''ghcr.io'') (map_of example_configured ''/etc/certs.d/ghcr.io/hosts.toml'')"
    by (simp add: example_URL_def)
  moreover have "toml_Unmarshal example_Toml ''mine'' = Inr \<lparr>hf_HostConfigs = Some Map.empty, hf_Server = ''mine''\<rparr>"
    by (simp add: example_Toml_def)
  moreover have "toml_Marshal example_Toml (with_mirrors \<lparr>hf_HostConfigs = Some Map.empty, hf_Server = ''mine''\<rparr>
      (mirror_capabilities True) [example_URL ''http'' ''10.0.0.1:30020'']) = Inr ''mine mirrored''" by code_simp
  ultimately have "map_of example_configured ''/etc/certs.d/ghcr.io/hosts.toml'' = Some ''mine mirrored''"
    by (auto simp: host_written_def base_hostFile_def)
  moreover have "map_of example_configured (''/etc/certs.d'' @ ''/'' @ ''quay.io'' @ ''/hosts.toml'') = None"
    by (rule written [THEN conjunct2, rule_format]) (simp_all add: plain_name_def path_rest_def example_URL_def)
  ultimately show ?thesis by simp
qed

end
