(* ===== verification/Errgroup.thy ===== *)
theory Errgroup
  imports Go_Prelude "HOL-Library.Multiset"
begin

text \<open>
  The lifecycle of the processes that \<open>main.go\<close> and \<open>pkg/routing/bootstrap.go\<close> start with an
  \<open>errgroup\<close>: servers and the goroutines that shut them down, services that run until the context
  is done, and goroutines that wait for the context to close something. The step relation lets
  them return in any order.
\<close>

section \<open>The group\<close>

text \<open>
  \<open>Serve i\<close> is the goroutine that runs \<open>ListenAndServe\<close> of server \<open>i\<close>, \<open>Shutdown i\<close> the one that waits
  for the context to shut the server down and \<open>ShuttingDown i\<close> the same one inside the call. A
  \<open>Service\<close> is a call that returns when the context is done, or before; a \<open>Closer\<close> waits for the
  context and closes something.
\<close>

datatype task = Serve nat | Shutdown nat | ShuttingDown nat | Service string | Closer string

text \<open>
  The goroutines that run, the context of the group, the servers that were shut down, the first
  error and, in the order of time, what goroutines have returned.
\<close>

record group =
  eg_tasks :: "task multiset"
  eg_cancelled :: bool
  eg_closed :: "nat set"
  eg_err :: "error option"
  eg_returned :: "(task \<times> error option) list"

definition errgroup :: "task multiset \<Rightarrow> group" where
  "errgroup ts = \<lparr>eg_tasks = ts, eg_cancelled = False, eg_closed = {}, eg_err = None, eg_returned = []\<rparr>"

definition ErrServerClosed :: error where "ErrServerClosed = Err ''http: Server closed''"

text \<open>What the goroutine of a server makes of the result of \<open>ListenAndServe\<close>.\<close>

definition serve_result :: "error \<Rightarrow> error option" where
  "serve_result err = (if \<not> errors_Is err ErrServerClosed then Some err else None)"

text \<open>
  When a goroutine may return, and with what: \<open>ListenAndServe\<close> never returns nil; it returns
  \<open>ErrServerClosed\<close> once the server was shut down, and can fail with another error at any time.
\<close>

fun may_return :: "group \<Rightarrow> task \<Rightarrow> error option \<Rightarrow> bool" where
  "may_return s (Serve i) r = (\<exists>err. r = serve_result err \<and> (errors_Is err ErrServerClosed \<longrightarrow> i \<in> eg_closed s))"
| "may_return s (Shutdown i) r = False"
| "may_return s (ShuttingDown i) r = True"
| "may_return s (Service x) r = True"
| "may_return s (Closer x) r = eg_cancelled s"

text \<open>The first error is kept and cancels the context.\<close>

definition returned :: "group \<Rightarrow> task \<Rightarrow> error option \<Rightarrow> group" where
  "returned s t r =
     s\<lparr>eg_tasks := eg_tasks s - {#t#},
       eg_cancelled := (eg_cancelled s \<or> r \<noteq> None),
       eg_err := (if eg_err s = None then r else eg_err s),
       eg_returned := eg_returned s @ [(t, r)]\<rparr>"

inductive eg_step :: "group \<Rightarrow> group \<Rightarrow> bool" where
  cancel: "\<not> eg_cancelled s \<Longrightarrow> eg_step s (s\<lparr>eg_cancelled := True\<rparr>)"
| shutdown: "Shutdown i \<in># eg_tasks s \<Longrightarrow> eg_cancelled s \<Longrightarrow>
    eg_step s (s\<lparr>eg_tasks := eg_tasks s - {#Shutdown i#} + {#ShuttingDown i#}, eg_closed := insert i (eg_closed s)\<rparr>)"
| return: "t \<in># eg_tasks s \<Longrightarrow> may_return s t r \<Longrightarrow> eg_step s (returned s t r)"

text \<open>\<open>Wait\<close> returns when no goroutine is left.\<close>

definition Wait :: "group \<Rightarrow> error option option" where
  "Wait s = (if eg_tasks s = {#} then Some (eg_err s) else None)"

inductive eg_run :: "nat \<Rightarrow> group \<Rightarrow> group \<Rightarrow> bool" where
  stop: "eg_run 0 s s"
| step: "eg_step s s' \<Longrightarrow> eg_run k s' t \<Longrightarrow> eg_run (Suc k) s t"

inductive_cases eg_stepE: "eg_step s s'"

section \<open>Invariants\<close>

definition first_error :: "(task \<times> error option) list \<Rightarrow> error option" where
  "first_error rs = (case filter (\<lambda>r. r \<noteq> None) (map snd rs) of [] \<Rightarrow> None | r # _ \<Rightarrow> r)"

text \<open>A group in which every server has a goroutine that shuts it down.\<close>

definition paired :: "task multiset \<Rightarrow> bool" where
  "paired ts \<longleftrightarrow> (\<forall>i. Serve i \<in># ts \<longrightarrow> Shutdown i \<in># ts)"

definition eg_inv :: "group \<Rightarrow> bool" where
  "eg_inv s \<longleftrightarrow>
     (\<forall>i. Serve i \<in># eg_tasks s \<longrightarrow> Shutdown i \<in># eg_tasks s \<or> i \<in> eg_closed s) \<and>
     eg_err s = first_error (eg_returned s) \<and> (eg_err s \<noteq> None \<longrightarrow> eg_cancelled s)"

lemma first_error_snoc:
  "first_error (rs @ [(t, r)]) = (if first_error rs = None then r else first_error rs)"
proof (cases "filter (\<lambda>r. r \<noteq> None) (map snd rs)")
  case (Cons x xs)
  then have "x \<noteq> None" by (metis (mono_tags) filter_eq_ConsD)
  with Cons show ?thesis by (auto simp: first_error_def)
qed (simp add: first_error_def)

lemma first_error_None: "first_error rs = None \<longleftrightarrow> (\<forall>r \<in> set (map snd rs). r = None)"
  by (induction rs) (auto simp: first_error_def split: list.splits)

lemma eg_inv_start: "paired ts \<Longrightarrow> eg_inv (errgroup ts)"
  by (simp add: eg_inv_def errgroup_def paired_def first_error_def)

lemma member_remove: "x \<noteq> t \<Longrightarrow> x \<in># ts - {#t#} \<longleftrightarrow> x \<in># ts"
  by (simp add: in_diff_count flip: count_greater_zero_iff)

lemma returned_tasks: "i \<noteq> t \<Longrightarrow> i \<in># eg_tasks (returned s t r) \<longleftrightarrow> i \<in># eg_tasks s"
  by (simp add: returned_def member_remove)

lemma eg_inv_step:
  assumes "eg_step s s'" and "eg_inv s"
  shows "eg_inv s'"
  using assms(1)
proof cases
  case (shutdown i)
  have "Shutdown j \<in># eg_tasks s' \<or> j \<in> eg_closed s'" if "Serve j \<in># eg_tasks s'" for j
    using that assms(2) shutdown by (cases "i = j") (auto simp: eg_inv_def member_remove dest: in_diffD)
  with assms(2) shutdown show ?thesis by (simp add: eg_inv_def)
next
  case (return t r)
  have "Shutdown j \<in># eg_tasks s' \<or> j \<in> eg_closed s'" if "Serve j \<in># eg_tasks s'" for j
  proof -
    have "t \<noteq> Shutdown j" using return(3) by auto
    with that assms(2) return show ?thesis
      by (auto simp: eg_inv_def returned_tasks returned_def member_remove dest: in_diffD)
  qed
  with assms(2) return show ?thesis by (auto simp: eg_inv_def returned_def first_error_snoc)
qed (use assms(2) in \<open>simp add: eg_inv_def\<close>)

lemma eg_inv_run: "eg_run k s t \<Longrightarrow> eg_inv s \<Longrightarrow> eg_inv t"
  by (induction rule: eg_run.induct) (auto dest: eg_inv_step)

section \<open>Completion\<close>

fun task_steps :: "task \<Rightarrow> nat" where
  "task_steps (Shutdown _) = 2"
| "task_steps _ = 1"

definition steps_left :: "group \<Rightarrow> nat" where
  "steps_left s = sum_mset (image_mset task_steps (eg_tasks s)) + (if eg_cancelled s then 0 else 1)"

lemma sum_steps_remove:
  assumes "t \<in># ts"
  shows "sum_mset (image_mset task_steps (ts - {#t#})) + task_steps t = sum_mset (image_mset task_steps ts)"
proof -
  from assms obtain us where "ts = add_mset t us" by (metis insert_DiffM)
  then show ?thesis by simp
qed

lemma eg_step_decreases:
  assumes "eg_step s s'"
  shows "steps_left s' < steps_left s"
  using assms
proof cases
  case (return t r)
  with sum_steps_remove [of t "eg_tasks s"] show ?thesis
    by (cases t) (auto simp: steps_left_def returned_def)
qed (use sum_steps_remove in \<open>force simp: steps_left_def\<close>)+

lemma eg_run_bound: "eg_run k s t \<Longrightarrow> k + steps_left t \<le> steps_left s"
  by (induction rule: eg_run.induct) (auto dest: eg_step_decreases)

lemma serve_result_closed: "serve_result ErrServerClosed = None"
  by (simp add: serve_result_def ErrServerClosed_def)

lemma eg_progress:
  assumes "eg_inv s" and "eg_tasks s \<noteq> {#}"
  shows "\<exists>s'. eg_step s s'"
proof (cases "eg_cancelled s")
  case True
  from assms(2) obtain t where t: "t \<in># eg_tasks s" by blast
  have "(\<exists>i. Shutdown i \<in># eg_tasks s) \<or> (\<exists>r. may_return s t r)"
  proof (cases t)
    case (Serve i)
    with assms(1) t have "Shutdown i \<in># eg_tasks s \<or> may_return s t (serve_result ErrServerClosed)"
      by (auto simp: eg_inv_def)
    then show ?thesis by blast
  qed (use t True in auto)
  with t True show ?thesis by (blast intro: eg_step.intros)
qed (blast intro: eg_step.cancel)

lemma eg_finished:
  assumes "paired ts" and "eg_run k (errgroup ts) s"
  shows "k \<le> 1 + 2 * size ts" and "(\<nexists>s'. eg_step s s') \<Longrightarrow> Wait s = Some (first_error (eg_returned s))"
    and "Wait s = Some r \<Longrightarrow> r = first_error (eg_returned s)"
proof -
  have "sum_mset (image_mset task_steps ts) \<le> 2 * size ts"
  proof (induction ts)
    case (add t ts)
    then show ?case by (cases t) auto
  qed simp
  then show "k \<le> 1 + 2 * size ts" using eg_run_bound [OF assms(2)] by (simp add: steps_left_def errgroup_def)
  have inv: "eg_inv s" by (rule eg_inv_run [OF assms(2) eg_inv_start [OF assms(1)]])
  then show "Wait s = Some (first_error (eg_returned s))" if "\<nexists>s'. eg_step s s'"
    using eg_progress that by (auto simp: Wait_def eg_inv_def)
  show "r = first_error (eg_returned s)" if "Wait s = Some r"
    using that inv by (auto simp: Wait_def eg_inv_def split: if_splits)
qed

lemma eg_terminates: "\<exists>k t. eg_run k s t \<and> (\<nexists>t'. eg_step t t')"
proof (induction s rule: measure_induct_rule [of steps_left])
  case (less s)
  show ?case
  proof (cases "\<exists>s'. eg_step s s'")
    case True
    then obtain s' where "eg_step s s'" by blast
    with less.IH [OF eg_step_decreases [OF this]] show ?thesis by (blast intro: eg_run.step)
  qed (blast intro: eg_run.stop)
qed

end
