(* ===== verification/Bootstrap.thy ===== *)
theory Bootstrap
  imports Go_Http Errgroup
begin

text \<open>
  \<open>pkg/routing/bootstrap.go\<close>: how a node finds the first peer. The Kubernetes bootstrapper takes
  the identity of the elected leader, the HTTP bootstrapper asks a peer for its identity. The
  multi-address library, leader election and the HTTP client are parameters.
\<close>

section \<open>Parameters\<close>

text \<open>\<open>peer.AddrInfo\<close>: the identity of a peer and its addresses, of a type \<open>'m\<close> of multi-addresses.\<close>

record 'm AddrInfo =
  ai_ID :: string
  ai_Addrs :: "'m list"

text \<open>
  The operations of the multi-address library that the routing code calls; \<open>ma_SplitFirst\<close> gives
  the protocol code of the first component, \<^const>\<open>None\<close> when there is none.
\<close>

record 'm Multiaddr =
  ma_New :: "string \<Rightarrow> 'm result"
  ma_AddrInfoFromP2pAddr :: "'m \<Rightarrow> 'm AddrInfo result"
  ma_String :: "'m \<Rightarrow> string"
  ma_Encapsulate :: "'m \<Rightarrow> 'm \<Rightarrow> 'm"
  ma_ValueForProtocol :: "'m \<Rightarrow> nat \<Rightarrow> string result"
  ma_SplitFirst :: "'m \<Rightarrow> nat option"
  manet_IsIPLoopback :: "'m \<Rightarrow> bool"
  manet_IP6Unspecified :: 'm
  manet_IP4Unspecified :: 'm

section \<open>The Kubernetes bootstrapper\<close>

text \<open>\<open>kb_initClosed\<close> tells whether the channel \<open>initCh\<close> is closed.\<close>

record KubernetesBootstrapper =
  kb_namespace :: string
  kb_name :: string
  kb_id :: string
  kb_initClosed :: bool

definition NewKubernetesBootstrapper :: "string \<Rightarrow> string \<Rightarrow> KubernetesBootstrapper" where
  "NewKubernetesBootstrapper namespace name =
     \<lparr>kb_namespace = namespace, kb_name = name, kb_id = [], kb_initClosed = False\<rparr>"

text \<open>
  The callback for a new leader in its atomic steps, for an identity that is not the unknown
  leader: look whether the channel is closed, close it, and set the identity under the lock.
  Closing a closed channel panics.
\<close>

datatype phase = Checking | Closing | Setting

fun OnNewLeader_step ::
  "string \<times> phase \<Rightarrow> KubernetesBootstrapper \<Rightarrow> (phase option \<times> KubernetesBootstrapper) outcome" where
  "OnNewLeader_step (identity, Checking) k = Done (Some (if kb_initClosed k then Setting else Closing), k)"
| "OnNewLeader_step (identity, Closing) k =
     (if kb_initClosed k then Panic ''close of closed channel''
      else Done (Some Setting, k\<lparr>kb_initClosed := True\<rparr>))"
| "OnNewLeader_step (identity, Setting) k = Done (None, k\<lparr>kb_id := identity\<rparr>)"

text \<open>The callback run to its end without interruption; \<open>unknown\<close> is \<open>resourcelock.UnknownLeader\<close>.\<close>

definition OnNewLeader :: "string \<Rightarrow> string \<Rightarrow> KubernetesBootstrapper \<Rightarrow> KubernetesBootstrapper" where
  "OnNewLeader unknown identity k =
     (if identity = unknown then k
      else (if kb_initClosed k then k else k\<lparr>kb_initClosed := True\<rparr>)\<lparr>kb_id := identity\<rparr>)"

text \<open>
  \<open>Run\<close>: \<open>lock\<close> is the error of \<open>resourcelock.New\<close>, if any, and \<open>leaders\<close> are the identities that the
  leader election reports, one after the other, before it returns.
\<close>

definition kubernetes_Run ::
  "string \<Rightarrow> error option \<Rightarrow> string list \<Rightarrow> KubernetesBootstrapper \<Rightarrow> error option \<times> KubernetesBootstrapper" where
  "kubernetes_Run unknown lock leaders k =
     (case lock of
        Some err \<Rightarrow> (Some err, k)
      | None \<Rightarrow> (None, foldl (\<lambda>k identity. OnNewLeader unknown identity k) k leaders))"

definition parse_addrInfo :: "'m Multiaddr \<Rightarrow> string \<Rightarrow> 'm AddrInfo result" where
  "parse_addrInfo M s = bind_result (ma_New M s) (ma_AddrInfoFromP2pAddr M)"

text \<open>\<open>Get\<close> does not return (\<^const>\<open>None\<close>) while the channel is open.\<close>

definition kubernetes_Get :: "'m Multiaddr \<Rightarrow> KubernetesBootstrapper \<Rightarrow> 'm AddrInfo result option" where
  "kubernetes_Get M k = (if kb_initClosed k then Some (parse_addrInfo M (kb_id k)) else None)"

section \<open>The HTTP bootstrapper\<close>

record HTTPBootstrapper =
  hb_addr :: string
  hb_peer :: string

definition NewHTTPBootstrapper :: "string \<Rightarrow> string \<Rightarrow> HTTPBootstrapper" where
  "NewHTTPBootstrapper addr peer = \<lparr>hb_addr = addr, hb_peer = peer\<rparr>"

text \<open>The handler of the path \<open>/id\<close>; every other path is answered by the mux of \<open>net/http\<close>.\<close>

definition id_handler :: "string \<Rightarrow> http_writer \<Rightarrow> http_writer" where
  "id_handler ident w = fst (http_Write (http_WriteHeader w 200) ident)"

definition not_found :: "http_writer \<Rightarrow> http_writer" where
  "not_found w =
     fst (http_Write
       (http_WriteHeader
         (w\<lparr>hw_header := header_Set (header_Set (hw_header w) ''Content-Type'' ''text/plain; charset=utf-8'')
              ''X-Content-Type-Options'' ''nosniff''\<rparr>) 404)
       (''404 page not found'' @ [CHR 0x0A]))"

definition http_mux :: "string \<Rightarrow> Request \<Rightarrow> http_writer \<Rightarrow> http_writer" where
  "http_mux ident r w = (if req_Path r = ''/id'' then id_handler ident w else not_found w)"

text \<open>\<open>Run\<close> starts the server and the goroutine that shuts it down, and waits for both.\<close>

definition http_Run :: "group" where
  "http_Run = errgroup {# Serve 0, Shutdown 0 #}"

text \<open>\<open>Get\<close>: \<open>client\<close> is \<open>http.DefaultClient.Get\<close>, with the result of reading the body.\<close>

definition http_Get :: "'m Multiaddr \<Rightarrow> (string \<Rightarrow> string result result) \<Rightarrow> HTTPBootstrapper \<Rightarrow> 'm AddrInfo result" where
  "http_Get M client h = bind_result (client (hb_peer h)) (\<lambda>body. bind_result body (parse_addrInfo M))"

section \<open>The interface\<close>

text \<open>
  What a bootstrapper promises its clients: it knows of an identity or of the reason why it does
  not, or waits for one; \<open>Get\<close> returns the peer with that identity.
\<close>

locale bootstrapper =
  fixes M :: "'m Multiaddr"
    and get :: "'b \<Rightarrow> 'm AddrInfo result option"
    and current :: "'b \<Rightarrow> string result option"
  assumes get_current: "get b = map_option (\<lambda>r. bind_result r (parse_addrInfo M)) (current b)"
begin

lemma get_found: "get b = Some (Inr info) \<Longrightarrow> \<exists>x. current b = Some (Inr x) \<and> parse_addrInfo M x = Inr info"
  by (auto simp: get_current go_result)

lemma get_known: "current b = Some (Inr x) \<Longrightarrow> get b = Some (parse_addrInfo M x)"
  by (simp add: get_current)

lemma get_waits: "get b = None \<longleftrightarrow> current b = None"
  by (simp add: get_current)

end

definition kubernetes_current :: "KubernetesBootstrapper \<Rightarrow> string result option" where
  "kubernetes_current k = (if kb_initClosed k then Some (Inr (kb_id k)) else None)"

interpretation kubernetes: bootstrapper M "kubernetes_Get M" kubernetes_current for M
  by unfold_locales (simp add: kubernetes_Get_def kubernetes_current_def)

definition http_current :: "(string \<Rightarrow> string result result) \<Rightarrow> HTTPBootstrapper \<Rightarrow> string result option" where
  "http_current client h = Some (bind_result (client (hb_peer h)) id)"

interpretation http: bootstrapper M "\<lambda>h. Some (http_Get M client h)" "http_current client" for M client
proof
  fix h
  show "Some (http_Get M client h) = map_option (\<lambda>r. bind_result r (parse_addrInfo M)) (http_current client h)"
    by (cases "client (hb_peer h)") (simp_all add: http_Get_def http_current_def)
qed

section \<open>Callbacks and readers interleaved\<close>

text \<open>
  The bootstrapper with the callbacks that have been called and have not returned yet, and the
  leaders that were reported so far.
\<close>

record kstate =
  ks_k :: KubernetesBootstrapper
  ks_calls :: "(string \<times> phase) list"
  ks_leaders :: "string list"
  ks_panic :: bool

text \<open>
  A report calls the callback; a callback that is running takes its next step. \<open>overlap\<close> tells
  whether a callback may be called while another one runs.
\<close>

inductive k_step :: "bool \<Rightarrow> string \<Rightarrow> kstate \<Rightarrow> kstate \<Rightarrow> bool" for overlap unknown where
  report: "identity \<noteq> unknown \<Longrightarrow> overlap \<or> ks_calls s = [] \<Longrightarrow>
    k_step overlap unknown s
      (s\<lparr>ks_calls := ks_calls s @ [(identity, Checking)], ks_leaders := ks_leaders s @ [identity]\<rparr>)"
| ignore: "identity = unknown \<Longrightarrow> k_step overlap unknown s s"
| advance: "ks_calls s = xs @ (identity, ph) # ys \<Longrightarrow> OnNewLeader_step (identity, ph) (ks_k s) = Done (Some ph', k') \<Longrightarrow>
    k_step overlap unknown s (s\<lparr>ks_calls := xs @ (identity, ph') # ys, ks_k := k'\<rparr>)"
| finish: "ks_calls s = xs @ (identity, ph) # ys \<Longrightarrow> OnNewLeader_step (identity, ph) (ks_k s) = Done (None, k') \<Longrightarrow>
    k_step overlap unknown s (s\<lparr>ks_calls := xs @ ys, ks_k := k'\<rparr>)"
| crash: "ks_calls s = xs @ (identity, ph) # ys \<Longrightarrow> OnNewLeader_step (identity, ph) (ks_k s) = Panic p \<Longrightarrow>
    k_step overlap unknown s (s\<lparr>ks_panic := True\<rparr>)"

definition k_start :: "string \<Rightarrow> string \<Rightarrow> kstate" where
  "k_start namespace name =
     \<lparr>ks_k = NewKubernetesBootstrapper namespace name, ks_calls = [], ks_leaders = [], ks_panic = False\<rparr>"

inductive k_reachable :: "bool \<Rightarrow> string \<Rightarrow> kstate \<Rightarrow> bool" for overlap unknown where
  start: "k_reachable overlap unknown (k_start namespace name)"
| step: "k_reachable overlap unknown s \<Longrightarrow> k_step overlap unknown s s' \<Longrightarrow> k_reachable overlap unknown s'"

text \<open>
  Whether or not callbacks overlap: the identity is empty or one of the reported leaders, running
  callbacks are for reported leaders, and the channel is open until one was reported.
\<close>

definition k_inv :: "string \<Rightarrow> kstate \<Rightarrow> bool" where
  "k_inv unknown s \<longleftrightarrow>
     fst ` set (ks_calls s) \<subseteq> set (ks_leaders s) \<and> (kb_id (ks_k s) = [] \<or> kb_id (ks_k s) \<in> set (ks_leaders s)) \<and>
     unknown \<notin> set (ks_leaders s) \<and> (kb_initClosed (ks_k s) \<longrightarrow> ks_leaders s \<noteq> [])"

lemma OnNewLeader_stepD:
  "OnNewLeader_step (identity, ph) k = Done (r, k') \<Longrightarrow>
     kb_id k' = (if r = None then identity else kb_id k) \<and> (kb_initClosed k \<longrightarrow> kb_initClosed k')"
  by (cases ph) (auto split: if_splits)

lemma k_inv_step:
  assumes "k_step overlap unknown s s'" and "k_inv unknown s"
  shows "k_inv unknown s'"
  using assms(1)
proof cases
  case (advance xs identity ph ys ph' k')
  with assms(2) OnNewLeader_stepD [OF advance(3)] show ?thesis by (auto simp: k_inv_def)
next
  case (finish xs identity ph ys k')
  with assms(2) OnNewLeader_stepD [OF finish(3)] show ?thesis by (auto simp: k_inv_def)
qed (use assms(2) in \<open>auto simp: k_inv_def\<close>)

lemma k_inv_reachable: "k_reachable overlap unknown s \<Longrightarrow> k_inv unknown s"
proof (induction rule: k_reachable.induct)
  case (start namespace name)
  then show ?case by (simp add: k_inv_def k_start_def NewKubernetesBootstrapper_def)
qed (rule k_inv_step)

text \<open>
  When callbacks do not overlap: the channel is closed as soon as the identity can be set, and
  with no callback running the identity is the last leader that was reported.
\<close>

definition k_seq_inv :: "kstate \<Rightarrow> bool" where
  "k_seq_inv s \<longleftrightarrow>
     \<not> ks_panic s \<and>
     (case ks_calls s of
        [] \<Rightarrow> if ks_leaders s = [] then kb_id (ks_k s) = [] \<and> \<not> kb_initClosed (ks_k s)
              else kb_initClosed (ks_k s) \<and> kb_id (ks_k s) = last (ks_leaders s)
      | [(identity, ph)] \<Rightarrow>
          ks_leaders s \<noteq> [] \<and> identity = last (ks_leaders s) \<and>
          (ph = Closing \<longrightarrow> \<not> kb_initClosed (ks_k s)) \<and> (ph = Setting \<longrightarrow> kb_initClosed (ks_k s))
      | _ \<Rightarrow> False)"

lemma k_seq_one:
  assumes "k_seq_inv s" and "ks_calls s = xs @ c # ys"
  shows "xs = [] \<and> ys = []"
proof -
  have "length (ks_calls s) \<le> 1"
    using assms(1) by (cases "ks_calls s"; cases "tl (ks_calls s)") (auto simp: k_seq_inv_def split: prod.splits)
  with assms(2) show ?thesis by simp
qed

lemma k_seq_inv_step:
  assumes "k_step False unknown s s'" and "k_seq_inv s"
  shows "k_seq_inv s'"
  using assms(1)
proof cases
  case (report identity)
  with assms(2) show ?thesis by (auto simp: k_seq_inv_def)
next
  case (advance xs identity ph ys ph' k')
  note one = k_seq_one [OF assms(2) this(2)]
  from advance assms(2) one show ?thesis by (cases ph) (auto simp: k_seq_inv_def split: if_splits)
next
  case (finish xs identity ph ys k')
  note one = k_seq_one [OF assms(2) this(2)]
  from finish assms(2) one show ?thesis by (cases ph) (auto simp: k_seq_inv_def split: if_splits)
next
  case (crash xs identity ph ys p)
  note one = k_seq_one [OF assms(2) this(2)]
  from crash assms(2) one show ?thesis by (cases ph) (auto simp: k_seq_inv_def split: if_splits)
qed (use assms(2) in simp)

lemma k_seq_inv_reachable: "k_reachable False unknown s \<Longrightarrow> k_seq_inv s"
proof (induction rule: k_reachable.induct)
  case (start namespace name)
  then show ?case by (simp add: k_seq_inv_def k_start_def NewKubernetesBootstrapper_def)
qed (rule k_seq_inv_step)

text \<open>The steps of the callback, one after the other, are the callback.\<close>

lemma OnNewLeader_steps:
  assumes "identity \<noteq> unknown"
  shows "\<exists>k' ph. OnNewLeader_step (identity, Checking) k = Done (Some ph, k) \<and>
    (if ph = Setting then k' = k else OnNewLeader_step (identity, Closing) k = Done (Some Setting, k')) \<and>
    OnNewLeader_step (identity, Setting) k' = Done (None, OnNewLeader unknown identity k)"
  using assms by (auto simp: OnNewLeader_def)

lemma kubernetes_Run_leader:
  assumes "kubernetes_Run unknown None (leaders @ [identity]) k = (e, k')" and "identity \<noteq> unknown"
  shows "e = None \<and> kubernetes_Get M k' = Some (parse_addrInfo M identity)"
  using assms by (auto simp: kubernetes_Run_def kubernetes_Get_def OnNewLeader_def)


section \<open>Concrete runs\<close>

definition example_Multiaddr :: "string Multiaddr" where
  "example_Multiaddr =
     \<lparr>ma_New = \<lambda>s. if prefix ''/'' s then Inr s else Inl (Err ''multiaddr must begin with /''),
      ma_AddrInfoFromP2pAddr = \<lambda>m.
        (case str_Index m ''/p2p/'' of
           None \<Rightarrow> Inl (Err ''invalid p2p multiaddr'')
         | Some i \<Rightarrow> Inr \<lparr>ai_ID = drop (i + 5) m, ai_Addrs = [take i m]\<rparr>),
      ma_String = id, ma_Encapsulate = (@),
      ma_ValueForProtocol = \<lambda>m p.
        (case str_SplitByte m (CHR ''/'') of
           _ # proto # v # _ \<Rightarrow>
             if (p = 4 \<and> proto = ''ip4'') \<or> (p = 41 \<and> proto = ''ip6'') then Inr v else Inl ErrProtocolNotFound
         | _ \<Rightarrow> Inl ErrProtocolNotFound),
      ma_SplitFirst = \<lambda>m. if prefix ''/ip6/'' m then Some 41 else if prefix ''/ip4/'' m then Some 4 else None,
      manet_IsIPLoopback = \<lambda>m. prefix ''/ip4/127.'' m \<or> prefix ''/ip6/::1/'' m,
      manet_IP6Unspecified = ''/ip6/::'', manet_IP4Unspecified = ''/ip4/0.0.0.0''\<rparr>"

abbreviation example_leader :: string where
  "example_leader \<equiv> ''/ip4/10.0.0.1/tcp/5001/p2p/A''"

lemma example_parse:
  "parse_addrInfo example_Multiaddr example_leader = Inr \<lparr>ai_ID = ''A'', ai_Addrs = [''/ip4/10.0.0.1/tcp/5001'']\<rparr>"
  by (simp add: parse_addrInfo_def example_Multiaddr_def)

definition example_k :: "phase list \<Rightarrow> string \<Rightarrow> bool \<Rightarrow> kstate" where
  "example_k phs ident closed =
     \<lparr>ks_k = \<lparr>kb_namespace = ''spegel'', kb_name = ''lock'', kb_id = ident, kb_initClosed = closed\<rparr>,
      ks_calls = map (\<lambda>ph. (example_leader, ph)) phs, ks_leaders = [example_leader], ks_panic = False\<rparr>"

lemma example_k_reachable:
  "k_reachable overlap [] (example_k [Checking] [] False)" "k_reachable overlap [] (example_k [Closing] [] False)"
  "k_reachable overlap [] (example_k [Setting] [] True)" "k_reachable overlap [] (example_k [] example_leader True)"
proof -
  have start: "k_reachable overlap [] (k_start ''spegel'' ''lock'')" by (rule k_reachable.start)
  have "k_step overlap [] (k_start ''spegel'' ''lock'') (example_k [Checking] [] False)"
    using k_step.report [of example_leader "[]" overlap "k_start ''spegel'' ''lock''"]
    by (simp add: k_start_def example_k_def NewKubernetesBootstrapper_def)
  with start show chk: "k_reachable overlap [] (example_k [Checking] [] False)" by (rule k_reachable.step)
  have "k_step overlap [] (example_k [Checking] [] False) (example_k [Closing] [] False)"
    using k_step.advance [of "example_k [Checking] [] False" "[]" example_leader Checking "[]" Closing] by (simp add: example_k_def)
  with chk show cls: "k_reachable overlap [] (example_k [Closing] [] False)" by (rule k_reachable.step)
  have "k_step overlap [] (example_k [Closing] [] False) (example_k [Setting] [] True)"
    using k_step.advance [of "example_k [Closing] [] False" "[]" example_leader Closing "[]" Setting] by (simp add: example_k_def)
  with cls show st: "k_reachable overlap [] (example_k [Setting] [] True)" by (rule k_reachable.step)
  have "k_step overlap [] (example_k [Setting] [] True) (example_k [] example_leader True)"
    using k_step.finish [of "example_k [Setting] [] True" "[]" example_leader Setting "[]"] by (simp add: example_k_def)
  with st show "k_reachable overlap [] (example_k [] example_leader True)" by (rule k_reachable.step)
qed

text \<open>
  The channel is closed before the identity is set, so that \<open>Get\<close> can return with the empty
  identity although a leader was reported.
\<close>

lemma get_before_identity:
  "\<exists>s. k_reachable False [] s \<and> ks_leaders s = [example_leader] \<and>
     kubernetes_Get example_Multiaddr (ks_k s) = Some (Inl (Err ''multiaddr must begin with /''))"
  by (rule exI [of _ "example_k [Setting] [] True"])
    (simp add: example_k_reachable, simp add: example_k_def kubernetes_Get_def parse_addrInfo_def example_Multiaddr_def)

text \<open>Callbacks that overlap can close the channel twice.\<close>

lemma overlapping_callbacks_panic: "\<exists>s. k_reachable True [] s \<and> ks_panic s"
proof -
  let ?s1 = "(example_k [Closing, Checking] [] False)\<lparr>ks_leaders := [example_leader, example_leader]\<rparr>"
  let ?s2 = "(example_k [Closing, Closing] [] False)\<lparr>ks_leaders := [example_leader, example_leader]\<rparr>"
  let ?s3 = "(example_k [Setting, Closing] [] True)\<lparr>ks_leaders := [example_leader, example_leader]\<rparr>"
  have 1: "k_step True [] (example_k [Closing] [] False) ?s1"
    using k_step.report [of example_leader "[]" True "example_k [Closing] [] False"] by (simp add: example_k_def)
  have 2: "k_step True [] ?s1 ?s2"
    using k_step.advance [of ?s1 "[(example_leader, Closing)]" example_leader Checking "[]" Closing]
    by (simp add: example_k_def)
  have 3: "k_step True [] ?s2 ?s3"
    using k_step.advance [of ?s2 "[]" example_leader Closing "[(example_leader, Closing)]" Setting]
    by (simp add: example_k_def)
  have 4: "k_step True [] ?s3 (?s3\<lparr>ks_panic := True\<rparr>)"
    using k_step.crash [of ?s3 "[(example_leader, Setting)]" example_leader Closing "[]"] by (simp add: example_k_def)
  note step = k_reachable.step [of True "[]"]
  from step [OF step [OF step [OF step [OF example_k_reachable(2) 1] 2] 3] 4] show ?thesis
    by (intro exI conjI) (assumption, simp)
qed


section \<open>Bootstrapping over HTTP\<close>

text \<open>
  Bootstrapping over HTTP: when the peer's server, running with an identity, answers the
  request for its path \<open>/id\<close>, then the bootstrapper finds the peer with that identity.
\<close>

theorem http_bootstrap:
  assumes "req_Path r = ''/id''" and "w = http_mux ident r (http_new_writer False None)"
    and "client (hb_peer h) = Inr (Inr (hw_body w))"
  shows "wire_status w = 200 \<and> http_Get M client h = parse_addrInfo M ident"
proof -
  have "hw_body w = ident \<and> wire_status w = 200"
    unfolding assms(2) using assms(1)
    by (simp add: http_mux_def id_handler_def http_Write_def http_WriteHeader_def http_new_writer_def
        http_informational_def body_allowed_def header_Get_def parse_nat_def wire_status_def Let_def)
  with assms(3) show ?thesis by (simp add: http_Get_def)
qed

definition example_id_request :: Request where
  "example_id_request =
     \<lparr>req_Method = ''GET'', req_Path = ''/id'', req_RawQuery = [], req_Header = Map.empty, req_Host = ''10.0.0.1'',
      req_RemoteAddr = ''10.0.0.2:1'', req_TLS = False, req_Done = None, req_ctxErr = Err []\<rparr>"

definition example_http_client :: "string \<Rightarrow> string result result" where
  "example_http_client url =
     Inr (Inr (hw_body (http_mux example_leader example_id_request (http_new_writer False None))))"

theorem http_bootstrap_witness:
  "http_Get example_Multiaddr example_http_client (NewHTTPBootstrapper '':5002'' ''http://10.0.0.1:5002/id'') =
     Inr \<lparr>ai_ID = ''A'', ai_Addrs = [''/ip4/10.0.0.1/tcp/5001'']\<rparr>"
proof -
  let ?w = "http_mux example_leader example_id_request (http_new_writer False None)"
  let ?h = "NewHTTPBootstrapper '':5002'' ''http://10.0.0.1:5002/id''"
  have path: "req_Path example_id_request = ''/id''" by (simp add: example_id_request_def)
  from example_parse http_bootstrap [OF path refl, of example_http_client ?h example_leader example_Multiaddr]
  show ?thesis by (simp add: example_http_client_def)
qed

end
