(* ===== verification/Go_Netip.thy ===== *)
theory Go_Netip
  imports Go_Prelude "HOL-Library.Word"
begin

text \<open>
  Packages \<open>net/netip\<close>, \<open>net\<close> and \<open>strconv\<close> as the routers use them: parsing and printing IP
  addresses, and parsing ports. The reasons for which an address is rejected are only logged and are one
  error here.
\<close>

section \<open>Addresses\<close>

text \<open>The four bytes of an IPv4 address; the eight groups of an IPv6 address and its zone.\<close>

datatype ip_addr = V4 "nat list" | V6 "nat list" string

text \<open>An octet: one to three digits without a leading zero, at most 255.\<close>

definition parse_octet :: "string \<Rightarrow> nat option" where
  "parse_octet s =
     (if 1 < length s \<and> hd s = CHR ''0'' then None
      else case parse_nat s of None \<Rightarrow> None | Some n \<Rightarrow> if n \<le> 255 then Some n else None)"

definition parse_ip4 :: "string \<Rightarrow> nat list option" where
  "parse_ip4 s =
     (let parts = map parse_octet (str_SplitByte s (CHR ''.'')) in
      if length parts = 4 \<and> None \<notin> set parts then Some (map the parts) else None)"

definition hex_value :: "char \<Rightarrow> nat option" where
  "hex_value c =
     (let n = of_char c in
      if 48 \<le> n \<and> n \<le> 57 then Some (n - 48)
      else if 97 \<le> n \<and> n \<le> 102 then Some (n - 87)
      else if 65 \<le> n \<and> n \<le> 70 then Some (n - 55) else None)"

definition hex_number :: "string \<Rightarrow> nat" where
  "hex_number s = foldl (\<lambda>acc c. 16 * acc + (case hex_value c of None \<Rightarrow> 0 | Some d \<Rightarrow> d)) 0 s"

text \<open>
  The groups of an IPv6 address: \<open>room\<close> is the number of groups that still fit, \<open>acc\<close> the groups so
  far and \<open>ell\<close> the number of groups before the double colon.
\<close>

fun ip6_groups :: "nat \<Rightarrow> string \<Rightarrow> nat list \<Rightarrow> nat option \<Rightarrow> (nat list \<times> nat option) option" where
  "ip6_groups 0 s acc ell = (if s = [] then Some (acc, ell) else None)"
| "ip6_groups (Suc room) s acc ell =
     (let d = takeWhile (\<lambda>c. hex_value c \<noteq> None) s; r = drop (length d) s; acc' = acc @ [hex_number d] in
      if d = [] \<or> 4 < length d then None
      else if prefix ''.'' r then
        (if ell = None \<and> room \<noteq> 1 \<or> room = 0 then None
         else
           (case parse_ip4 s of
              Some [a, b, c, d] \<Rightarrow> Some (acc @ [256 * a + b, 256 * c + d], ell)
            | _ \<Rightarrow> None))
      else if r = [] then Some (acc', ell)
      else if hd r \<noteq> CHR '':'' \<or> length r = 1 then None
      else if hd (tl r) = CHR '':'' then
        (if ell \<noteq> None then None
         else if tl (tl r) = [] then Some (acc', Some (length acc'))
         else ip6_groups room (tl (tl r)) acc' (Some (length acc')))
      else ip6_groups room (tl r) acc' ell)"

definition ip6_expand :: "nat list \<times> nat option \<Rightarrow> nat list option" where
  "ip6_expand g =
     (case g of (gs, ell) \<Rightarrow>
        if length gs < 8 then
          map_option (\<lambda>k. take k gs @ replicate (8 - length gs) 0 @ drop k gs) ell
        else if ell \<noteq> None then None else Some gs)"

definition parse_ip6 :: "string \<Rightarrow> ip_addr option" where
  "parse_ip6 input =
     (case str_Cut input ''%'' of (s, zone, found) \<Rightarrow>
        if found \<and> zone = [] then None
        else if s = ''::'' then Some (V6 (replicate 8 0) zone)
        else
          map_option (\<lambda>gs. V6 gs zone)
            (Option.bind
              (if prefix ''::'' s then ip6_groups 8 (drop 2 s) [] (Some 0) else ip6_groups 8 s [] None)
              ip6_expand))"

text \<open>\<open>netip.ParseAddr\<close>: the first dot, colon or percent sign decides.\<close>

definition ParseAddr :: "string \<Rightarrow> ip_addr result" where
  "ParseAddr s =
     (case (case dropWhile (\<lambda>c. c \<notin> {CHR ''.'', CHR '':'', CHR ''%''}) s of
              [] \<Rightarrow> None
            | c # _ \<Rightarrow>
                if c = CHR ''.'' then map_option V4 (parse_ip4 s)
                else if c = CHR '':'' then parse_ip6 s else None) of
        None \<Rightarrow> Inl (Err ''ParseAddr: unable to parse IP'')
      | Some a \<Rightarrow> Inr a)"

section \<open>Printing\<close>

definition hex_char :: "nat \<Rightarrow> char" where
  "hex_char d = (if d < 10 then char_of (48 + d) else char_of (87 + d))"

fun format_hex :: "nat \<Rightarrow> string" where
  "format_hex n = (if n < 16 then [hex_char n] else format_hex (n div 16) @ [hex_char (n mod 16)])"

declare format_hex.simps [simp del]

definition zero_run :: "nat list \<Rightarrow> nat \<Rightarrow> nat" where
  "zero_run gs i = length (takeWhile (\<lambda>g. g = 0) (drop i gs))"

text \<open>The longest run of at least two zero groups, the first of several, as its start and its length.\<close>

definition longest_zeros :: "nat list \<Rightarrow> (nat \<times> nat) option" where
  "longest_zeros gs =
     fold (\<lambda>i best. let l = zero_run gs i in
             if 2 \<le> l \<and> (case best of None \<Rightarrow> True | Some (_, m) \<Rightarrow> m < l) then Some (i, l) else best)
       [0..<8] None"

definition ip4_String :: "nat list \<Rightarrow> string" where
  "ip4_String bs = str_Join (map format_nat bs) ''.''"

definition ip6_String :: "nat list \<Rightarrow> string" where
  "ip6_String gs =
     (case longest_zeros gs of
        None \<Rightarrow> str_Join (map format_hex gs) '':''
      | Some (i, l) \<Rightarrow>
          str_Join (map format_hex (take i gs)) '':'' @ ''::'' @ str_Join (map format_hex (drop (i + l) gs)) '':'')"

definition is_4in6 :: "nat list \<Rightarrow> bool" where
  "is_4in6 gs = (take 6 gs = [0, 0, 0, 0, 0, 65535])"

fun addr_String :: "ip_addr \<Rightarrow> string" where
  "addr_String (V4 bs) = ip4_String bs"
| "addr_String (V6 gs zone) =
     (if is_4in6 gs then
        ''::ffff:'' @ ip4_String (concat (map (\<lambda>g. [g div 256, g mod 256]) (drop 6 gs)))
      else ip6_String gs) @
     (if zone = [] then [] else ''%'' @ zone)"

section \<open>Package net\<close>

text \<open>\<open>net.ParseIP\<close>: an address without a zone. \<open>To4\<close> is not nil for IPv4 and IPv4 in IPv6.\<close>

definition ParseIP :: "string \<Rightarrow> ip_addr option" where
  "ParseIP s =
     (case ParseAddr s of
        Inl _ \<Rightarrow> None
      | Inr (V4 bs) \<Rightarrow> Some (V4 bs)
      | Inr (V6 gs zone) \<Rightarrow> if zone = [] then Some (V6 gs zone) else None)"

fun To4 :: "ip_addr option \<Rightarrow> bool" where
  "To4 None = False"
| "To4 (Some (V4 _)) = True"
| "To4 (Some (V6 gs _)) = is_4in6 gs"

definition To16 :: "ip_addr option \<Rightarrow> bool" where
  "To16 ip = (ip \<noteq> None)"

section \<open>Ports\<close>

text \<open>\<open>strconv.ParseUint\<close> with base 10 and 16 bits.\<close>

definition ParseUint16 :: "string \<Rightarrow> 16 word result" where
  "ParseUint16 s =
     (case parse_nat s of
        None \<Rightarrow> Inl (Err (''strconv.ParseUint: parsing '' @ s @ '': invalid syntax''))
      | Some n \<Rightarrow>
          if n < 2 ^ 16 then Inr (of_nat n)
          else Inl (Err (''strconv.ParseUint: parsing '' @ s @ '': value out of range'')))"

lemma ParseUint16_ok:
  assumes "ParseUint16 s = Inr p"
  shows "parse_nat s = Some (unat p)"
  using assms by (auto simp: ParseUint16_def unat_of_nat take_bit_nat_eq_self split: option.splits if_splits)

text \<open>IPv4 addresses are read back as they are printed.\<close>

lemma format_nat_digits: "c \<in> set (format_nat n) \<Longrightarrow> digit_value c \<noteq> None"
proof (induction n rule: format_nat.induct)
  case (1 n)
  then show ?case by (auto simp: format_nat.simps [of n] split: if_splits)
qed

lemma format_nat_hd: "0 < n \<Longrightarrow> hd (format_nat n) \<noteq> CHR ''0''"
proof (induction n rule: format_nat.induct)
  case (1 n)
  show ?case
  proof (cases "n < 10")
    case True
    have "digit_value (CHR ''0'') = Some 0" by (simp add: digit_value_def)
    with True 1(2) have "digit_char n \<noteq> CHR ''0''" by (metis digit_value_char less_numeral_extra(3) option.inject)
    with True show ?thesis by (simp add: format_nat.simps [of n])
  next
    case False
    with 1 show ?thesis by (simp add: format_nat.simps [of n])
  qed
qed

lemma parse_octet_format:
  assumes "n \<le> 255"
  shows "parse_octet (format_nat n) = Some n"
proof -
  have "\<not> (1 < length (format_nat n) \<and> hd (format_nat n) = CHR ''0'')"
    using format_nat_hd [of n] by (cases "n = 0") (simp_all add: format_nat.simps [of 0])
  with assms parse_format_nat [of n] show ?thesis by (simp add: parse_octet_def)
qed

lemma format_nat_no_separator: "c \<in> set (format_nat n) \<Longrightarrow> c \<notin> {CHR ''.'', CHR '':'', CHR ''%''}"
  using format_nat_digits [of c n] by (auto simp: digit_value_def)

lemma ParseAddr_ip4:
  assumes "length bs = 4" and "\<forall>b \<in> set bs. b \<le> 255"
  shows "ParseAddr (ip4_String bs) = Inr (V4 bs)"
proof -
  have no_dot: "CHR ''.'' \<notin> set (format_nat n)" for n using format_nat_no_separator [of "CHR ''.''" n] by auto
  have split: "str_SplitByte (ip4_String bs) (CHR ''.'') = map format_nat bs"
    unfolding ip4_String_def using assms(1) no_dot by (intro str_SplitByte_Join) auto
  have parts: "map parse_octet (map format_nat bs) = map Some bs" using assms(2) by (auto simp: parse_octet_format)
  have "map (the \<circ> Some) bs = bs" by (simp add: map_idI)
  then have "parse_ip4 (ip4_String bs) = Some bs"
    unfolding parse_ip4_def Let_def split parts using assms(1) by simp
  moreover from assms(1) obtain a b c d where "bs = [a, b, c, d]" by (auto simp: length_Suc_conv eval_nat_numeral)
  then have "\<exists>r. dropWhile (\<lambda>c. c \<notin> {CHR ''.'', CHR '':'', CHR ''%''}) (ip4_String bs) = CHR ''.'' # r"
    using format_nat_no_separator by (simp add: ip4_String_def dropWhile_append2)
  ultimately show ?thesis by (auto simp: ParseAddr_def)
qed

end
