(* ===== verification/P2P.thy ===== *)
theory P2P
  imports Bootstrap Router Go_Netip
begin

text \<open>
  \<open>pkg/routing/p2p.go\<close>: the router over a distributed hash table. The libp2p host, the hash table
  and content identifiers are parameters; what is relied on of them is stated as a hypothesis
  (\<open>dht_law\<close>), under which the router meets the contract of routers.
\<close>

section \<open>Parameters\<close>

text \<open>A libp2p host: its identity and the addresses it announces.\<close>

record 'm Host =
  h_ID :: string
  h_Addrs :: "'m list"

record cid_Prefix =
  cid_Version :: nat
  cid_Codec :: nat
  cid_MhType :: nat
  cid_MhLength :: int

text \<open>
  The options of the hash table. The function for the bootstrap peers is given what the
  bootstrapper's \<open>Get\<close> returned.
\<close>

record 'm dht_Options =
  do_ModeServer :: bool
  do_ProtocolPrefix :: string
  do_DisableValues :: bool
  do_MaxRecordAge :: int
  do_BootstrapPeers :: "'m AddrInfo result \<Rightarrow> 'm AddrInfo list"

text \<open>
  The calls into libp2p, with \<open>'c\<close> for content identifiers and \<open>'d\<close> for the state of the hash table.
  \<open>lp_FindProvidersAsync\<close> gives what the returned channel delivers before it is closed.
\<close>

record ('m, 'c, 'd) Libp2p =
  lp_New :: "'m list \<Rightarrow> ('m list \<Rightarrow> 'm list) \<Rightarrow> 'm Host result"
  lp_dht_New :: "'m Host \<Rightarrow> 'm dht_Options \<Rightarrow> 'd result"
  lp_Bootstrap :: "'d \<Rightarrow> error option \<times> 'd"
  lp_RoutingTableSize :: "'d \<Rightarrow> nat"
  lp_FindProvidersAsync :: "'d \<Rightarrow> 'c \<Rightarrow> int \<Rightarrow> 'm AddrInfo list"
  lp_Provide :: "'d \<Rightarrow> 'c \<Rightarrow> error option \<times> 'd"
  lp_Close :: "'m Host \<Rightarrow> error option"
  lp_Sum :: "cid_Prefix \<Rightarrow> string \<Rightarrow> 'c result"

section \<open>Operations\<close>

text \<open>Durations are in nanoseconds.\<close>

definition KeyTTL :: int where "KeyTTL = 10 * 60 * 1000000000"

text \<open>The protocol codes and the codecs are those of the multicodec table.\<close>

definition P_IP4 :: nat where "P_IP4 = 4"
definition P_IP6 :: nat where "P_IP6 = 41"

definition createCid :: "('m, 'c, 'd) Libp2p \<Rightarrow> string \<Rightarrow> 'c result" where
  "createCid L key = lp_Sum L \<lparr>cid_Version = 1, cid_Codec = 0x55, cid_MhType = 0x12, cid_MhLength = -1\<rparr> key"

definition isIp6 :: "'m Multiaddr \<Rightarrow> 'm \<Rightarrow> bool" where
  "isIp6 M m = (case ma_SplitFirst M m of None \<Rightarrow> False | Some code \<Rightarrow> code = P_IP6)"

fun ip_for :: "'m Multiaddr \<Rightarrow> 'm \<Rightarrow> nat list \<Rightarrow> ip_addr result" where
  "ip_for M m [] = Inl (Err ''IP not found in address'')"
| "ip_for M m (p # ps) =
     (case ma_ValueForProtocol M m p of
        Inl err \<Rightarrow> if errors_Is err ErrProtocolNotFound then ip_for M m ps else Inl err
      | Inr v \<Rightarrow> ParseAddr v)"

definition ipInMultiaddr :: "'m Multiaddr \<Rightarrow> 'm \<Rightarrow> ip_addr result" where
  "ipInMultiaddr M m = ip_for M m [P_IP6, P_IP4]"

definition listenMultiaddrs :: "'m Multiaddr \<Rightarrow> string \<Rightarrow> 'm list result" where
  "listenMultiaddrs M addr =
     bind_result (SplitHostPort addr) (\<lambda>(h, p).
     bind_result (ma_New M (''/tcp/'' @ p)) (\<lambda>tcpComp.
     bind_result
       (let ip = ParseIP h in
        if To4 ip then
          (case ma_New M (''/ip4/'' @ h) of
             Inl err \<Rightarrow> Inl (Wrap ''could not create host multi address: '' err)
           | Inr ipComp \<Rightarrow> Inr [ipComp])
        else if To16 ip then
          (case ma_New M (''/ip6/'' @ h) of
             Inl err \<Rightarrow> Inl (Wrap ''could not create host multi address: '' err)
           | Inr ipComp \<Rightarrow> Inr [ipComp])
        else Inr [])
     (\<lambda>ipComps.
       let comps = (if length ipComps = 0 then [manet_IP6Unspecified M, manet_IP4Unspecified M] else ipComps) in
       Inr (map (\<lambda>ipComp. ma_Encapsulate M ipComp tcpComp) comps))))"

text \<open>The address factory: the last IPv6 and the last other address that are not loopback addresses.\<close>

fun pick_addrs :: "'m Multiaddr \<Rightarrow> 'm option \<times> 'm option \<Rightarrow> 'm list \<Rightarrow> 'm option \<times> 'm option" where
  "pick_addrs M (ip4, ip6) [] = (ip4, ip6)"
| "pick_addrs M (ip4, ip6) (a # as) =
     (if manet_IsIPLoopback M a then pick_addrs M (ip4, ip6) as
      else if isIp6 M a then pick_addrs M (ip4, Some a) as
      else pick_addrs M (Some a, ip6) as)"

definition addr_factory :: "'m Multiaddr \<Rightarrow> 'm list \<Rightarrow> 'm list" where
  "addr_factory M addrs =
     (case pick_addrs M (None, None) addrs of
        (_, Some ip6) \<Rightarrow> [ip6]
      | (Some ip4, None) \<Rightarrow> [ip4]
      | (None, None) \<Rightarrow> [])"

text \<open>The bootstrap peers, from what the bootstrapper returned: none for the leader itself.\<close>

definition bootstrap_peers :: "'m Host \<Rightarrow> 'm AddrInfo result \<Rightarrow> 'm AddrInfo list" where
  "bootstrap_peers host got =
     (case got of
        Inl err \<Rightarrow> []
      | Inr addrInfo \<Rightarrow> if ai_ID addrInfo = h_ID host then [] else [addrInfo])"

text \<open>The router, without the bootstrapper, whose calls are arguments below.\<close>

record ('m, 'd) P2PRouter =
  pr_host :: "'m Host"
  pr_kdht :: 'd
  pr_registryPort :: "16 word"

text \<open>
  The options that a caller adds and the registerer of metrics are part of the host that \<open>lp_New\<close> makes.
\<close>

definition NewP2PRouter ::
  "'m Multiaddr \<Rightarrow> ('m, 'c, 'd) Libp2p \<Rightarrow> string \<Rightarrow> string \<Rightarrow> ('m, 'd) P2PRouter result" where
  "NewP2PRouter M L addr registryPortStr =
     bind_result (ParseUint16 registryPortStr) (\<lambda>registryPort.
     bind_result (listenMultiaddrs M addr) (\<lambda>multiAddrs.
     case lp_New L multiAddrs (addr_factory M) of
       Inl err \<Rightarrow> Inl (Wrap ''could not create host: '' err)
     | Inr host \<Rightarrow>
         if length (h_Addrs host) \<noteq> 1 then
           Inl (Err (''expected single host address but got '' @ format_nat (length (h_Addrs host)) @ '' '' @
             str_Join (map (ma_String M) (h_Addrs host)) '', ''))
         else
           (case lp_dht_New L host
              \<lparr>do_ModeServer = True, do_ProtocolPrefix = ''/spegel'', do_DisableValues = True,
               do_MaxRecordAge = KeyTTL, do_BootstrapPeers = bootstrap_peers host\<rparr> of
              Inl err \<Rightarrow> Inl (Wrap ''could not create distributed hash table: '' err)
            | Inr kdht \<Rightarrow> Inr \<lparr>pr_host = host, pr_kdht = kdht, pr_registryPort = registryPort\<rparr>)))"

text \<open>The identity this node runs its bootstrapper with.\<close>

definition self_id :: "'m Multiaddr \<Rightarrow> ('m, 'd) P2PRouter \<Rightarrow> string" where
  "self_id M r = ma_String M (h_Addrs (pr_host r) ! 0) @ ''/p2p/'' @ h_ID (pr_host r)"

definition p2p_Run ::
  "'m Multiaddr \<Rightarrow> ('m, 'c, 'd) Libp2p \<Rightarrow> (string \<Rightarrow> error option) \<Rightarrow> ('m, 'd) P2PRouter \<Rightarrow>
   error option \<times> ('m, 'd) P2PRouter" where
  "p2p_Run M L bootstrapper_Run r =
     (case lp_Bootstrap L (pr_kdht r) of
        (Some err, d) \<Rightarrow> (Some (Wrap ''could not boostrap distributed hash table: '' err), r\<lparr>pr_kdht := d\<rparr>)
      | (None, d) \<Rightarrow> (bootstrapper_Run (self_id M r), r\<lparr>pr_kdht := d\<rparr>))"

definition p2p_Close :: "('m, 'c, 'd) Libp2p \<Rightarrow> ('m, 'd) P2PRouter \<Rightarrow> error option" where
  "p2p_Close L r = lp_Close L (pr_host r)"

text \<open>\<open>Ready\<close>, with what the bootstrapper's \<open>Get\<close> returned.\<close>

definition p2p_Ready ::
  "('m, 'c, 'd) Libp2p \<Rightarrow> 'm AddrInfo result \<Rightarrow> ('m, 'd) P2PRouter \<Rightarrow> bool result \<times> ('m, 'd) P2PRouter" where
  "p2p_Ready L got r =
     (case got of
        Inl err \<Rightarrow> (Inl err, r)
      | Inr addrInfo \<Rightarrow>
          if ai_ID addrInfo = h_ID (pr_host r) then (Inr True, r)
          else if lp_RoutingTableSize L (pr_kdht r) = 0 then
            (case lp_Bootstrap L (pr_kdht r) of
               (Some err, d) \<Rightarrow> (Inl err, r\<lparr>pr_kdht := d\<rparr>)
             | (None, d) \<Rightarrow> (Inr False, r\<lparr>pr_kdht := d\<rparr>))
          else (Inr True, r))"

text \<open>The address of a provider, unless it is skipped: it is this node, or has not one address with an IP.\<close>

definition provider_addr :: "'m Multiaddr \<Rightarrow> ('m, 'd) P2PRouter \<Rightarrow> bool \<Rightarrow> 'm AddrInfo \<Rightarrow> AddrPort option" where
  "provider_addr M r allowSelf info =
     (if \<not> allowSelf \<and> ai_ID info = h_ID (pr_host r) then None
      else if length (ai_Addrs info) \<noteq> 1 then None
      else
        (case ipInMultiaddr M (ai_Addrs info ! 0) of
           Inl err \<Rightarrow> None
         | Inr ipAddr \<Rightarrow> Some \<lparr>ap_Addr = addr_String ipAddr, ap_Port = pr_registryPort r\<rparr>))"

text \<open>
  The goroutine of \<open>Resolve\<close>: \<open>buffered\<close> is the number of addresses in the channel, and \<open>reads\<close> says
  for each provider how many addresses the reader has taken since the one before. An
  address is dropped when the channel is full.
\<close>

fun resolve_loop ::
  "'m Multiaddr \<Rightarrow> ('m, 'd) P2PRouter \<Rightarrow> bool \<Rightarrow> nat \<Rightarrow> nat \<Rightarrow> (nat \<Rightarrow> nat) \<Rightarrow> nat \<Rightarrow> 'm AddrInfo list \<Rightarrow> AddrPort list" where
  "resolve_loop M r allowSelf room buffered reads i [] = []"
| "resolve_loop M r allowSelf room buffered reads i (info # infos) =
     (let buffered' = buffered - reads i in
      case provider_addr M r allowSelf info of
        None \<Rightarrow> resolve_loop M r allowSelf room buffered' reads (i + 1) infos
      | Some peer \<Rightarrow>
          if buffered' < room then peer # resolve_loop M r allowSelf room (buffered' + 1) reads (i + 1) infos
          else resolve_loop M r allowSelf room buffered' reads (i + 1) infos)"

text \<open>\<open>Resolve\<close>: the addresses that the channel delivers before it is closed.\<close>

definition p2p_Resolve ::
  "'m Multiaddr \<Rightarrow> ('m, 'c, 'd) Libp2p \<Rightarrow> (nat \<Rightarrow> nat) \<Rightarrow> ('m, 'd) P2PRouter \<Rightarrow> string \<Rightarrow> bool \<Rightarrow> int \<Rightarrow>
   AddrPort list result outcome" where
  "p2p_Resolve M L reads r key allowSelf cnt =
     (case createCid L key of
        Inl err \<Rightarrow> Done (Inl err)
      | Inr c \<Rightarrow>
          (let peerBufferSize = (if cnt = 0 then 20 else cnt) in
           if peerBufferSize < 0 then Panic ''makechan: size out of range''
           else
             Done (Inr (resolve_loop M r allowSelf (nat peerBufferSize) 0 reads 0
               (lp_FindProvidersAsync L (pr_kdht r) c cnt)))))"

fun p2p_Advertise ::
  "('m, 'c, 'd) Libp2p \<Rightarrow> ('m, 'd) P2PRouter \<Rightarrow> string list \<Rightarrow> error option \<times> ('m, 'd) P2PRouter" where
  "p2p_Advertise L r [] = (None, r)"
| "p2p_Advertise L r (key # keys) =
     (case createCid L key of
        Inl err \<Rightarrow> (Some err, r)
      | Inr c \<Rightarrow>
          (case lp_Provide L (pr_kdht r) c of
             (Some err, d) \<Rightarrow> (Some err, r\<lparr>pr_kdht := d\<rparr>)
           | (None, d) \<Rightarrow> p2p_Advertise L (r\<lparr>pr_kdht := d\<rparr>) keys))"

definition p2p_router ::
  "'m Multiaddr \<Rightarrow> ('m, 'c, 'd) Libp2p \<Rightarrow> 'm AddrInfo result \<Rightarrow> (nat \<Rightarrow> nat) \<Rightarrow> ('m, 'd) P2PRouter Router" where
  "p2p_router M L got reads =
     \<lparr>rt_Ready = p2p_Ready L got, rt_Resolve = p2p_Resolve M L reads, rt_Advertise = p2p_Advertise L\<rparr>"

section \<open>Resolving\<close>

text \<open>The providers that are not skipped, in the order in which they are found.\<close>

definition candidates ::
  "'m Multiaddr \<Rightarrow> ('m, 'd) P2PRouter \<Rightarrow> bool \<Rightarrow> 'm AddrInfo list \<Rightarrow> AddrPort list" where
  "candidates M r allowSelf infos = List.map_filter (provider_addr M r allowSelf) infos"

lemma candidates_simps [simp]:
  "candidates M r a [] = []"
  "candidates M r a (info # infos) =
     (case provider_addr M r a info of None \<Rightarrow> candidates M r a infos | Some p \<Rightarrow> p # candidates M r a infos)"
  by (simp_all add: candidates_def List.map_filter_simps split: option.split)

lemma resolve_loop_subseq: "subseq (resolve_loop M r a room b reads i infos) (candidates M r a infos)"
  by (induction infos arbitrary: b i) (auto simp: Let_def split: option.split)

lemma resolve_loop_prefix:
  "prefix (take (room - b) (candidates M r a infos)) (resolve_loop M r a room b reads i infos)"
proof (induction infos arbitrary: b i)
  case (Cons info infos)
  let ?b = "b - reads i"
  have weaken: "prefix (take m xs) ys \<Longrightarrow> k \<le> m \<Longrightarrow> prefix (take k xs) ys" for m k and xs ys :: "AddrPort list"
    using prefix_order.trans [of "take k xs" "take m xs" ys] take_is_prefix [of k "take m xs"] by (simp add: min_absorb1)
  show ?case
  proof (cases "provider_addr M r a info")
    case None
    with weaken [OF Cons.IH [of ?b "i + 1"], of "room - b"] show ?thesis by simp
  next
    case (Some p)
    show ?thesis
    proof (cases "room - b")
      case (Suc m)
      then have "?b < room" "m \<le> room - (?b + 1)" by auto
      with weaken [OF Cons.IH [of "?b + 1" "i + 1"], of m] Some Suc show ?thesis by (simp add: Let_def)
    qed simp
  qed
qed simp

lemma p2p_Resolve_spec:
  assumes "createCid L key = Inr c" and "0 \<le> n"
    and "cands = candidates M r allowSelf (lp_FindProvidersAsync L (pr_kdht r) c n)"
    and "room = (if n = 0 then 20 else nat n)"
  shows "\<exists>ps. p2p_Resolve M L reads r key allowSelf n = Done (Inr ps) \<and>
    subseq ps cands \<and> prefix (take room cands) ps \<and> (length cands \<le> room \<longrightarrow> ps = cands) \<and>
    (\<forall>p \<in> set ps. ap_Port p = pr_registryPort r)"
proof -
  let ?ps = "resolve_loop M r allowSelf room 0 reads 0 (lp_FindProvidersAsync L (pr_kdht r) c n)"
  have "p2p_Resolve M L reads r key allowSelf n = Done (Inr ?ps)"
    using assms(1,2,4) by (simp add: p2p_Resolve_def Let_def)
  moreover have sub: "subseq ?ps cands" unfolding assms(3) by (rule resolve_loop_subseq)
  moreover have pre: "prefix (take room cands) ?ps" unfolding assms(3) using resolve_loop_prefix [of room 0] by simp
  moreover have "?ps = cands" if "length cands \<le> room"
  proof -
    from pre that have "length cands \<le> length ?ps" using prefix_length_le by fastforce
    then have "length ?ps = length cands" using list_emb_length [OF sub] by (rule order_antisym [rotated])
    with sub show ?thesis by (rule subseq_same_length)
  qed
  moreover have "ap_Port p = pr_registryPort r" if "p \<in> set cands" for p
    using that unfolding assms(3)
    by (auto simp: candidates_def List.map_filter_def provider_addr_def split: if_splits sum.splits)
  then have "\<forall>p \<in> set ?ps. ap_Port p = pr_registryPort r" using sub by (blast elim: list_emb_set)
  ultimately show ?thesis by blast
qed


section \<open>The contract\<close>

text \<open>
  What is relied on of the hash table, over the providers \<open>prov\<close> it has recorded and the record \<open>own\<close>
  under which it announces this node: announcing adds this node for the identifier (a
  failed call may have), bootstrapping changes no record, only recorded
  providers are found, and this node announces one address with an IP.
\<close>

definition dht_law ::
  "'m Multiaddr \<Rightarrow> ('m, 'c, 'd) Libp2p \<Rightarrow> ('d \<Rightarrow> 'c \<Rightarrow> 'm AddrInfo set) \<Rightarrow> ('d \<Rightarrow> 'm AddrInfo) \<Rightarrow> bool" where
  "dht_law M L prov own \<longleftrightarrow>
     (\<forall>d c d'. lp_Provide L d c = (None, d') \<longrightarrow> own d' = own d \<and> prov d' = (prov d)(c := insert (own d) (prov d c))) \<and>
     (\<forall>d c e d'. lp_Provide L d c = (Some e, d') \<longrightarrow>
        own d' = own d \<and> (prov d' = prov d \<or> prov d' = (prov d)(c := insert (own d) (prov d c)))) \<and>
     (\<forall>d e d'. lp_Bootstrap L d = (e, d') \<longrightarrow> own d' = own d \<and> prov d' = prov d) \<and>
     (\<forall>d c n. set (lp_FindProvidersAsync L d c n) \<subseteq> prov d c) \<and>
     (\<forall>d. length (ai_Addrs (own d)) = 1 \<and> (\<exists>ip. ipInMultiaddr M (ai_Addrs (own d) ! 0) = Inr ip))"

text \<open>Different keys have different identifiers: the hash does not collide.\<close>

definition cid_law :: "('m, 'c, 'd) Libp2p \<Rightarrow> bool" where
  "cid_law L \<longleftrightarrow> (\<forall>k k' c. createCid L k = Inr c \<longrightarrow> createCid L k' = Inr c \<longrightarrow> k = k')"

definition p2p_providers ::
  "'m Multiaddr \<Rightarrow> ('m, 'c, 'd) Libp2p \<Rightarrow> ('d \<Rightarrow> 'c \<Rightarrow> 'm AddrInfo set) \<Rightarrow> ('m, 'd) P2PRouter \<Rightarrow> string \<Rightarrow> AddrPort set" where
  "p2p_providers M L prov r key =
     (case createCid L key of
        Inl _ \<Rightarrow> {}
      | Inr c \<Rightarrow> {p. \<exists>info \<in> prov (pr_kdht r) c. provider_addr M r True info = Some p})"

definition p2p_self :: "'m Multiaddr \<Rightarrow> ('d \<Rightarrow> 'm AddrInfo) \<Rightarrow> ('m, 'd) P2PRouter \<Rightarrow> AddrPort" where
  "p2p_self M own r = the (provider_addr M r True (own (pr_kdht r)))"

lemma dht_lawD:
  assumes "dht_law M L prov own"
  shows "lp_Provide L d c = (None, d') \<Longrightarrow> own d' = own d \<and> prov d' = (prov d)(c := insert (own d) (prov d c))"
    and "lp_Provide L d c = (Some e, d') \<Longrightarrow>
      own d' = own d \<and> (prov d' = prov d \<or> prov d' = (prov d)(c := insert (own d) (prov d c)))"
    and "lp_Bootstrap L d = (x, d') \<Longrightarrow> own d' = own d \<and> prov d' = prov d"
    and "set (lp_FindProvidersAsync L d c n) \<subseteq> prov d c"
  using assms unfolding dht_law_def by (elim conjE; simp)+

lemma provider_addr_frame [simp]: "provider_addr M (r\<lparr>pr_kdht := d\<rparr>) = provider_addr M r"
  by (simp add: provider_addr_def fun_eq_iff split: sum.split)

lemma provider_addr_own:
  assumes "dht_law M L prov own"
  shows "provider_addr M r True (own (pr_kdht r)) = Some (p2p_self M own r)"
proof -
  from assms have "length (ai_Addrs (own (pr_kdht r))) = 1 \<and> (\<exists>ip. ipInMultiaddr M (ai_Addrs (own (pr_kdht r)) ! 0) = Inr ip)"
    unfolding dht_law_def by (elim conjE) simp
  then show ?thesis by (auto simp: p2p_self_def provider_addr_def)
qed

text \<open>One identifier announced: the providers of its key gain this node, others stay.\<close>

lemma providers_announced:
  assumes "dht_law M L prov own" and "cid_law L" and "createCid L key = Inr c"
    and "prov d' = (prov (pr_kdht r))(c := insert (own (pr_kdht r)) (prov (pr_kdht r) c))"
  shows "p2p_providers M L prov (r\<lparr>pr_kdht := d'\<rparr>) k =
    (if k = key then insert (p2p_self M own r) (p2p_providers M L prov r k) else p2p_providers M L prov r k)"
proof (cases "createCid L k")
  case (Inr c')
  have "c' = c \<longleftrightarrow> k = key" using assms(2,3) Inr by (auto simp: cid_law_def)
  with Inr assms(4) provider_addr_own [OF assms(1), of r] show ?thesis by (auto simp: p2p_providers_def)
qed (use assms(3) in \<open>auto simp: p2p_providers_def\<close>)

lemma providers_unchanged: "prov d' = prov (pr_kdht r) \<Longrightarrow> p2p_providers M L prov (r\<lparr>pr_kdht := d'\<rparr>) k = p2p_providers M L prov r k"
  by (simp add: p2p_providers_def split: sum.split)

lemma self_frame: "own d' = own (pr_kdht r) \<Longrightarrow> p2p_self M own (r\<lparr>pr_kdht := d'\<rparr>) = p2p_self M own r"
  by (simp add: p2p_self_def)

lemma p2p_Advertise_self:
  assumes "dht_law M L prov own"
  shows "p2p_Advertise L r keys = (x, r') \<Longrightarrow> p2p_self M own r' = p2p_self M own r"
proof (induction keys arbitrary: r)
  case (Cons key keys)
  show ?case
  proof (cases "createCid L key")
    case (Inr c)
    obtain y d where y: "lp_Provide L (pr_kdht r) c = (y, d)" by fastforce
    then have "own d = own (pr_kdht r)"
      using dht_lawD(1,2) [OF assms] by (cases y) auto
    with Cons.prems Cons.IH [of "r\<lparr>pr_kdht := d\<rparr>"] Inr y self_frame [of own d r M] show ?thesis by (cases y) auto
  qed (use Cons.prems in simp)
qed simp

text \<open>
  Advertising in general: the providers of a key grow by this node at most, only for keys in
  the list, and on success for all of them.
\<close>

lemma p2p_Advertise_spec:
  assumes "dht_law M L prov own" and "cid_law L"
  shows "p2p_Advertise L r keys = (x, r') \<Longrightarrow>
    p2p_providers M L prov r k \<subseteq> p2p_providers M L prov r' k \<and>
    p2p_providers M L prov r' k \<subseteq> insert (p2p_self M own r) (p2p_providers M L prov r k) \<and>
    (k \<notin> set keys \<longrightarrow> p2p_providers M L prov r' k = p2p_providers M L prov r k) \<and>
    (x = None \<and> k \<in> set keys \<longrightarrow> p2p_self M own r \<in> p2p_providers M L prov r' k)"
proof (induction keys arbitrary: r)
  case (Cons key keys)
  show ?case
  proof (cases "createCid L key")
    case (Inr c)
    obtain y d where y: "lp_Provide L (pr_kdht r) c = (y, d)" by fastforce
    note announced = providers_announced [OF assms Inr, of d r k]
    show ?thesis
    proof (cases y)
      case None
      with dht_lawD(1) [OF assms(1)] y have own: "own d = own (pr_kdht r)" and
        prov: "prov d = (prov (pr_kdht r))(c := insert (own (pr_kdht r)) (prov (pr_kdht r) c))" by auto
      from Cons.prems Inr y None have "p2p_Advertise L (r\<lparr>pr_kdht := d\<rparr>) keys = (x, r')" by simp
      from Cons.IH [OF this] announced [OF prov] self_frame [OF own, of M] show ?thesis
        by (cases "k = key") auto
    next
      case (Some e)
      with Cons.prems Inr y have r': "r' = r\<lparr>pr_kdht := d\<rparr>" "x \<noteq> None" by auto
      from dht_lawD(2) [OF assms(1)] y Some
      have "prov d = prov (pr_kdht r) \<or> prov d = (prov (pr_kdht r))(c := insert (own (pr_kdht r)) (prov (pr_kdht r) c))"
        by blast
      then have "p2p_providers M L prov r' k = p2p_providers M L prov r k \<or>
          p2p_providers M L prov r' k = (if k = key then insert (p2p_self M own r) (p2p_providers M L prov r k)
            else p2p_providers M L prov r k)"
        using r'(1) announced providers_unchanged [of prov d r M L k] by blast
      with r'(2) show ?thesis by (cases "k = key") auto
    qed
  qed (use Cons.prems in auto)
qed auto

lemma p2p_Ready_frame:
  assumes "dht_law M L prov own" and "p2p_Ready L got r = (b, r')"
  shows "p2p_providers M L prov r' k = p2p_providers M L prov r k \<and> p2p_self M own r' = p2p_self M own r"
proof -
  obtain x d where x: "lp_Bootstrap L (pr_kdht r) = (x, d)" by fastforce
  from assms(2) x have "r' = r \<or> r' = r\<lparr>pr_kdht := d\<rparr>"
    by (auto simp: p2p_Ready_def split: sum.splits if_splits option.splits)
  with dht_lawD(3) [OF assms(1) x] providers_unchanged [of prov d r M L k] self_frame [of own d r M]
  show ?thesis by auto
qed

text \<open>
  C18. The router over the hash table is a router: under what is relied on of the table and of
  identifiers it meets the contract of routers, so that everything shown for routers with this
  contract holds for it.
\<close>

theorem p2p_contract:
  assumes "dht_law M L prov own" and "cid_law L"
  shows "router_contract (p2p_router M L got reads) (p2p_providers M L prov) (p2p_self M own)"
proof
  note spec = p2p_Advertise_spec [OF assms]
  fix r r' :: "('a, 'c) P2PRouter" and keys k
  show "p2p_providers M L prov r' k =
      (if k \<in> set keys then insert (p2p_self M own r) (p2p_providers M L prov r k) else p2p_providers M L prov r k)"
    if "rt_Advertise (p2p_router M L got reads) r keys = (None, r')"
    using spec [of r keys None r' k] that by (auto simp: p2p_router_def)
  show "p2p_providers M L prov r k \<subseteq> p2p_providers M L prov r' k \<and>
      p2p_providers M L prov r' k \<subseteq>
      (if k \<in> set keys then insert (p2p_self M own r) (p2p_providers M L prov r k) else p2p_providers M L prov r k)"
    if "rt_Advertise (p2p_router M L got reads) r keys = (Some e, r')" for e
    using spec [of r keys "Some e" r' k] that by (auto simp: p2p_router_def)
  show "p2p_self M own r' = p2p_self M own r" if "rt_Advertise (p2p_router M L got reads) r keys = (x, r')" for x
    using p2p_Advertise_self [OF assms(1)] that by (simp add: p2p_router_def)
  show "p2p_providers M L prov r' k = p2p_providers M L prov r k \<and> p2p_self M own r' = p2p_self M own r"
    if "rt_Ready (p2p_router M L got reads) r = (b, r')" for b
    using p2p_Ready_frame [OF assms(1)] that by (simp add: p2p_router_def)
  show "set ps \<subseteq> p2p_providers M L prov r k"
    if "rt_Resolve (p2p_router M L got reads) r k allowSelf n = Done (Inr ps)" for allowSelf n ps
  proof -
    from that obtain c room where c: "createCid L k = Inr c" and
      ps: "ps = resolve_loop M r allowSelf room 0 reads 0 (lp_FindProvidersAsync L (pr_kdht r) c n)"
      by (auto simp: p2p_router_def p2p_Resolve_def Let_def split: sum.splits if_splits)
    have "set ps \<subseteq> set (candidates M r allowSelf (lp_FindProvidersAsync L (pr_kdht r) c n))"
      unfolding ps by (blast elim: list_emb_set [OF resolve_loop_subseq])
    with dht_lawD(4) [OF assms(1), of "pr_kdht r" c n] c show ?thesis
      by (fastforce simp: p2p_providers_def candidates_def List.map_filter_def provider_addr_def split: if_splits)
  qed
qed

section \<open>Bootstrapping from the leader\<close>

lemma NewP2PRouter_ok:
  assumes "NewP2PRouter M L addr port = Inr r"
  shows "length (h_Addrs (pr_host r)) = 1" and "ParseUint16 port = Inr (pr_registryPort r)"
proof -
  from assms obtain p ms where *: "ParseUint16 port = Inr p" "listenMultiaddrs M addr = Inr ms"
    by (auto simp: NewP2PRouter_def go_result)
  from assms obtain host where "lp_New L ms (addr_factory M) = Inr host"
    by (cases "lp_New L ms (addr_factory M)") (simp_all add: NewP2PRouter_def *)
  with assms show "length (h_Addrs (pr_host r)) = 1" "ParseUint16 port = Inr (pr_registryPort r)"
    by (simp_all add: NewP2PRouter_def * split: if_splits sum.splits) auto
qed


section \<open>Finding a node that advertises\<close>

text \<open>
  A node that has advertised a key is among the addresses another node resolves for it, when the
  lookup in the table finds all providers of the key and there is room for them.
\<close>

lemma provider_candidate:
  "info \<in> set infos \<Longrightarrow> provider_addr M r allowSelf info = Some p \<Longrightarrow> p \<in> set (candidates M r allowSelf infos)"
  by (induction infos) (auto split: option.splits)

lemma candidates_length: "length (candidates M r allowSelf infos) \<le> length infos"
  by (induction infos) (auto split: option.splits)

lemma provider_addr_other:
  assumes "provider_addr M r True info = Some p" and "pr_registryPort r' = pr_registryPort r"
    and "ai_ID info \<noteq> h_ID (pr_host r')"
  shows "provider_addr M r' allowSelf info = Some p"
  using assms by (auto simp: provider_addr_def split: if_splits sum.splits)

lemma advertised_found:
  assumes "dht_law M L prov own" and "cid_law L"
    and "p2p_Advertise L rB keys = (None, rB')" and "key \<in> set keys"
    and "createCid L key = Inr c" and "prov (pr_kdht rA) c = prov (pr_kdht rB') c"
    and "\<forall>info \<in> prov (pr_kdht rA) c. ai_ID info \<noteq> h_ID (pr_host rA)" and "pr_registryPort rA = pr_registryPort rB'"
    and "prov (pr_kdht rA) c \<subseteq> set (lp_FindProvidersAsync L (pr_kdht rA) c n)"
    and "0 < n" and "int (length (lp_FindProvidersAsync L (pr_kdht rA) c n)) \<le> n"
  shows "\<exists>ps. p2p_Resolve M L reads rA key allowSelf n = Done (Inr ps) \<and> p2p_self M own rB \<in> set ps"
proof -
  let ?infos = "lp_FindProvidersAsync L (pr_kdht rA) c n"
  have "p2p_self M own rB \<in> p2p_providers M L prov rB' key"
    using p2p_Advertise_spec [OF assms(1,2,3), of key] assms(4) by blast
  with assms(5,6) obtain info where info: "info \<in> prov (pr_kdht rA) c" "provider_addr M rB' True info = Some (p2p_self M own rB)"
    by (auto simp: p2p_providers_def)
  have "provider_addr M rA allowSelf info = Some (p2p_self M own rB)"
    using provider_addr_other [OF info(2) assms(8)] info(1) assms(7) by blast
  then have "p2p_self M own rB \<in> set (candidates M rA allowSelf ?infos)"
    using provider_candidate info(1) assms(9) by blast
  moreover have "length (candidates M rA allowSelf ?infos) \<le> nat n"
    using candidates_length [of M rA allowSelf ?infos] assms(10,11) by linarith
  ultimately show ?thesis
    using p2p_Resolve_spec [OF assms(5) _ refl refl, where n = n and M = M and r = rA and allowSelf = allowSelf and reads = reads] assms(10) by auto
qed

section \<open>The addresses of a node\<close>

text \<open>A node announces at most one address, and one that it was given and that is not a loopback address.\<close>

lemma pick_addrs_sound:
  "pick_addrs M (ip4, ip6) addrs = (x, y) \<Longrightarrow>
     (\<forall>a. x = Some a \<and> x \<noteq> ip4 \<or> y = Some a \<and> y \<noteq> ip6 \<longrightarrow> a \<in> set addrs \<and> \<not> manet_IsIPLoopback M a)"
  by (induction addrs arbitrary: ip4 ip6) (auto split: if_splits)

lemma addr_factory_single:
  "length (addr_factory M addrs) \<le> 1 \<and> (\<forall>a \<in> set (addr_factory M addrs). a \<in> set addrs \<and> \<not> manet_IsIPLoopback M a)"
  using pick_addrs_sound [of M None None addrs]
  by (auto simp: addr_factory_def split: prod.splits option.splits)

text \<open>
  A host that is not an IP address, such as a name, is not an error: the node listens on all of
  its addresses.
\<close>

lemma listen_hostname:
  assumes "SplitHostPort addr = Inr (h, p)" and "ParseIP h = None" and "ma_New M (''/tcp/'' @ p) = Inr tcp"
  shows "listenMultiaddrs M addr =
    Inr [ma_Encapsulate M (manet_IP6Unspecified M) tcp, ma_Encapsulate M (manet_IP4Unspecified M) tcp]"
  using assms by (simp add: listenMultiaddrs_def To16_def)

section \<open>Concrete runs\<close>

text \<open>A hash table in memory, whose own node is \<open>A\<close>.\<close>

type_synonym table = "(string \<times> string AddrInfo) list"

definition example_own :: "table \<Rightarrow> string AddrInfo" where
  "example_own d = \<lparr>ai_ID = ''A'', ai_Addrs = [''/ip4/10.0.0.1/tcp/5001'']\<rparr>"

definition example_Libp2p :: "(string, string, table) Libp2p" where
  "example_Libp2p =
     \<lparr>lp_New = \<lambda>addrs factory. Inr \<lparr>h_ID = ''A'', h_Addrs = factory [''/ip4/127.0.0.1/tcp/5001'', ''/ip4/10.0.0.1/tcp/5001'']\<rparr>,
      lp_dht_New = \<lambda>host opts. Inr [], lp_Bootstrap = \<lambda>d. (None, d), lp_RoutingTableSize = length,
      lp_FindProvidersAsync = \<lambda>d c n. map snd (filter (\<lambda>e. fst e = c) d),
      lp_Provide = \<lambda>d c. (None, (c, example_own d) # d), lp_Close = \<lambda>h. None, lp_Sum = \<lambda>p s. Inr s\<rparr>"

definition example_prov :: "table \<Rightarrow> string \<Rightarrow> string AddrInfo set" where
  "example_prov d c = {i. (c, i) \<in> set d}"

definition example_router :: "(string, table) P2PRouter" where
  "example_router =
     \<lparr>pr_host = \<lparr>h_ID = ''A'', h_Addrs = [''/ip4/10.0.0.1/tcp/5001'']\<rparr>,
      pr_kdht = [(''k'', \<lparr>ai_ID = ''B'', ai_Addrs = [''/ip4/10.0.0.2/tcp/5001'']\<rparr>),
                 (''k'', \<lparr>ai_ID = ''A'', ai_Addrs = [''/ip4/10.0.0.1/tcp/5001'']\<rparr>)],
      pr_registryPort = 5000\<rparr>"

lemma example_ip: "ipInMultiaddr example_Multiaddr ''/ip4/10.0.0.1/tcp/5001'' = Inr (V4 [10, 0, 0, 1])"
  by code_simp

lemma example_dht_law: "dht_law example_Multiaddr example_Libp2p example_prov example_own"
  using example_ip by (auto simp: dht_law_def example_Libp2p_def example_prov_def example_own_def fun_eq_iff)

lemma example_cid_law: "cid_law example_Libp2p"
  by (simp add: cid_law_def createCid_def example_Libp2p_def)


theorem p2p_contract_witness:
  "p2p_self example_Multiaddr example_own example_router \<in>
     p2p_providers example_Multiaddr example_Libp2p example_prov (snd (p2p_Advertise example_Libp2p example_router [''m''])) ''m''"
proof -
  let ?R = "p2p_router example_Multiaddr example_Libp2p (Inl (Err [])) (\<lambda>i. 0)"
  have contract: "router_contract ?R (p2p_providers example_Multiaddr example_Libp2p example_prov)
      (p2p_self example_Multiaddr example_own)"
    by (rule p2p_contract [OF example_dht_law example_cid_law])
  have "rt_Advertise ?R example_router [''m''] = (None, snd (p2p_Advertise example_Libp2p example_router [''m'']))"
    by (simp add: p2p_router_def createCid_def example_Libp2p_def)
  from router_contract.advertise_adds [OF contract this] show ?thesis by simp
qed

definition example_started :: "(string, table) P2PRouter" where
  "example_started = \<lparr>pr_host = \<lparr>h_ID = ''A'', h_Addrs = [''/ip4/10.0.0.1/tcp/5001'']\<rparr>, pr_kdht = [], pr_registryPort = 5000\<rparr>"

lemma example_New: "NewP2PRouter example_Multiaddr example_Libp2p '':5001'' ''5000'' = Inr example_started"
proof -
  have port: "ParseUint16 ''5000'' = Inr 5000"
    by (simp add: ParseUint16_def parse_nat_def digit_value_def)
  have listen: "listenMultiaddrs example_Multiaddr '':5001'' = Inr [''/ip6/::/tcp/5001'', ''/ip4/0.0.0.0/tcp/5001'']" by code_simp
  have addrs: "addr_factory example_Multiaddr [''/ip4/127.0.0.1/tcp/5001'', ''/ip4/10.0.0.1/tcp/5001''] = [''/ip4/10.0.0.1/tcp/5001'']"
    by code_simp
  show ?thesis
    by (simp add: NewP2PRouter_def port listen) (simp add: example_Libp2p_def addrs example_started_def)
qed


end
