(* ===== verification/Metrics.thy ===== *)
theory Metrics
  imports Go_Prelude
begin

text \<open>
  \<open>pkg/metrics/metrics.go\<close>: the metrics of a node and their registration. The registerer and the
  construction of full names (\<open>prometheus.BuildFQName\<close>) belong to the Prometheus library and are
  parameters. The values of the metrics are part of the states of the registry and of the state
  tracking.
\<close>

section \<open>The metrics\<close>

datatype metric_kind = CounterVec | GaugeVec | HistogramVec

record metric =
  mt_kind :: metric_kind
  mt_Subsystem :: string
  mt_Name :: string
  mt_Help :: string
  mt_labels :: "string list"

definition MirrorRequestsTotal_metric :: metric where
  "MirrorRequestsTotal_metric =
     \<lparr>mt_kind = CounterVec, mt_Subsystem = [], mt_Name = ''spegel_mirror_requests_total'',
      mt_Help = ''Total number of mirror requests.'', mt_labels = [''registry'', ''cache'', ''source'']\<rparr>"

definition ResolveDurHistogram_metric :: metric where
  "ResolveDurHistogram_metric =
     \<lparr>mt_kind = HistogramVec, mt_Subsystem = [], mt_Name = ''spegel_resolve_duration_seconds'',
      mt_Help = ''The duration for router to resolve a peer.'', mt_labels = [''router'']\<rparr>"

definition AdvertisedImages_metric :: metric where
  "AdvertisedImages_metric =
     \<lparr>mt_kind = GaugeVec, mt_Subsystem = [], mt_Name = ''spegel_advertised_images'',
      mt_Help = ''Number of images advertised to be available.'', mt_labels = [''registry'']\<rparr>"

definition AdvertisedImageTags_metric :: metric where
  "AdvertisedImageTags_metric =
     \<lparr>mt_kind = GaugeVec, mt_Subsystem = [], mt_Name = ''spegel_advertised_image_tags'',
      mt_Help = ''Number of image tags advertised to be available.'', mt_labels = [''registry'']\<rparr>"

definition AdvertisedImageDigests_metric :: metric where
  "AdvertisedImageDigests_metric =
     \<lparr>mt_kind = GaugeVec, mt_Subsystem = [], mt_Name = ''spegel_advertised_image_digests'',
      mt_Help = ''Number of image digests advertised to be available.'', mt_labels = [''registry'']\<rparr>"

definition AdvertisedKeys_metric :: metric where
  "AdvertisedKeys_metric =
     \<lparr>mt_kind = GaugeVec, mt_Subsystem = [], mt_Name = ''spegel_advertised_keys'',
      mt_Help = ''Number of keys advertised to be available.'', mt_labels = [''registry'']\<rparr>"

definition HttpRequestDurHistogram_metric :: metric where
  "HttpRequestDurHistogram_metric =
     \<lparr>mt_kind = HistogramVec, mt_Subsystem = ''http'', mt_Name = ''request_duration_seconds'',
      mt_Help = ''The latency of the HTTP requests.'', mt_labels = [''handler'', ''method'', ''code'']\<rparr>"

definition HttpResponseSizeHistogram_metric :: metric where
  "HttpResponseSizeHistogram_metric =
     \<lparr>mt_kind = HistogramVec, mt_Subsystem = ''http'', mt_Name = ''response_size_bytes'',
      mt_Help = ''The size of the HTTP responses.'', mt_labels = [''handler'', ''method'', ''code'']\<rparr>"

definition HttpRequestsInflight_metric :: metric where
  "HttpRequestsInflight_metric =
     \<lparr>mt_kind = GaugeVec, mt_Subsystem = ''http'', mt_Name = ''requests_inflight'',
      mt_Help = ''The number of inflight requests being handled at the same time.'', mt_labels = [''handler'']\<rparr>"

section \<open>Registration\<close>

text \<open>Calls of \<open>MustRegister\<close> one after the other, up to the first panic.\<close>

fun register_all :: "('p \<Rightarrow> metric \<Rightarrow> 'p outcome) \<Rightarrow> 'p \<Rightarrow> metric list \<Rightarrow> 'p outcome" where
  "register_all MustRegister reg [] = Done reg"
| "register_all MustRegister reg (m # ms) =
     (case MustRegister reg m of Panic p \<Rightarrow> Panic p | Done reg' \<Rightarrow> register_all MustRegister reg' ms)"

definition Register :: "('p \<Rightarrow> metric \<Rightarrow> 'p outcome) \<Rightarrow> 'p \<Rightarrow> 'p outcome" where
  "Register MustRegister reg =
     register_all MustRegister reg
       [MirrorRequestsTotal_metric, ResolveDurHistogram_metric, AdvertisedImages_metric, AdvertisedImageTags_metric,
        AdvertisedImageDigests_metric, AdvertisedKeys_metric, HttpRequestDurHistogram_metric,
        HttpResponseSizeHistogram_metric, HttpRequestsInflight_metric]"

text \<open>
  What is relied on of the library: names are built with an underscore after the subsystem, if
  any, and \<open>MustRegister\<close> panics exactly when a metric of that name is registered.
\<close>

definition fq_law :: "(string \<Rightarrow> string \<Rightarrow> string \<Rightarrow> string) \<Rightarrow> bool" where
  "fq_law fq \<longleftrightarrow> (\<forall>sub name. fq [] sub name = (if sub = [] then name else sub @ ''_'' @ name))"

abbreviation full_name :: "(string \<Rightarrow> string \<Rightarrow> string \<Rightarrow> string) \<Rightarrow> metric \<Rightarrow> string" where
  "full_name fq m \<equiv> fq [] (mt_Subsystem m) (mt_Name m)"

definition register_law ::
  "(string \<Rightarrow> string \<Rightarrow> string \<Rightarrow> string) \<Rightarrow> ('p \<Rightarrow> metric \<Rightarrow> 'p outcome) \<Rightarrow> ('p \<Rightarrow> string set) \<Rightarrow> bool" where
  "register_law fq MustRegister names \<longleftrightarrow>
     (\<forall>reg m. case MustRegister reg m of
        Panic _ \<Rightarrow> full_name fq m \<in> names reg
      | Done reg' \<Rightarrow> full_name fq m \<notin> names reg \<and> names reg' = insert (full_name fq m) (names reg))"

text \<open>A sequence of registrations succeeds exactly when all names are new and different.\<close>

lemma register_all_spec:
  assumes "register_law fq MustRegister names"
  shows "case register_all MustRegister reg ms of
      Panic _ \<Rightarrow> \<not> (distinct (map (full_name fq) ms) \<and> full_name fq ` set ms \<inter> names reg = {})
    | Done reg' \<Rightarrow> distinct (map (full_name fq) ms) \<and> full_name fq ` set ms \<inter> names reg = {} \<and>
        names reg' = names reg \<union> full_name fq ` set ms"
proof (induction ms arbitrary: reg)
  case (Cons m ms)
  from assms have law: "case MustRegister reg m of
        Panic _ \<Rightarrow> full_name fq m \<in> names reg
      | Done reg' \<Rightarrow> full_name fq m \<notin> names reg \<and> names reg' = insert (full_name fq m) (names reg)"
    by (simp add: register_law_def)
  show ?case
  proof (cases "MustRegister reg m")
    case (Done reg')
    with law Cons.IH [of reg'] show ?thesis by (auto split: outcome.splits)
  qed (use law in auto)
qed simp

lemma metric_names:
  assumes "fq_law fq"
  shows "map (full_name fq) [MirrorRequestsTotal_metric, ResolveDurHistogram_metric, AdvertisedImages_metric, AdvertisedImageTags_metric,
        AdvertisedImageDigests_metric, AdvertisedKeys_metric, HttpRequestDurHistogram_metric,
        HttpResponseSizeHistogram_metric, HttpRequestsInflight_metric] =
     [''spegel_mirror_requests_total'', ''spegel_resolve_duration_seconds'', ''spegel_advertised_images'',
      ''spegel_advertised_image_tags'', ''spegel_advertised_image_digests'', ''spegel_advertised_keys'',
      ''http_request_duration_seconds'', ''http_response_size_bytes'', ''http_requests_inflight'']"
  using assms
  by (simp add: fq_law_def MirrorRequestsTotal_metric_def ResolveDurHistogram_metric_def AdvertisedImages_metric_def
      AdvertisedImageTags_metric_def AdvertisedImageDigests_metric_def AdvertisedKeys_metric_def
      HttpRequestDurHistogram_metric_def HttpResponseSizeHistogram_metric_def HttpRequestsInflight_metric_def)

text \<open>
  The names of the metrics are different from each other, so that registration succeeds on a
  registerer that has none of them and adds exactly these; a second registration panics.
\<close>

theorem Register_once:
  assumes "fq_law fq" and "register_law fq MustRegister names"
  shows "case Register MustRegister reg of
      Panic _ \<Rightarrow> \<exists>n \<in> names reg. prefix ''spegel_'' n \<or> prefix ''http_'' n
    | Done reg' \<Rightarrow> card (names reg' - names reg) = 9 \<and> (\<forall>n \<in> names reg' - names reg. prefix ''spegel_'' n \<or> prefix ''http_'' n) \<and>
        (\<exists>p. Register MustRegister reg' = Panic p)"
proof -
  let ?ms = "[MirrorRequestsTotal_metric, ResolveDurHistogram_metric, AdvertisedImages_metric, AdvertisedImageTags_metric,
        AdvertisedImageDigests_metric, AdvertisedKeys_metric, HttpRequestDurHistogram_metric,
        HttpResponseSizeHistogram_metric, HttpRequestsInflight_metric]"
  note spec = register_all_spec [OF assms(2), where ms = ?ms, folded Register_def]
  note ns = metric_names [OF assms(1)]
  define N where "N = full_name fq ` set ?ms"
  have dist: "distinct (map (full_name fq) ?ms)" unfolding ns by simp
  have card: "card N = 9" unfolding N_def using distinct_card [OF dist] by (simp only: set_map length_map) simp
  have pre: "prefix ''spegel_'' n \<or> prefix ''http_'' n" if "n \<in> N" for n
    using that unfolding N_def set_map [symmetric] ns by auto
  have ok: "N \<inter> names r = {} \<and> names r' = names r \<union> N" if "Register MustRegister r = Done r'" for r r'
    using spec [of r] that by (simp add: N_def)
  have bad: "N \<inter> names r \<noteq> {}" if "Register MustRegister r = Panic p" for r p
    using spec [of r] that dist by (simp add: N_def)
  show ?thesis
  proof (cases "Register MustRegister reg")
    case (Done reg')
    from ok [OF Done] have new: "names reg' - names reg = N" by blast
    have "N \<noteq> {}" using card by auto
    with ok [OF Done] have "N \<inter> names reg' \<noteq> {}" by blast
    then have "\<exists>p. Register MustRegister reg' = Panic p" using ok [of reg'] by (cases "Register MustRegister reg'") auto
    with Done card pre new show ?thesis by simp
  next
    case (Panic p)
    with bad [OF Panic] pre show ?thesis by auto
  qed
qed

text \<open>A registerer that is the set of its names.\<close>

definition example_MustRegister :: "string set \<Rightarrow> metric \<Rightarrow> string set outcome" where
  "example_MustRegister reg m =
     (let n = (if mt_Subsystem m = [] then mt_Name m else mt_Subsystem m @ ''_'' @ mt_Name m) in
      if n \<in> reg then Panic ''duplicate metrics collector registration attempted'' else Done (insert n reg))"

lemma example_register_law:
  "register_law (\<lambda>ns sub name. if sub = [] then name else sub @ ''_'' @ name) example_MustRegister (\<lambda>reg. reg)"
  by (simp add: register_law_def example_MustRegister_def Let_def split: outcome.split)

lemma example_Register: "\<exists>reg. Register example_MustRegister {} = Done reg \<and> card reg = 9"
proof -
  have "fq_law (\<lambda>ns sub name. if sub = [] then name else sub @ ''_'' @ name)" by (simp add: fq_law_def)
  from Register_once [OF this example_register_law, of "{}"] show ?thesis by (auto split: outcome.splits)
qed

end
