(* ===== verification/Main_Cmd.thy ===== *)
theory Main_Cmd
  imports Registry Containerd Mirror_Config P2P Metrics
begin

text \<open>
  \<open>main.go\<close> and \<open>internal/kubernetes\<close>: the arguments, the two commands and how the registry command puts a node together.
  What the commands reach in other processes (the daemon, the hash table, the Kubernetes API, the
  file system) is given by an environment.
\<close>

section \<open>Arguments\<close>

record ConfigurationCmd =
  cc_ContainerdRegistryConfigPath :: string
  cc_Registries :: "URL list"
  cc_MirrorRegistries :: "URL list"
  cc_ResolveTags :: bool
  cc_AppendMirrors :: bool

record BootstrapConfig =
  bc_BootstrapKind :: string
  bc_HTTPBootstrapAddr :: string
  bc_HTTPBootstrapPeer :: string
  bc_KubeconfigPath :: string
  bc_LeaderElectionName :: string
  bc_LeaderElectionNamespace :: string

text \<open>Durations are in nanoseconds.\<close>

record RegistryCmd =
  rc_BootstrapConfig :: BootstrapConfig
  rc_BlobSpeed :: "Byterate option"
  rc_ContainerdRegistryConfigPath :: string
  rc_MetricsAddr :: string
  rc_LocalAddr :: string
  rc_ContainerdSock :: string
  rc_ContainerdNamespace :: string
  rc_ContainerdContentPath :: string
  rc_RouterAddr :: string
  rc_RegistryAddr :: string
  rc_Registries :: "URL list"
  rc_MirrorResolveTimeout :: int
  rc_MirrorResolveRetries :: int
  rc_ResolveLatestTag :: bool

record Arguments =
  arg_Configuration :: "ConfigurationCmd option"
  arg_Registry :: "RegistryCmd option"
  arg_LogLevel :: int

section \<open>The configuration command\<close>

definition configurationCommand :: "'f Fs \<Rightarrow> 'v Toml \<Rightarrow> 'f \<Rightarrow> ConfigurationCmd \<Rightarrow> error option outcome \<times> 'f" where
  "configurationCommand F T f args =
     AddMirrorConfiguration F T f (cc_ContainerdRegistryConfigPath args) (cc_Registries args)
       (cc_MirrorRegistries args) (cc_ResolveTags args) (cc_AppendMirrors args)"

section \<open>The registry command\<close>

text \<open>The calls into the Kubernetes client library, with \<open>'k\<close> for its configurations.\<close>

record 'k Kube =
  kube_BuildConfigFromFlags :: "string \<Rightarrow> 'k result"
  kube_InClusterConfig :: "'k result"
  kube_NewForConfig :: "'k \<Rightarrow> unit result"

definition GetClientset :: "'k Kube \<Rightarrow> string \<Rightarrow> unit result" where
  "GetClientset K kubeconfigPath =
     (if kubeconfigPath \<noteq> [] then
        bind_result (kube_BuildConfigFromFlags K kubeconfigPath) (kube_NewForConfig K)
      else bind_result (kube_InClusterConfig K) (kube_NewForConfig K))"

text \<open>
  The environment of a node: \<open>env_ClientGetter\<close> is the error with which a connection to the daemon
  at a socket and in a namespace fails, \<open>env_Got\<close> what the bootstrapper's \<open>Get\<close> returns,
  \<open>env_MustRegister\<close> and \<open>env_Registerer\<close> the registerer of metrics, and \<open>env_reads\<close> how fast resolved addresses are read.
\<close>

record ('m, 'c, 'd, 'l, 'k, 'p) Env =
  env_ClientGetter :: "string \<Rightarrow> string \<Rightarrow> error option"
  env_Daemon :: Daemon
  env_Decoders :: Decoders
  env_walk :: walker
  env_Kube :: "'k Kube"
  env_Multiaddr :: "'m Multiaddr"
  env_Libp2p :: "('m, 'c, 'd) Libp2p"
  env_Got :: "'m AddrInfo result"
  env_reads :: "nat \<Rightarrow> nat"
  env_Limiter :: "'l Limiter"
  env_transport :: "nat \<Rightarrow> OutRequest \<Rightarrow> round_trip"
  env_MustRegister :: "'p \<Rightarrow> metric \<Rightarrow> 'p outcome"
  env_Registerer :: 'p
  env_metrics :: http_metrics
  env_clock :: int

text \<open>A \<open>Bootstrapper\<close> is one of the two that there are.\<close>

datatype Bootstrapper = Kubernetes KubernetesBootstrapper | HTTP HTTPBootstrapper

definition getBootstrapper :: "'k Kube \<Rightarrow> BootstrapConfig \<Rightarrow> Bootstrapper result" where
  "getBootstrapper K cfg =
     (if bc_BootstrapKind cfg = ''http'' then
        Inr (HTTP (NewHTTPBootstrapper (bc_HTTPBootstrapAddr cfg) (bc_HTTPBootstrapPeer cfg)))
      else if bc_BootstrapKind cfg = ''kubernetes'' then
        bind_result (GetClientset K (bc_KubeconfigPath cfg)) (\<lambda>cs.
          Inr (Kubernetes (NewKubernetesBootstrapper (bc_LeaderElectionNamespace cfg) (bc_LeaderElectionName cfg))))
      else Inl (Err (''unknown bootstrap kind '' @ bc_BootstrapKind cfg)))"

text \<open>The patterns that the metrics server handles.\<close>

definition metrics_patterns :: "string list" where
  "metrics_patterns =
     [''/metrics'', ''/debug/pprof/'', ''/debug/pprof/profile'', ''/debug/pprof/trace'', ''/debug/pprof/symbol'',
      ''/debug/pprof/heap'', ''/debug/pprof/goroutine'', ''/debug/pprof/threadcreate'', ''/debug/pprof/block'',
      ''/debug/pprof/mutex'']"

text \<open>
  Registering patterns without methods and wildcards at a \<open>http.ServeMux\<close>: one that is registered
  already panics.
\<close>

fun http_Handle :: "string list \<Rightarrow> string list \<Rightarrow> string list outcome" where
  "http_Handle mux [] = Done mux"
| "http_Handle mux (p # ps) =
     (if p \<in> set mux then Panic (''pattern conflicts: '' @ p) else http_Handle (mux @ [p]) ps)"

definition registryOpts :: "'l Limiter \<Rightarrow> RegistryCmd \<Rightarrow> ('r, 'l) Option list" where
  "registryOpts L args =
     [WithResolveLatestTag (rc_ResolveLatestTag args), WithResolveRetries (rc_MirrorResolveRetries args),
      WithResolveTimeout (rc_MirrorResolveTimeout args), WithLocalAddress (rc_LocalAddr args)] @
     (case rc_BlobSpeed args of None \<Rightarrow> [] | Some speed \<Rightarrow> [WithBlobSpeed L speed])"

text \<open>
  The goroutines of a node: the metrics server is server 0 and the registry server 1; the router
  and the state tracking run until the context is done.
\<close>

definition node_tasks :: "task multiset" where
  "node_tasks =
     {# Serve 0, Shutdown 0, Service ''router'', Closer ''router'', Service ''state'', Serve 1, Shutdown 1 #}"

text \<open>A node that is running.\<close>

record ('m, 'd, 'l, 'p) Node =
  nd_containerd :: Containerd
  nd_bootstrapper :: Bootstrapper
  nd_registry :: "(('m, 'd) P2PRouter, 'l) Registry"
  nd_registerer :: 'p
  nd_metricsSrv :: "string \<times> string list"
  nd_server :: "string \<times> (('m, 'd) P2PRouter, 'l) Registry ServeMux"
  nd_group :: group

text \<open>
  The command up to the point where it waits for the group; an error before that ends it (and
  with it the process).
\<close>

definition registryCommand :: "('m, 'c, 'd, 'l, 'k, 'p) Env \<Rightarrow> RegistryCmd \<Rightarrow> ('m, 'd, 'l, 'p) Node result outcome" where
  "registryCommand E args =
     (let ociClient = NewContainerd (env_ClientGetter E (rc_ContainerdSock args) (rc_ContainerdNamespace args))
            (rc_ContainerdRegistryConfigPath args) (rc_Registries args) [WithContentPath (rc_ContainerdContentPath args)];
          (verified, ociClient') = containerd_Verify (env_Daemon E) (env_Decoders E) ociClient in
      case verified of
        Inl err \<Rightarrow> Done (Inl err)
      | Inr _ \<Rightarrow>
      case Register (env_MustRegister E) (env_Registerer E) of
        Panic p \<Rightarrow> Panic p
      | Done reg \<Rightarrow>
      case http_Handle [] metrics_patterns of
        Panic p \<Rightarrow> Panic p
      | Done mux \<Rightarrow> Done (
      bind_result (SplitHostPort (rc_RegistryAddr args)) (\<lambda>(_, registryPort).
      bind_result (getBootstrapper (env_Kube E) (rc_BootstrapConfig args)) (\<lambda>bootstrapper.
      bind_result (NewP2PRouter (env_Multiaddr E) (env_Libp2p E) (rc_RouterAddr args) registryPort) (\<lambda>rt.
      bind_result (Server (env_Limiter E) (rc_RegistryAddr args)) (\<lambda>regSrv.
        Inr \<lparr>nd_containerd = ociClient', nd_bootstrapper = bootstrapper,
             nd_registry =
               NewRegistry (containerd_client (env_walk E) (env_Daemon E) (env_Decoders E) ociClient')
                 (p2p_router (env_Multiaddr E) (env_Libp2p E) (env_Got E) (env_reads E)) rt
                 (env_transport E) (env_metrics E) (env_clock E) (registryOpts (env_Limiter E) args),
             nd_registerer = reg, nd_metricsSrv = (rc_MetricsAddr args, mux), nd_server = regSrv, nd_group = errgroup node_tasks\<rparr>))))))"

section \<open>The program\<close>

datatype ('m, 'd, 'l, 'p) run_result =
    Configured "error option outcome"
  | Started "('m, 'd, 'l, 'p) Node"
  | Panicked string
  | Failed error

definition run ::
  "'f Fs \<Rightarrow> 'v Toml \<Rightarrow> ('m, 'c, 'd, 'l, 'k, 'p) Env \<Rightarrow> 'f \<Rightarrow> Arguments \<Rightarrow> ('m, 'd, 'l, 'p) run_result \<times> 'f" where
  "run F T E f args =
     (case arg_Configuration args of
        Some cmd \<Rightarrow> (let (res, f') = configurationCommand F T f cmd in (Configured res, f'))
      | None \<Rightarrow>
          (case arg_Registry args of
             Some cmd \<Rightarrow>
               (case registryCommand E cmd of
                  Panic p \<Rightarrow> (Panicked p, f)
                | Done (Inl err) \<Rightarrow> (Failed err, f)
                | Done (Inr node) \<Rightarrow> (Started node, f))
           | None \<Rightarrow> (Failed (Err ''unknown subcommand''), f)))"

text \<open>
  What \<^const>\<open>run\<close> returns, when the goroutines of a started node have come to the group \<open>s\<close>: for a
  node that is not done yet, nothing.
\<close>

definition run_returns :: "('m, 'd, 'l, 'p) run_result \<Rightarrow> group \<Rightarrow> error option outcome option" where
  "run_returns res s =
     (case res of
        Configured r \<Rightarrow> Some r
      | Started node \<Rightarrow> map_option Done (Wait s)
      | Panicked p \<Rightarrow> Some (Panic p)
      | Failed err \<Rightarrow> Some (Done (Some err)))"

text \<open>The exit status of the process; the Go runtime ends a panicking one with status 2.\<close>

definition main_exit :: "error option outcome \<Rightarrow> int" where
  "main_exit r = (case r of Panic p \<Rightarrow> 2 | Done err \<Rightarrow> if err \<noteq> None then 1 else 0)"

definition main ::
  "'f Fs \<Rightarrow> 'v Toml \<Rightarrow> ('m, 'c, 'd, 'l, 'k, 'p) Env \<Rightarrow> 'f \<Rightarrow> Arguments \<Rightarrow> group \<Rightarrow> int option \<times> 'f" where
  "main F T E f args s =
     (let (res, f') = run F T E f args in (map_option main_exit (run_returns res s), f'))"

section \<open>What is started\<close>

lemma NewRegistry_opts:
  "NewRegistry cl R s T m clk (registryOpts L args) =
     \<lparr>rg_log = [],
      rg_throttler = map_option (NewThrottler L clk) (rc_BlobSpeed args),
      rg_ociClient = cl, rg_router = R, rg_routerState = s, rg_transport = T, rg_localAddr = rc_LocalAddr args,
      rg_resolveRetries = rc_MirrorResolveRetries args, rg_resolveTimeout = rc_MirrorResolveTimeout args,
      rg_resolveLatestTag = rc_ResolveLatestTag args, rg_metrics = m, rg_clock = clk\<rparr>"
  by (cases "rc_BlobSpeed args")
    (simp_all add: NewRegistry_def registryOpts_def WithResolveLatestTag_def WithResolveRetries_def
      WithResolveTimeout_def WithLocalAddress_def WithBlobSpeed_def)

lemma http_Handle_Done: "distinct (mux @ ps) \<Longrightarrow> http_Handle mux ps = Done (mux @ ps)"
  by (induction mux ps rule: http_Handle.induct) auto

lemma metrics_mux: "http_Handle [] metrics_patterns = Done metrics_patterns"
  using http_Handle_Done [of "[]" metrics_patterns] by (simp add: metrics_patterns_def)

lemma containerd_Verify_ok:
  assumes "containerd_Verify S J c = (Inr u, c')"
  shows "\<exists>resp. cd_Status S = Inr resp \<and> verifyStatusResponse J resp (ct_registryConfigPath c) = None"
  using with_client_Inr [OF assms [unfolded containerd_Verify_def]]
  by (auto simp: go_result split: if_splits option.splits)

lemma registryCommand_ok:
  assumes "registryCommand E args = Done (Inr node)"
  obtains resp h port rt where "cd_Status (env_Daemon E) = Inr resp"
    and "verifyStatusResponse (env_Decoders E) resp (rc_ContainerdRegistryConfigPath args) = None"
    and "SplitHostPort (rc_RegistryAddr args) = Inr (h, port)"
    and "NewP2PRouter (env_Multiaddr E) (env_Libp2p E) (rc_RouterAddr args) port = Inr rt"
    and "getBootstrapper (env_Kube E) (rc_BootstrapConfig args) = Inr (nd_bootstrapper node)"
    and "Server (env_Limiter E) (rc_RegistryAddr args) = Inr (nd_server node)"
    and "rg_routerState (nd_registry node) = rt" "rg_throttler (nd_registry node) =
      map_option (NewThrottler (env_Limiter E) (env_clock E)) (rc_BlobSpeed args)"
    and "rg_localAddr (nd_registry node) = rc_LocalAddr args"
      "rg_resolveRetries (nd_registry node) = rc_MirrorResolveRetries args"
      "rg_resolveTimeout (nd_registry node) = rc_MirrorResolveTimeout args"
      "rg_resolveLatestTag (nd_registry node) = rc_ResolveLatestTag args"
    and "nd_group node = errgroup node_tasks"
    and "Register (env_MustRegister E) (env_Registerer E) = Done (nd_registerer node)"
    and "nd_metricsSrv node = (rc_MetricsAddr args, metrics_patterns)"
proof -
  let ?c = "NewContainerd (env_ClientGetter E (rc_ContainerdSock args) (rc_ContainerdNamespace args))
      (rc_ContainerdRegistryConfigPath args) (rc_Registries args) [WithContentPath (rc_ContainerdContentPath args)]"
  obtain v c where v: "containerd_Verify (env_Daemon E) (env_Decoders E) ?c = (v, c)" by fastforce
  with assms obtain u where u: "v = Inr u" by (cases v) (simp_all add: registryCommand_def)
  have "ct_registryConfigPath ?c = rc_ContainerdRegistryConfigPath args"
    by (simp add: NewContainerd_def WithContentPath_def split: prod.split)
  with containerd_Verify_ok [OF v [unfolded u]] obtain resp where "cd_Status (env_Daemon E) = Inr resp"
    "verifyStatusResponse (env_Decoders E) resp (rc_ContainerdRegistryConfigPath args) = None" by auto
  with assms v u show thesis
    by (auto simp: registryCommand_def go_result NewRegistry_opts metrics_mux split: outcome.splits intro: that)
qed



section \<open>A concrete node\<close>

definition example_env :: "(string, string, table, int, unit, string set) Env" where
  "example_env =
     \<lparr>env_ClientGetter = \<lambda>sock ns. None, env_Daemon = example_daemon\<lparr>cd_Status := Inr [''config'' \<mapsto> ''/etc/containerd/certs.d'']\<rparr>, env_Decoders = example_decoders,
      env_walk = depth_first, env_Kube = \<lparr>kube_BuildConfigFromFlags = \<lambda>p. Inr (), kube_InClusterConfig = Inr (), kube_NewForConfig = \<lambda>c. Inr ()\<rparr>, env_Multiaddr = example_Multiaddr,
      env_Libp2p = example_Libp2p, env_Got = Inl (Err []), env_reads = \<lambda>i. 0, env_Limiter = open_limiter,
      env_transport = \<lambda>n out. ([], Inl (Err ''connection refused'')),
      env_MustRegister = example_MustRegister, env_Registerer = {},
      env_metrics = \<lparr>HttpRequestsInflight = \<lambda>_. 0, HttpRequestDurHistogram = [], HttpResponseSizeHistogram = [],
        MirrorRequestsTotal = \<lambda>_. 0\<rparr>, env_clock = 0\<rparr>"

definition example_args :: RegistryCmd where
  "example_args =
     \<lparr>rc_BootstrapConfig = \<lparr>bc_BootstrapKind = ''http'', bc_HTTPBootstrapAddr = '':5002'', bc_HTTPBootstrapPeer = ''http://10.0.0.1:5002/id'',
        bc_KubeconfigPath = [], bc_LeaderElectionName = [], bc_LeaderElectionNamespace = []\<rparr>,
      rc_BlobSpeed = None, rc_ContainerdRegistryConfigPath = ''/etc/containerd/certs.d'', rc_MetricsAddr = '':9090'',
      rc_LocalAddr = ''10.0.0.1:5000'', rc_ContainerdSock = ''/run/containerd/containerd.sock'', rc_ContainerdNamespace = ''k8s.io'',
      rc_ContainerdContentPath = [], rc_RouterAddr = '':5001'', rc_RegistryAddr = '':5000'', rc_Registries = [],
      rc_MirrorResolveTimeout = 20000000, rc_MirrorResolveRetries = 3, rc_ResolveLatestTag = True\<rparr>"

lemma example_node_ok: "\<exists>node. registryCommand example_env example_args = Done (Inr node)"
proof -
  have port: "SplitHostPort '':5000'' = Inr ([], ''5000'')" using SplitHostPort_plain [of "[]" "''5000''"] by simp
  have verify: "fst (containerd_Verify (env_Daemon example_env) (env_Decoders example_env)
      (NewContainerd None ''/etc/containerd/certs.d'' [] [WithContentPath []])) = Inr ()"
    by (simp add: containerd_Verify_def with_client_def containerd_Client_def NewContainerd_def WithContentPath_def
        createFilters_def example_env_def example_daemon_def example_decoders_def verifyStatusResponse_def SplitList_def Let_def)
  obtain c where "containerd_Verify (env_Daemon example_env) (env_Decoders example_env)
      (NewContainerd None ''/etc/containerd/certs.d'' [] [WithContentPath []]) = (Inr (), c)"
    using verify by (metis prod.collapse)
  then show ?thesis
    using example_New port example_Register metrics_mux
    by (simp add: registryCommand_def example_args_def getBootstrapper_def Server_def NewServeMux_def)
      (auto simp: example_env_def getBootstrapper_def Server_def NewServeMux_def)
qed

definition example_node :: "(string, table, int, string set) Node" where
  "example_node = (case registryCommand example_env example_args of Done res \<Rightarrow> projr res)"

lemma example_node: "registryCommand example_env example_args = Done (Inr example_node)"
  using example_node_ok by (auto simp: example_node_def)


definition example_Arguments :: Arguments where
  "example_Arguments = \<lparr>arg_Configuration = None, arg_Registry = Some example_args, arg_LogLevel = 0\<rparr>"


end
