(* ===== verification/Channel.thy ===== *)
theory Channel
  imports Go_Prelude
begin

text \<open>
  \<open>internal/channel/channel.go\<close>: merging channels. One goroutine per input copies its values to the
  output, a last one closes the output when all of them are done. The goroutines, the senders on
  the inputs and the reader of the output interleave arbitrarily: a step relation on the state of
  all of them.
\<close>

section \<open>The program\<close>

text \<open>
  Where the goroutine \<open>output\<close> of one input stands: about to receive from its input, about to send
  the value \<open>n\<close> it has received, or returned. \<open>mg_buf\<close> is the content of an input channel,
  \<open>mg_wg\<close> the counter of the wait group. The output has no buffer, so that a send is a receive by
  the reader: \<open>mg_out\<close> is what the reader has received, with the input it came from.
  \<open>mg_sent\<close> remembers everything the senders have sent.
\<close>

datatype 'a worker = Receiving | Sending 'a | Returned

record 'a merge =
  mg_buf :: "nat \<Rightarrow> 'a list"
  mg_closed :: "nat \<Rightarrow> bool"
  mg_sent :: "nat \<Rightarrow> 'a list"
  mg_worker :: "nat \<Rightarrow> 'a worker"
  mg_wg :: nat
  mg_out :: "(nat \<times> 'a) list"
  mg_outClosed :: bool
  mg_panic :: bool

definition Merge :: "nat \<Rightarrow> 'a merge" where
  "Merge n =
     \<lparr>mg_buf = \<lambda>i. [], mg_closed = \<lambda>i. False, mg_sent = \<lambda>i. [], mg_worker = \<lambda>i. Receiving,
      mg_wg = n, mg_out = [], mg_outClosed = False, mg_panic = False\<rparr>"

text \<open>The senders: a value is sent on an input that is not closed, or the input is closed.\<close>

inductive env_step :: "nat \<Rightarrow> 'a merge \<Rightarrow> 'a merge \<Rightarrow> bool" for n where
  send: "i < n \<Longrightarrow> \<not> mg_closed s i \<Longrightarrow>
    env_step n s (s\<lparr>mg_buf := (mg_buf s)(i := mg_buf s i @ [v]), mg_sent := (mg_sent s)(i := mg_sent s i @ [v])\<rparr>)"
| close: "i < n \<Longrightarrow> \<not> mg_closed s i \<Longrightarrow> env_step n s (s\<lparr>mg_closed := (mg_closed s)(i := True)\<rparr>)"

text \<open>
  The goroutines of \<open>Merge\<close>, with a reader that receives whatever is sent. A send on a closed
  channel, closing a closed channel and a negative counter of the wait group panic.
\<close>

inductive merge_step :: "nat \<Rightarrow> 'a merge \<Rightarrow> 'a merge \<Rightarrow> bool" for n where
  receive: "i < n \<Longrightarrow> mg_worker s i = Receiving \<Longrightarrow> mg_buf s i = v # vs \<Longrightarrow>
    merge_step n s (s\<lparr>mg_buf := (mg_buf s)(i := vs), mg_worker := (mg_worker s)(i := Sending v)\<rparr>)"
| deliver: "i < n \<Longrightarrow> mg_worker s i = Sending v \<Longrightarrow> \<not> mg_outClosed s \<Longrightarrow>
    merge_step n s (s\<lparr>mg_out := mg_out s @ [(i, v)], mg_worker := (mg_worker s)(i := Receiving)\<rparr>)"
| deliver_closed: "i < n \<Longrightarrow> mg_worker s i = Sending v \<Longrightarrow> mg_outClosed s \<Longrightarrow>
    merge_step n s (s\<lparr>mg_panic := True\<rparr>)"
| range_done: "i < n \<Longrightarrow> mg_worker s i = Receiving \<Longrightarrow> mg_buf s i = [] \<Longrightarrow> mg_closed s i \<Longrightarrow> 0 < mg_wg s \<Longrightarrow>
    merge_step n s (s\<lparr>mg_worker := (mg_worker s)(i := Returned), mg_wg := mg_wg s - 1\<rparr>)"
| range_panic: "i < n \<Longrightarrow> mg_worker s i = Receiving \<Longrightarrow> mg_buf s i = [] \<Longrightarrow> mg_closed s i \<Longrightarrow> mg_wg s = 0 \<Longrightarrow>
    merge_step n s (s\<lparr>mg_panic := True\<rparr>)"
| close_out: "mg_wg s = 0 \<Longrightarrow> \<not> mg_outClosed s \<Longrightarrow> merge_step n s (s\<lparr>mg_outClosed := True\<rparr>)"

inductive reachable :: "nat \<Rightarrow> 'a merge \<Rightarrow> bool" for n where
  start: "reachable n (Merge n)"
| env: "reachable n s \<Longrightarrow> env_step n s s' \<Longrightarrow> reachable n s'"
| own: "reachable n s \<Longrightarrow> merge_step n s s' \<Longrightarrow> reachable n s'"

inductive_cases env_stepE: "env_step n s s'"
inductive_cases merge_stepE: "merge_step n s s'"

section \<open>The invariant\<close>

definition delivered :: "'a merge \<Rightarrow> nat \<Rightarrow> 'a list" where
  "delivered s i = map snd (filter (\<lambda>p. fst p = i) (mg_out s))"

fun held :: "'a worker \<Rightarrow> 'a list" where
  "held (Sending v) = [v]"
| "held _ = []"

text \<open>
  Of every input, what was sent is what was delivered, what its goroutine holds and what is still
  in the channel, in this order; a goroutine has returned only when its input is closed and empty;
  the wait group counts the others; the output is closed only when there are none.
\<close>

definition merge_inv :: "nat \<Rightarrow> 'a merge \<Rightarrow> bool" where
  "merge_inv n s \<longleftrightarrow>
     (\<forall>i < n. mg_sent s i = delivered s i @ held (mg_worker s i) @ mg_buf s i \<and>
        (mg_worker s i = Returned \<longrightarrow> mg_closed s i \<and> mg_buf s i = [])) \<and>
     mg_wg s = card {i. i < n \<and> mg_worker s i \<noteq> Returned} \<and>
     (mg_outClosed s \<longrightarrow> mg_wg s = 0) \<and> (\<forall>p \<in> set (mg_out s). fst p < n) \<and> \<not> mg_panic s"

lemma merge_inv_start: "merge_inv n (Merge n)"
  by (simp add: merge_inv_def Merge_def delivered_def)

lemma all_returned:
  assumes "merge_inv n s" and "mg_wg s = 0 \<or> mg_outClosed s" and "i < n"
  shows "mg_worker s i = Returned"
proof -
  from assms(1,2) have "card {i. i < n \<and> mg_worker s i \<noteq> Returned} = 0" by (auto simp: merge_inv_def)
  then have "{i. i < n \<and> mg_worker s i \<noteq> Returned} = {}" by (simp only: card_eq_0_iff) simp
  with assms(3) show ?thesis by blast
qed

lemma running_update:
  fixes n :: nat
  assumes "i < n" and "w i \<noteq> Returned"
  shows "x \<noteq> Returned \<Longrightarrow> {j. j < n \<and> (w(i := x)) j \<noteq> Returned} = {j. j < n \<and> w j \<noteq> Returned}"
    and "card {j. j < n \<and> (w(i := Returned)) j \<noteq> Returned} = card {j. j < n \<and> w j \<noteq> Returned} - 1"
proof -
  have "{j. j < n \<and> (w(i := Returned)) j \<noteq> Returned} = {j. j < n \<and> w j \<noteq> Returned} - {i}" by auto
  then show "card {j. j < n \<and> (w(i := Returned)) j \<noteq> Returned} = card {j. j < n \<and> w j \<noteq> Returned} - 1"
    using assms by (simp add: card_Diff_singleton)
qed (use assms in auto)

lemma merge_inv_env: "env_step n s s' \<Longrightarrow> merge_inv n s \<Longrightarrow> merge_inv n s'"
  by (erule env_stepE) (auto simp: merge_inv_def delivered_def)

lemma merge_inv_own:
  assumes "merge_step n s s'" and "merge_inv n s"
  shows "merge_inv n s'"
  using assms(1)
proof cases
  case (receive i v vs)
  with assms(2) running_update(1) [of i n "mg_worker s" "Sending v"] show ?thesis
    by (auto simp: merge_inv_def delivered_def)
next
  case (deliver i v)
  with assms(2) running_update(1) [of i n "mg_worker s" Receiving] show ?thesis
    by (auto simp: merge_inv_def delivered_def)
next
  case (deliver_closed i v)
  with all_returned [OF assms(2), of i] show ?thesis by simp
next
  case (range_done i)
  with assms(2) running_update(2) [of i n "mg_worker s"] show ?thesis
    by (auto simp: merge_inv_def delivered_def)
next
  case (range_panic i)
  with all_returned [OF assms(2), of i] show ?thesis by simp
next
  case close_out
  with assms(2) show ?thesis by (auto simp: merge_inv_def delivered_def)
qed

lemma merge_inv_reachable: "reachable n s \<Longrightarrow> merge_inv n s"
  by (induction rule: reachable.induct) (auto intro: merge_inv_start merge_inv_env merge_inv_own)

text \<open>
  C25. Merging never panics, loses, invents or reorders anything, in whatever way the goroutines,
  senders and reader interleave: the values the reader has received from each input are the first
  ones sent on it, in their order, and when the output is closed every input is closed and all
  of its values have been received.
\<close>

theorem merge_safe:
  assumes "reachable n s"
  shows "\<not> mg_panic s \<and> (\<forall>i < n. prefix (delivered s i) (mg_sent s i)) \<and> (\<forall>p \<in> set (mg_out s). fst p < n) \<and>
    (mg_outClosed s \<longrightarrow> (\<forall>i < n. mg_closed s i \<and> delivered s i = mg_sent s i))"
proof -
  note inv = merge_inv_reachable [OF assms]
  with all_returned [OF inv] show ?thesis by (auto simp: merge_inv_def prefix_def)
qed

section \<open>Completion\<close>

definition weight :: "'a worker \<Rightarrow> nat" where
  "weight w = (case w of Receiving \<Rightarrow> 1 | Sending _ \<Rightarrow> 2 | Returned \<Rightarrow> 0)"

text \<open>The steps that are left: two for each value in an input, and the ends of the goroutines.\<close>

definition steps_left :: "nat \<Rightarrow> 'a merge \<Rightarrow> nat" where
  "steps_left n s =
     (\<Sum>i < n. 2 * length (mg_buf s i) + weight (mg_worker s i)) + (if mg_outClosed s then 0 else 1)"

lemma sum_update:
  fixes g :: "nat \<Rightarrow> nat"
  assumes "i < n" and "\<And>j. j \<noteq> i \<Longrightarrow> h j = g j" and "Suc (h i) = g i"
  shows "Suc (\<Sum>j < n. h j) = (\<Sum>j < n. g j)"
proof -
  have "(\<Sum>j < n. f j) = f i + (\<Sum>j \<in> {..<n} - {i}. f j)" for f :: "nat \<Rightarrow> nat"
    using assms(1) by (simp add: sum.remove)
  moreover have "(\<Sum>j \<in> {..<n} - {i}. h j) = (\<Sum>j \<in> {..<n} - {i}. g j)" by (rule sum.cong) (auto simp: assms(2))
  ultimately show ?thesis using assms(3) by simp
qed

lemma merge_step_decreases:
  assumes "merge_step n s s'" and "merge_inv n s"
  shows "Suc (steps_left n s') = steps_left n s"
  using assms(1)
proof cases
  case (receive i v vs)
  then have "Suc (\<Sum>j < n. 2 * length (mg_buf s' j) + weight (mg_worker s' j)) =
      (\<Sum>j < n. 2 * length (mg_buf s j) + weight (mg_worker s j))"
    by (intro sum_update [of i]) (auto simp: weight_def)
  with receive show ?thesis by (simp add: steps_left_def)
next
  case (deliver i v)
  then have "Suc (\<Sum>j < n. 2 * length (mg_buf s' j) + weight (mg_worker s' j)) =
      (\<Sum>j < n. 2 * length (mg_buf s j) + weight (mg_worker s j))"
    by (intro sum_update [of i]) (auto simp: weight_def)
  with deliver show ?thesis by (simp add: steps_left_def)
next
  case (range_done i)
  then have "Suc (\<Sum>j < n. 2 * length (mg_buf s' j) + weight (mg_worker s' j)) =
      (\<Sum>j < n. 2 * length (mg_buf s j) + weight (mg_worker s j))"
    by (intro sum_update [of i]) (auto simp: weight_def)
  with range_done show ?thesis by (simp add: steps_left_def)
next
  case close_out
  then show ?thesis by (simp add: steps_left_def)
qed (use assms merge_inv_own [OF assms] in \<open>simp_all add: merge_inv_def\<close>)

lemma merge_progress:
  assumes "merge_inv n s" and "\<forall>i < n. mg_closed s i" and "\<not> mg_outClosed s"
  shows "\<exists>s'. merge_step n s s'"
proof (cases "mg_wg s = 0")
  case True
  with assms(3) show ?thesis by (blast intro: merge_step.close_out)
next
  case False
  with assms(1) have "{i. i < n \<and> mg_worker s i \<noteq> Returned} \<noteq> {}"
    unfolding merge_inv_def by (metis card.empty)
  then obtain i where "i < n" "mg_worker s i \<noteq> Returned" by auto
  with assms False show ?thesis
    by (cases "mg_worker s i"; cases "mg_buf s i") (auto intro: merge_step.intros)
qed

inductive merge_run :: "nat \<Rightarrow> nat \<Rightarrow> 'a merge \<Rightarrow> 'a merge \<Rightarrow> bool" for n where
  stop: "merge_run n 0 s s"
| step: "merge_step n s s' \<Longrightarrow> merge_run n k s' t \<Longrightarrow> merge_run n (Suc k) s t"

lemma merge_step_closed: "merge_step n s s' \<Longrightarrow> mg_closed s' = mg_closed s \<and> mg_sent s' = mg_sent s"
  by (erule merge_stepE) simp_all

lemma merge_run_bound:
  "merge_run n k s t \<Longrightarrow> reachable n s \<Longrightarrow>
     reachable n t \<and> k + steps_left n t = steps_left n s \<and> mg_closed t = mg_closed s \<and> mg_sent t = mg_sent s"
proof (induction rule: merge_run.induct)
  case (step s s' k t)
  from reachable.own [OF step.prems step.hyps(1)] step.IH
    merge_step_decreases [OF step.hyps(1) merge_inv_reachable [OF step.prems]] merge_step_closed [OF step.hyps(1)]
  show ?case by simp
qed simp

text \<open>
  Merging completes: once all inputs are closed and the reader keeps receiving, every run of
  the goroutines ends after a fixed number of steps, and where it ends the output is closed and
  the reader has received every value of every input.
\<close>

theorem merge_completes:
  assumes "reachable n s" and "\<forall>i < n. mg_closed s i" and "merge_run n k s t"
  shows "k \<le> steps_left n s \<and>
    ((\<nexists>t'. merge_step n t t') \<longrightarrow> mg_outClosed t \<and> (\<forall>i < n. delivered t i = mg_sent s i))"
proof -
  from merge_run_bound [OF assms(3,1)]
  have t: "reachable n t" "k + steps_left n t = steps_left n s" "mg_closed t = mg_closed s" "mg_sent t = mg_sent s"
    by auto
  note inv = merge_inv_reachable [OF t(1)]
  have closed: "mg_outClosed t" if "\<nexists>t'. merge_step n t t'"
    using merge_progress [OF inv] that assms(2) t(3) by auto
  have "delivered t i = mg_sent s i" if "mg_outClosed t" "i < n" for i
    using inv that all_returned [OF inv _ that(2)] t(4) by (simp add: merge_inv_def)
  with closed t(2) show ?thesis by auto
qed

section \<open>A concrete run\<close>

text \<open>One input, on which the value 7 is sent before it is closed.\<close>

definition example_sent :: "nat merge" where
  "example_sent = (Merge 1)\<lparr>mg_buf := (\<lambda>i. [])(0 := [7]), mg_sent := (\<lambda>i. [])(0 := [7]), mg_closed := (\<lambda>i. False)(0 := True)\<rparr>"

definition example_held :: "nat merge" where
  "example_held = example_sent\<lparr>mg_buf := (\<lambda>i. [])(0 := []), mg_worker := (\<lambda>i. Receiving)(0 := Sending 7)\<rparr>"

definition example_delivered :: "nat merge" where
  "example_delivered = example_held\<lparr>mg_out := [(0, 7)], mg_worker := (\<lambda>i. Receiving)(0 := Receiving)\<rparr>"

definition example_returned :: "nat merge" where
  "example_returned = example_delivered\<lparr>mg_worker := (\<lambda>i. Receiving)(0 := Returned), mg_wg := 0\<rparr>"

definition example_done :: "nat merge" where
  "example_done = example_returned\<lparr>mg_outClosed := True\<rparr>"

lemmas example_states = Merge_def example_sent_def example_held_def example_delivered_def example_returned_def example_done_def

lemma example_env: "reachable 1 example_sent"
proof -
  have "env_step 1 (Merge 1) ((Merge 1)\<lparr>mg_buf := (\<lambda>i. [])(0 := [7]), mg_sent := (\<lambda>i. [])(0 := [7])\<rparr> :: nat merge)" (is "env_step 1 _ ?s1")
    using env_step.send [of 0 1 "Merge 1" 7] by (simp add: Merge_def)
  moreover have "env_step 1 ?s1 example_sent" using env_step.close [of 0 1 ?s1] by (simp add: example_states)
  ultimately show ?thesis using reachable.intros by blast
qed

lemma merged_run: "merge_run 1 4 example_sent example_done"
proof -
  have "merge_step 1 example_sent example_held"
    using merge_step.receive [of 0 1 example_sent 7 "[]"] by (simp add: example_states)
  moreover have "merge_step 1 example_held example_delivered"
    using merge_step.deliver [of 0 1 example_held 7] by (simp add: example_states)
  moreover have "merge_step 1 example_delivered example_returned"
    using merge_step.range_done [of 0 1 example_delivered] by (simp add: example_states)
  moreover have "merge_step 1 example_returned example_done"
    using merge_step.close_out [of example_returned 1] by (simp add: example_states)
  ultimately have "merge_run 1 (Suc (Suc (Suc (Suc 0)))) example_sent example_done" by (blast intro: merge_run.intros)
  then show ?thesis by (simp add: eval_nat_numeral)
qed

theorem merge_safe_witness: "delivered example_done 0 = [7] \<and> \<not> mg_panic example_done"
proof -
  have "reachable 1 example_done" using merge_run_bound [OF merged_run example_env] by simp
  from merge_safe [OF this] show ?thesis by (simp add: example_states)
qed

theorem merge_completes_witness: "mg_outClosed example_done \<and> delivered example_done 0 = [7] \<and> 4 \<le> steps_left 1 example_sent"
proof -
  have closed: "\<forall>i < 1. mg_closed example_sent i" by (simp add: example_states)
  have "\<nexists>t'. merge_step 1 example_done t'" by (auto elim!: merge_stepE simp: example_states)
  with merge_completes [OF example_env closed merged_run] show ?thesis by (simp add: example_sent_def)
qed

end
