(* ===== verification/Event_Flow.thy ===== *)
theory Event_Flow
  imports Tracking Containerd Channel "HOL-Library.Multiset"
begin

text \<open>
  The goroutines behind image state tracking and the channels between them: the goroutine of
  \<open>Containerd.Subscribe\<close> (\<open>pkg/oci/containerd.go\<close>), the merge of its error channel with the
  one of containerd, the merge of the first tick with the ticker, and the select loop of
  \<open>Track\<close> (\<open>pkg/state/state.go\<close>). They interleave arbitrarily with the daemon, the ticker and the
  cancellation of the context: a step relation on the state of all of them.
\<close>

section \<open>The program\<close>

text \<open>
  Where the goroutine of \<open>Subscribe\<close> stands: about to receive from the channel of envelopes, about
  to send on \<open>imgCh\<close> or on \<open>errCh\<close>, between the two closes of its deferred function, or
  returned.
\<close>

datatype subscriber = SubReceiving | SendImage ImageEvent | SendError error | ClosingErrors | SubReturned

text \<open>
  An envelope comes with the daemon as it is when the envelope is handled. Input 0 of
  \<open>fl_errs\<close> is \<open>errCh\<close>, input 1 the error channel of containerd; input 0 of \<open>fl_ticks\<close> is
  \<open>immediateCh\<close>, input 1 the channel of the ticker. \<open>fl_result\<close> is the result of \<open>Track\<close> once it
  has returned. \<open>fl_received\<close> and \<open>fl_choices\<close> remember the envelopes that were received and the
  choices of the select.
\<close>

record 'r flow =
  fl_envelopes :: "(Daemon \<times> envelope) list"
  fl_envelopesClosed :: bool
  fl_received :: "(Daemon \<times> envelope) list"
  fl_subscriber :: subscriber
  fl_imgClosed :: bool
  fl_errs :: "error merge"
  fl_ticks :: "unit merge"
  fl_ctxDone :: bool
  fl_choices :: "(Client \<times> track_event) list"
  fl_result :: "error option option"
  fl_state :: "gauges \<times> 'r"

definition send_on :: "nat \<Rightarrow> 'a \<Rightarrow> 'a merge \<Rightarrow> 'a merge" where
  "send_on i v m = m\<lparr>mg_buf := (mg_buf m)(i := mg_buf m i @ [v]), mg_sent := (mg_sent m)(i := mg_sent m i @ [v])\<rparr>"

definition close_on :: "nat \<Rightarrow> 'a merge \<Rightarrow> 'a merge" where
  "close_on i m = m\<lparr>mg_closed := (mg_closed m)(i := True)\<rparr>"

text \<open>A send on a channel without buffer: the goroutine that merges it receives at once.\<close>

definition hand_over :: "nat \<Rightarrow> 'a \<Rightarrow> 'a merge \<Rightarrow> 'a merge" where
  "hand_over i v m = m\<lparr>mg_sent := (mg_sent m)(i := mg_sent m i @ [v]), mg_worker := (mg_worker m)(i := Sending v)\<rparr>"

text \<open>\<open>immediateCh\<close> holds one value and is closed.\<close>

definition ticks_start :: "unit merge" where
  "ticks_start = close_on 0 (send_on 0 () (Merge 2))"

definition flow_start :: "gauges \<times> 'r \<Rightarrow> 'r flow" where
  "flow_start st =
     \<lparr>fl_envelopes = [], fl_envelopesClosed = False, fl_received = [], fl_subscriber = SubReceiving,
      fl_imgClosed = False, fl_errs = Merge 2, fl_ticks = ticks_start, fl_ctxDone = False,
      fl_choices = [], fl_result = None, fl_state = st\<rparr>"

text \<open>
  The steps of the surroundings: the daemon sends envelopes and errors and closes its channels,
  the ticker fires unless it is stopped or its last tick was not received (its channel has room
  for one), the context is cancelled.
\<close>

inductive outside_step :: "'r flow \<Rightarrow> 'r flow \<Rightarrow> bool" where
  envelope: "\<not> fl_envelopesClosed s \<Longrightarrow> outside_step s (s\<lparr>fl_envelopes := fl_envelopes s @ [e]\<rparr>)"
| envelopes_end: "outside_step s (s\<lparr>fl_envelopesClosed := True\<rparr>)"
| stream_error: "\<not> mg_closed (fl_errs s) 1 \<Longrightarrow> outside_step s (s\<lparr>fl_errs := send_on 1 err (fl_errs s)\<rparr>)"
| stream_end: "\<not> mg_closed (fl_errs s) 1 \<Longrightarrow> outside_step s (s\<lparr>fl_errs := close_on 1 (fl_errs s)\<rparr>)"
| ticker: "fl_result s = None \<Longrightarrow> mg_buf (fl_ticks s) 1 = [] \<Longrightarrow> outside_step s (s\<lparr>fl_ticks := send_on 1 () (fl_ticks s)\<rparr>)"
| cancel: "outside_step s (s\<lparr>fl_ctxDone := True\<rparr>)"

text \<open>One round of the loop of \<open>Track\<close> with a choice of its select.\<close>

definition track_round :: "'r Router \<Rightarrow> bool \<Rightarrow> Client \<Rightarrow> track_event \<Rightarrow> 'r flow \<Rightarrow> 'r flow" where
  "track_round R res cl ev s =
     (let (result, st) = track_step cl R res (fl_state s) ev in
      s\<lparr>fl_choices := fl_choices s @ [(cl, ev)], fl_result := result, fl_state := st\<rparr>)"

text \<open>
  The steps of the goroutines. The outputs of the merges have no buffer: what they send is
  received by the select, which runs until \<open>Track\<close> has returned. Receiving from a closed channel
  is always possible.
\<close>

inductive program_step :: "'r Router \<Rightarrow> bool \<Rightarrow> 'r flow \<Rightarrow> 'r flow \<Rightarrow> bool" for R res where
  sub_receive: "fl_subscriber s = SubReceiving \<Longrightarrow> fl_envelopes s = (S, ev) # rest \<Longrightarrow>
    program_step R res s (s\<lparr>fl_envelopes := rest, fl_received := fl_received s @ [(S, ev)],
      fl_subscriber := (case subscribe_step S ev of Inl err \<Rightarrow> SendError err | Inr e \<Rightarrow> SendImage e)\<rparr>)"
| sub_error: "fl_subscriber s = SendError err \<Longrightarrow> mg_worker (fl_errs s) 0 = Receiving \<Longrightarrow>
    program_step R res s (s\<lparr>fl_errs := hand_over 0 err (fl_errs s), fl_subscriber := SubReceiving\<rparr>)"
| sub_close_images: "fl_subscriber s = SubReceiving \<Longrightarrow> fl_envelopes s = [] \<Longrightarrow> fl_envelopesClosed s \<Longrightarrow>
    program_step R res s (s\<lparr>fl_imgClosed := True, fl_subscriber := ClosingErrors\<rparr>)"
| sub_close_errors: "fl_subscriber s = ClosingErrors \<Longrightarrow>
    program_step R res s (s\<lparr>fl_errs := close_on 0 (fl_errs s), fl_subscriber := SubReturned\<rparr>)"
| errs_step: "merge_step 2 (fl_errs s) m \<Longrightarrow> mg_out m = mg_out (fl_errs s) \<Longrightarrow>
    program_step R res s (s\<lparr>fl_errs := m\<rparr>)"
| ticks_step: "merge_step 2 (fl_ticks s) m \<Longrightarrow> mg_out m = mg_out (fl_ticks s) \<Longrightarrow>
    program_step R res s (s\<lparr>fl_ticks := m\<rparr>)"
| sel_ctx: "fl_result s = None \<Longrightarrow> fl_ctxDone s \<Longrightarrow> program_step R res s (track_round R res cl CtxDone s)"
| sel_tick: "fl_result s = None \<Longrightarrow> merge_step 2 (fl_ticks s) m \<Longrightarrow> mg_out m = mg_out (fl_ticks s) @ [(i, ())] \<Longrightarrow>
    program_step R res s (track_round R res cl Tick (s\<lparr>fl_ticks := m\<rparr>))"
| sel_tick_closed: "fl_result s = None \<Longrightarrow> mg_outClosed (fl_ticks s) \<Longrightarrow> program_step R res s (track_round R res cl Tick s)"
| sel_image: "fl_result s = None \<Longrightarrow> fl_subscriber s = SendImage e \<Longrightarrow>
    program_step R res s (track_round R res cl (ImageEv (Some e)) (s\<lparr>fl_subscriber := SubReceiving\<rparr>))"
| sel_image_closed: "fl_result s = None \<Longrightarrow> fl_imgClosed s \<Longrightarrow> program_step R res s (track_round R res cl (ImageEv None) s)"
| sel_error: "fl_result s = None \<Longrightarrow> merge_step 2 (fl_errs s) m \<Longrightarrow> mg_out m = mg_out (fl_errs s) @ [(i, err)] \<Longrightarrow>
    program_step R res s (track_round R res cl (ErrorEv (Some err)) (s\<lparr>fl_errs := m\<rparr>))"
| sel_error_closed: "fl_result s = None \<Longrightarrow> mg_outClosed (fl_errs s) \<Longrightarrow>
    program_step R res s (track_round R res cl (ErrorEv None) s)"

inductive flow_reachable :: "'r Router \<Rightarrow> bool \<Rightarrow> gauges \<times> 'r \<Rightarrow> 'r flow \<Rightarrow> bool" for R res st where
  flow_init: "flow_reachable R res st (flow_start st)"
| flow_outside: "flow_reachable R res st s \<Longrightarrow> outside_step s s' \<Longrightarrow> flow_reachable R res st s'"
| flow_program: "flow_reachable R res st s \<Longrightarrow> program_step R res s s' \<Longrightarrow> flow_reachable R res st s'"

inductive_cases outside_stepE: "outside_step s s'"
inductive_cases program_stepE: "program_step R res s s'"

lemma round_simps [simp]:
  "fl_envelopes (track_round R res cl ev s) = fl_envelopes s" "fl_envelopesClosed (track_round R res cl ev s) = fl_envelopesClosed s"
  "fl_received (track_round R res cl ev s) = fl_received s" "fl_subscriber (track_round R res cl ev s) = fl_subscriber s"
  "fl_imgClosed (track_round R res cl ev s) = fl_imgClosed s" "fl_errs (track_round R res cl ev s) = fl_errs s"
  "fl_ticks (track_round R res cl ev s) = fl_ticks s" "fl_ctxDone (track_round R res cl ev s) = fl_ctxDone s"
  "fl_choices (track_round R res cl ev s) = fl_choices s @ [(cl, ev)]"
  "fl_result (track_round R res cl ev s) = fst (track_step cl R res (fl_state s) ev)"
  "fl_state (track_round R res cl ev s) = snd (track_step cl R res (fl_state s) ev)"
  by (simp_all add: track_round_def split: prod.splits)

section \<open>The channels\<close>

lemma reachable_send_on: "reachable n m \<Longrightarrow> i < n \<Longrightarrow> \<not> mg_closed m i \<Longrightarrow> reachable n (send_on i v m)"
  unfolding send_on_def by (blast intro: reachable.env env_step.send)

lemma reachable_close_on: "reachable n m \<Longrightarrow> i < n \<Longrightarrow> \<not> mg_closed m i \<Longrightarrow> reachable n (close_on i m)"
  unfolding close_on_def by (blast intro: reachable.env env_step.close)

lemma reachable_hand_over:
  assumes "reachable n m" and "i < n" and "\<not> mg_closed m i" and "mg_worker m i = Receiving" and "mg_buf m i = []"
  shows "reachable n (hand_over i v m)"
proof -
  let ?m = "send_on i v m"
  have "merge_step n ?m (?m\<lparr>mg_buf := (mg_buf ?m)(i := []), mg_worker := (mg_worker ?m)(i := Sending v)\<rparr>)"
    using assms by (intro merge_step.receive) (simp_all add: send_on_def)
  moreover have "?m\<lparr>mg_buf := (mg_buf ?m)(i := []), mg_worker := (mg_worker ?m)(i := Sending v)\<rparr> = hand_over i v m"
    using assms(5) by (simp add: send_on_def hand_over_def fun_upd_idem)
  ultimately show ?thesis using reachable_send_on [OF assms(1-3)] reachable.own by metis
qed

lemma reachable_ticks_start: "reachable 2 ticks_start"
proof -
  have "reachable 2 (send_on 0 () (Merge 2))" by (rule reachable_send_on [OF reachable.start]) (simp_all add: Merge_def)
  then show ?thesis unfolding ticks_start_def by (rule reachable_close_on) (simp_all add: send_on_def Merge_def)
qed

lemma merge_step_buf: "merge_step n m m' \<Longrightarrow> mg_buf m i = [] \<Longrightarrow> mg_buf m' i = []"
  by (erule merge_stepE) auto

lemma merge_step_out: "merge_step n m m' \<Longrightarrow> mg_out m' = mg_out m \<or> (\<exists>i v. i < n \<and> mg_out m' = mg_out m @ [(i, v)])"
  by (erule merge_stepE) auto

text \<open>The state of the channels: each merge is in a state that merging reaches, and who closes what.\<close>

definition channels_ok :: "'r flow \<Rightarrow> bool" where
  "channels_ok s \<longleftrightarrow> reachable 2 (fl_errs s) \<and> reachable 2 (fl_ticks s) \<and> mg_buf (fl_errs s) 0 = [] \<and>
     (mg_closed (fl_errs s) 0 \<longleftrightarrow> fl_subscriber s = SubReturned) \<and>
     (fl_imgClosed s \<longleftrightarrow> fl_subscriber s \<in> {ClosingErrors, SubReturned}) \<and>
     (fl_imgClosed s \<longrightarrow> fl_envelopesClosed s \<and> fl_envelopes s = []) \<and>
     \<not> mg_closed (fl_ticks s) 1 \<and> mg_sent (fl_ticks s) 0 = [()]"

named_theorems channel_ops \<open>effect of sends and closes on the inputs of a merge\<close>

lemmas [channel_ops] = send_on_def close_on_def hand_over_def

lemma channels_ok_start: "channels_ok (flow_start st)"
  by (simp add: channels_ok_def flow_start_def reachable.start reachable_ticks_start)
    (simp add: ticks_start_def channel_ops Merge_def)

lemma channels_ok_outside:
  assumes "outside_step s s'" and "channels_ok s"
  shows "channels_ok s'"
  using assms(1)
proof cases
  case (stream_error err)
  with assms(2) reachable_send_on [of 2 "fl_errs s" 1 err] show ?thesis by (simp add: channels_ok_def) (simp add: channel_ops)
next
  case stream_end
  with assms(2) reachable_close_on [of 2 "fl_errs s" 1] show ?thesis by (simp add: channels_ok_def) (simp add: channel_ops)
next
  case ticker
  with assms(2) reachable_send_on [of 2 "fl_ticks s" 1 "()"] show ?thesis by (simp add: channels_ok_def) (simp add: channel_ops)
qed (use assms(2) in \<open>auto simp: channels_ok_def\<close>)

lemma channels_ok_errs:
  assumes "channels_ok s" and "merge_step 2 (fl_errs s) m"
  shows "channels_ok (s\<lparr>fl_errs := m\<rparr>)"
  using assms(1) reachable.own [OF _ assms(2)] merge_step_closed [OF assms(2)] merge_step_buf [OF assms(2), of 0]
  by (simp add: channels_ok_def)

lemma channels_ok_ticks:
  assumes "channels_ok s" and "merge_step 2 (fl_ticks s) m"
  shows "channels_ok (s\<lparr>fl_ticks := m\<rparr>)"
  using assms(1) reachable.own [OF _ assms(2)] merge_step_closed [OF assms(2)]
  by (simp add: channels_ok_def)

lemma channels_ok_round [simp]: "channels_ok (track_round R res cl ev s) = channels_ok s"
  by (simp add: channels_ok_def)

lemma channels_ok_program:
  assumes "program_step R res s s'" and "channels_ok s"
  shows "channels_ok s'"
  using assms(1)
proof cases
  case (sub_receive S ev rest)
  with assms(2) show ?thesis by (simp add: channels_ok_def split: sum.splits)
next
  case (sub_error err)
  with assms(2) reachable_hand_over [of 2 "fl_errs s" 0 err] show ?thesis
    by (simp add: channels_ok_def) (simp add: channel_ops)
next
  case sub_close_errors
  with assms(2) reachable_close_on [of 2 "fl_errs s" 0] show ?thesis
    by (simp add: channels_ok_def) (simp add: channel_ops)
next
  case (sel_image e cl)
  with assms(2) show ?thesis by (simp add: channels_ok_def)
next
  case sub_close_images
  with assms(2) show ?thesis by (simp add: channels_ok_def)
qed (use assms(2) channels_ok_errs channels_ok_ticks in auto)

lemma channels_ok_reachable: "flow_reachable R res st s \<Longrightarrow> channels_ok s"
  by (induction rule: flow_reachable.induct) (auto intro: channels_ok_start channels_ok_outside channels_ok_program)

text \<open>The merge of the ticks never closes its output, since the ticker never closes its channel.\<close>

lemma ticks_open:
  assumes "channels_ok s"
  shows "\<not> mg_outClosed (fl_ticks s)"
proof
  assume "mg_outClosed (fl_ticks s)"
  moreover from assms have inv: "merge_inv 2 (fl_ticks s)" by (simp add: channels_ok_def merge_inv_reachable)
  ultimately have "mg_worker (fl_ticks s) 1 = Returned" by (intro all_returned [of 2]) simp_all
  with assms inv show False by (simp add: channels_ok_def merge_inv_def)
qed

section \<open>Nothing is lost\<close>

text \<open>The events, errors and ticks that \<open>Track\<close> has handled.\<close>

fun image_events :: "(Client \<times> track_event) list \<Rightarrow> ImageEvent list" where
  "image_events [] = []"
| "image_events ((cl, ev) # evs) = (case ev of ImageEv (Some e) \<Rightarrow> [e] | _ \<Rightarrow> []) @ image_events evs"

fun logged_errors :: "(Client \<times> track_event) list \<Rightarrow> error list" where
  "logged_errors [] = []"
| "logged_errors ((cl, ev) # evs) = (case ev of ErrorEv (Some e) \<Rightarrow> [e] | _ \<Rightarrow> []) @ logged_errors evs"

definition full_syncs :: "(Client \<times> track_event) list \<Rightarrow> nat" where
  "full_syncs evs = length (filter (\<lambda>p. snd p = Tick) evs)"

text \<open>What the goroutine of \<open>Subscribe\<close> sends on \<open>imgCh\<close> and on \<open>errCh\<close> for the envelopes it receives.\<close>

definition sent_images :: "(Daemon \<times> envelope) list \<Rightarrow> ImageEvent list" where
  "sent_images evs = concat (map (case_sum (\<lambda>_. []) (\<lambda>e. [e])) (subscribe_sends evs))"

definition sent_errors :: "(Daemon \<times> envelope) list \<Rightarrow> error list" where
  "sent_errors evs = concat (map (case_sum (\<lambda>e. [e]) (\<lambda>_. [])) (subscribe_sends evs))"

fun held_image :: "subscriber \<Rightarrow> ImageEvent list" where
  "held_image (SendImage e) = [e]"
| "held_image _ = []"

fun held_error :: "subscriber \<Rightarrow> error list" where
  "held_error (SendError e) = [e]"
| "held_error _ = []"

lemma history_append [simp]:
  "image_events (xs @ ys) = image_events xs @ image_events ys"
  "logged_errors (xs @ ys) = logged_errors xs @ logged_errors ys"
  "full_syncs (xs @ ys) = full_syncs xs + full_syncs ys"
  "sent_images (es @ fs) = sent_images es @ sent_images fs"
  "sent_errors (es @ fs) = sent_errors es @ sent_errors fs"
  by (induction xs) (auto simp: full_syncs_def sent_images_def sent_errors_def subscribe_sends_def)

lemma sent_single [simp]:
  "sent_images [(S, ev)] = held_image (case subscribe_step S ev of Inl err \<Rightarrow> SendError err | Inr e \<Rightarrow> SendImage e)"
  "sent_errors [(S, ev)] = held_error (case subscribe_step S ev of Inl err \<Rightarrow> SendError err | Inr e \<Rightarrow> SendImage e)"
  by (simp_all add: sent_images_def sent_errors_def subscribe_sends_def split: sum.splits)

text \<open>
  Every event and error of the received envelopes was passed on in order or is still held by the
  goroutine, and \<open>Track\<close> has handled what the merges have delivered.
\<close>

definition data_ok :: "'r flow \<Rightarrow> bool" where
  "data_ok s \<longleftrightarrow> sent_images (fl_received s) = image_events (fl_choices s) @ held_image (fl_subscriber s) \<and>
     sent_errors (fl_received s) = mg_sent (fl_errs s) 0 @ held_error (fl_subscriber s) \<and>
     logged_errors (fl_choices s) = map snd (mg_out (fl_errs s)) \<and>
     full_syncs (fl_choices s) = length (mg_out (fl_ticks s))"

lemma data_ok_start: "data_ok (flow_start st)"
  by (simp add: data_ok_def flow_start_def sent_images_def sent_errors_def subscribe_sends_def full_syncs_def
      ticks_start_def channel_ops Merge_def)

lemma data_ok_outside: "outside_step s s' \<Longrightarrow> data_ok s \<Longrightarrow> data_ok s'"
  by (erule outside_stepE) (simp_all add: data_ok_def channel_ops)

lemma data_ok_program:
  assumes "program_step R res s s'" and "data_ok s" and "channels_ok s"
  shows "data_ok s'"
  using assms(1)
proof cases
  case (sel_tick_closed cl)
  with ticks_open [OF assms(3)] show ?thesis by simp
next
  case (errs_step m)
  with assms(2) merge_step_closed [OF errs_step(2)] show ?thesis by (simp add: data_ok_def)
next
  case (sel_error m i err cl)
  with assms(2) merge_step_closed [OF sel_error(3)] show ?thesis by (simp add: data_ok_def full_syncs_def)
qed (use assms(2) in \<open>auto simp: data_ok_def channel_ops full_syncs_def\<close>)

lemma data_ok_reachable: "flow_reachable R res st s \<Longrightarrow> data_ok s"
  by (induction rule: flow_reachable.induct)
    (auto intro: data_ok_start data_ok_outside data_ok_program channels_ok_reachable)

section \<open>Refinement of the tracking loop\<close>

lemma track_loop_snoc:
  assumes "track_loop R res evs st = (None, st')"
  shows "track_loop R res (evs @ [(cl, ev)]) st = track_step cl R res st' ev"
  using assms by (induction evs arbitrary: st) (auto split: prod.splits option.splits)

lemma loop_program:
  assumes "program_step R res s s'" and "track_loop R res (fl_choices s) st = (fl_result s, fl_state s)"
  shows "track_loop R res (fl_choices s') st = (fl_result s', fl_state s')"
proof -
  consider "fl_choices s' = fl_choices s" "fl_result s' = fl_result s" "fl_state s' = fl_state s"
    | cl ev where "fl_result s = None" "fl_choices s' = fl_choices s @ [(cl, ev)]"
        "track_step cl R res (fl_state s) ev = (fl_result s', fl_state s')"
    using assms(1) by cases auto
  then show ?thesis using assms(2) track_loop_snoc [of R res "fl_choices s" st "fl_state s"] by cases simp_all
qed

lemma loop_outside:
  "outside_step s s' \<Longrightarrow> fl_choices s' = fl_choices s \<and> fl_result s' = fl_result s \<and> fl_state s' = fl_state s"
  by (erule outside_stepE) simp_all

lemma loop_reachable: "flow_reachable R res st s \<Longrightarrow> track_loop R res (fl_choices s) st = (fl_result s, fl_state s)"
proof (induction rule: flow_reachable.induct)
  case flow_init
  show ?case by (simp add: flow_start_def)
next
  case (flow_outside s s')
  with loop_outside [of s s'] show ?case by simp
qed (rule loop_program)

text \<open>\<open>Track\<close> has returned only for a reason: the context, or the end of the envelopes.\<close>

definition ended_ok :: "'r flow \<Rightarrow> bool" where
  "ended_ok s \<longleftrightarrow> (case fl_result s of
       None \<Rightarrow> True
     | Some None \<Rightarrow> fl_ctxDone s
     | Some (Some e) \<Rightarrow> fl_envelopesClosed s \<and> fl_envelopes s = [] \<and>
         e \<in> {Err ''image event channel closed'', Err ''image error channel closed''})"

lemma errs_closed:
  assumes "channels_ok s" and "mg_outClosed (fl_errs s)"
  shows "fl_envelopesClosed s \<and> fl_envelopes s = []"
proof -
  from assms have inv: "merge_inv 2 (fl_errs s)" by (simp add: channels_ok_def merge_inv_reachable)
  with assms(2) have "mg_worker (fl_errs s) 0 = Returned" by (intro all_returned [of 2]) simp_all
  with inv have "mg_closed (fl_errs s) 0" by (simp add: merge_inv_def)
  with assms(1) show ?thesis by (simp add: channels_ok_def)
qed

lemma ended_program:
  assumes "program_step R res s s'" and "ended_ok s" and "channels_ok s"
  shows "ended_ok s'"
  using assms(1)
proof cases
  case (sub_receive S ev rest)
  with assms(2) show ?thesis by (auto simp: ended_ok_def split: option.splits)
next
  case (sel_image_closed cl)
  with assms(3) show ?thesis by (simp add: ended_ok_def channels_ok_def)
next
  case (sel_error_closed cl)
  with errs_closed [OF assms(3)] show ?thesis by (simp add: ended_ok_def)
qed (use assms(2) in \<open>auto simp: ended_ok_def split: option.splits\<close>)

lemma ended_outside: "outside_step s s' \<Longrightarrow> ended_ok s \<Longrightarrow> ended_ok s'"
  by (erule outside_stepE) (auto simp: ended_ok_def split: option.splits)

lemma ended_reachable: "flow_reachable R res st s \<Longrightarrow> ended_ok s"
proof (induction rule: flow_reachable.induct)
  case flow_init
  show ?case by (simp add: flow_start_def ended_ok_def)
qed (auto intro: ended_outside ended_program channels_ok_reachable)

section \<open>Completion\<close>

definition sub_weight :: "subscriber \<Rightarrow> nat" where
  "sub_weight p = (case p of SubReceiving \<Rightarrow> 2 | SendImage _ \<Rightarrow> 3 | SendError _ \<Rightarrow> 4 | ClosingErrors \<Rightarrow> 1 | SubReturned \<Rightarrow> 0)"

text \<open>A bound on the steps the goroutines can take by themselves.\<close>

definition flow_work :: "'r flow \<Rightarrow> nat" where
  "flow_work s = 3 * length (fl_envelopes s) + sub_weight (fl_subscriber s) + steps_left 2 (fl_errs s) +
     steps_left 2 (fl_ticks s) + (if fl_result s = None then 1 else 0)"

lemma steps_left_close_on [simp]: "steps_left n (close_on i m) = steps_left n m"
  by (simp add: steps_left_def channel_ops)

lemma steps_left_hand_over:
  assumes "i < n" and "mg_worker m i = Receiving"
  shows "steps_left n (hand_over i v m) = Suc (steps_left n m)"
proof -
  have "Suc (\<Sum>j < n. 2 * length (mg_buf m j) + weight (mg_worker m j)) =
      (\<Sum>j < n. 2 * length (mg_buf (hand_over i v m) j) + weight (mg_worker (hand_over i v m) j))"
    using assms by (intro sum_update [of i]) (auto simp: weight_def channel_ops)
  then show ?thesis by (simp add: steps_left_def channel_ops)
qed

lemma program_step_decreases:
  assumes "program_step R res s s'" and "channels_ok s"
  shows "flow_work s' < flow_work s"
proof -
  have inv: "merge_inv 2 (fl_errs s)" "merge_inv 2 (fl_ticks s)"
    using assms(2) by (simp_all add: channels_ok_def merge_inv_reachable)
  from assms(1) show ?thesis
  proof cases
    case (sub_receive S ev rest)
    then show ?thesis by (simp add: flow_work_def sub_weight_def split: sum.splits)
  next
    case (sub_error err)
    then show ?thesis by (simp add: flow_work_def sub_weight_def steps_left_hand_over)
  next
    case (sel_tick_closed cl)
    with ticks_open [OF assms(2)] show ?thesis by simp
  next
    case (errs_step m)
    with merge_step_decreases [OF errs_step(2) inv(1)] show ?thesis by (simp add: flow_work_def)
  next
    case (sel_error m i err cl)
    with merge_step_decreases [OF sel_error(3) inv(1)] show ?thesis by (simp add: flow_work_def)
  next
    case (ticks_step m)
    with merge_step_decreases [OF ticks_step(2) inv(2)] show ?thesis by (simp add: flow_work_def)
  next
    case (sel_tick m i cl)
    with merge_step_decreases [OF sel_tick(3) inv(2)] show ?thesis by (simp add: flow_work_def)
  qed (simp_all add: flow_work_def sub_weight_def)
qed

inductive program_run :: "'r Router \<Rightarrow> bool \<Rightarrow> nat \<Rightarrow> 'r flow \<Rightarrow> 'r flow \<Rightarrow> bool" for R res where
  run_stop: "program_run R res 0 s s"
| run_step: "program_step R res s s' \<Longrightarrow> program_run R res k s' t \<Longrightarrow> program_run R res (Suc k) s t"

lemma program_step_frame:
  assumes "program_step R res s s'"
  shows "fl_ctxDone s' = fl_ctxDone s \<and> fl_envelopesClosed s' = fl_envelopesClosed s \<and>
     fl_received s' @ fl_envelopes s' = fl_received s @ fl_envelopes s \<and>
     mg_sent (fl_errs s') 1 = mg_sent (fl_errs s) 1 \<and> mg_sent (fl_ticks s') = mg_sent (fl_ticks s)"
  using assms by cases (auto simp: channel_ops dest: merge_step_closed)

lemma program_run_bound:
  assumes "program_run R res k s t" and "flow_reachable R res st s"
  shows "flow_reachable R res st t \<and> k + flow_work t \<le> flow_work s \<and>
     fl_ctxDone t = fl_ctxDone s \<and> fl_envelopesClosed t = fl_envelopesClosed s \<and>
     fl_received t @ fl_envelopes t = fl_received s @ fl_envelopes s \<and>
     mg_sent (fl_errs t) 1 = mg_sent (fl_errs s) 1 \<and> mg_sent (fl_ticks t) = mg_sent (fl_ticks s)"
  using assms
proof (induction rule: program_run.induct)
  case (run_step s s' k t)
  from flow_reachable.flow_program [OF run_step.prems run_step.hyps(1)] run_step.IH
    program_step_decreases [OF run_step.hyps(1) channels_ok_reachable [OF run_step.prems]]
    program_step_frame [OF run_step.hyps(1)]
  show ?case by simp
qed simp

text \<open>A merge that cannot take a step has delivered everything.\<close>

lemma merge_stuck_delivered:
  assumes "reachable n m" and "\<nexists>m'. merge_step n m m'" and "i < n"
  shows "delivered m i = mg_sent m i \<and> mg_buf m i = [] \<and> (\<forall>v. mg_worker m i \<noteq> Sending v)"
proof -
  have idle: "mg_worker m i \<noteq> Sending v" for v
    using assms(2,3) merge_step.deliver [of i n m v] merge_step.deliver_closed [of i n m v] by blast
  have "mg_buf m i = []" if "mg_worker m i = Receiving"
    using assms(2,3) that merge_step.receive [of i n m] by (cases "mg_buf m i") blast+
  with idle merge_inv_reachable [OF assms(1)] assms(3) show ?thesis
    by (cases "mg_worker m i") (auto simp: merge_inv_def)
qed

text \<open>While \<open>Track\<close> runs, it receives whatever the merges send.\<close>

lemma running_merges:
  assumes "fl_result s = None" and "\<nexists>s'. program_step R res s s'"
  shows "\<nexists>m. merge_step 2 (fl_errs s) m" and "\<nexists>m. merge_step 2 (fl_ticks s) m"
proof -
  show "\<nexists>m. merge_step 2 (fl_errs s) m"
    using assms merge_step_out [of 2 "fl_errs s"] program_step.errs_step program_step.sel_error by metis
  show "\<nexists>m. merge_step 2 (fl_ticks s) m"
  proof
    assume "\<exists>m. merge_step 2 (fl_ticks s) m"
    then obtain m where m: "merge_step 2 (fl_ticks s) m" by blast
    from merge_step_out [OF m] show False
      using assms m program_step.ticks_step program_step.sel_tick [of s m _ R res] by (metis old.unit.exhaust)
  qed
qed

lemma idle_subscriber:
  assumes "channels_ok s" and "fl_result s = None" and "\<nexists>s'. program_step R res s s'"
  shows "fl_subscriber s = SubReceiving \<and> fl_envelopes s = [] \<and> \<not> fl_envelopesClosed s \<and> \<not> fl_ctxDone s"
proof -
  note stuck = running_merges [OF assms(2,3)]
  have "mg_worker (fl_errs s) 0 = Receiving" if "\<not> mg_closed (fl_errs s) 0"
    using merge_stuck_delivered [OF _ stuck(1), of 0] that assms(1) merge_inv_reachable [of 2 "fl_errs s"]
    by (cases "mg_worker (fl_errs s) 0") (auto simp: channels_ok_def merge_inv_def)
  moreover have "\<not> fl_imgClosed s" using assms(2,3) program_step.sel_image_closed by blast
  moreover have "fl_subscriber s \<noteq> SendImage e" for e using assms(2,3) program_step.sel_image by blast
  ultimately have "fl_subscriber s = SubReceiving"
    using assms(1,3) program_step.sub_error [of s]
    by (cases "fl_subscriber s") (auto simp: channels_ok_def)
  moreover from this have "fl_envelopes s = []"
    using assms(3) program_step.sub_receive by (metis list.exhaust prod.exhaust)
  ultimately show ?thesis
    using assms(2,3) program_step.sub_close_images program_step.sel_ctx by blast
qed

lemma two_inputs:
  assumes "\<forall>p \<in> set xs. fst p < (2 :: nat)"
  shows "mset (map snd xs) = mset (map snd (filter (\<lambda>p. fst p = 0) xs)) + mset (map snd (filter (\<lambda>p. fst p = 1) xs))"
  using assms by (induction xs) (auto simp: less_2_cases_iff)

lemma merged_mset:
  assumes "reachable 2 m" and "\<nexists>m'. merge_step 2 m m'"
  shows "mset (map snd (mg_out m)) = mset (mg_sent m 0) + mset (mg_sent m 1)"
proof -
  have "\<forall>p \<in> set (mg_out m). fst p < 2" using merge_inv_reachable [OF assms(1)] by (simp add: merge_inv_def)
  from two_inputs [OF this] have "mset (map snd (mg_out m)) = mset (delivered m 0) + mset (delivered m 1)"
    by (simp only: delivered_def)
  with merge_stuck_delivered [OF assms, of 0] merge_stuck_delivered [OF assms, of 1] show ?thesis by simp
qed

section \<open>The behaviour of the whole\<close>

text \<open>
  C5. However the goroutines of image state tracking interleave, \<open>Track\<close> behaves as its
  sequential loop on the choices its select has made; the image events it has handled are the
  first ones of those the daemon's envelopes stand for, in the same order and without loss;
  no goroutine panics.
\<close>

theorem flow_refines_Track:
  assumes "flow_reachable R res st s" and "cl_Subscribe cl = None"
  shows "Track cl R res (fl_choices s) st = (fl_result s, fl_state s) \<and>
    prefix (image_events (fl_choices s)) (sent_images (fl_received s)) \<and>
    length (sent_images (fl_received s)) \<le> Suc (length (image_events (fl_choices s))) \<and>
    \<not> mg_panic (fl_errs s) \<and> \<not> mg_panic (fl_ticks s)"
proof -
  from channels_ok_reachable [OF assms(1)]
  have "\<not> mg_panic (fl_errs s)" "\<not> mg_panic (fl_ticks s)"
    using merge_inv_reachable by (auto simp: channels_ok_def merge_inv_def)
  moreover from data_ok_reachable [OF assms(1)]
  have "sent_images (fl_received s) = image_events (fl_choices s) @ held_image (fl_subscriber s)" by (simp add: data_ok_def)
  moreover have "length (held_image (fl_subscriber s)) \<le> 1" by (cases "fl_subscriber s") simp_all
  ultimately show ?thesis using loop_reachable [OF assms(1)] assms(2) by (simp add: Track_def)
qed

text \<open>
  C8. \<open>Track\<close> returns only when its context is done, then without an error, or when the channel of
  envelopes was closed and all envelopes were received, then with an error. An error of the
  event stream, and the end of its error channel, never end it.
\<close>

theorem flow_ends:
  assumes "flow_reachable R res st s" and "fl_result s = Some x"
  shows "(x = None \<and> fl_ctxDone s) \<or>
    (x \<in> {Some (Err ''image event channel closed''), Some (Err ''image error channel closed'')} \<and>
     fl_envelopesClosed s \<and> fl_envelopes s = [])"
  using ended_reachable [OF assms(1)] assms(2) by (auto simp: ended_ok_def split: option.splits)

lemma flow_at_rest:
  assumes "flow_reachable R res st s" and "program_run R res k s t"
  shows "k \<le> flow_work s \<and>
    ((\<nexists>t'. program_step R res t t') \<longrightarrow>
       (if fl_ctxDone s \<or> fl_envelopesClosed s then fl_result t \<noteq> None
        else
          fl_result t = None \<and> image_events (fl_choices t) = sent_images (fl_received s @ fl_envelopes s) \<and>
          mset (logged_errors (fl_choices t)) = mset (sent_errors (fl_received s @ fl_envelopes s)) + mset (mg_sent (fl_errs s) 1) \<and>
          full_syncs (fl_choices t) = 1 + length (mg_sent (fl_ticks s) 1)))"
proof -
  from program_run_bound [OF assms(2,1)] have t: "flow_reachable R res st t" "k + flow_work t \<le> flow_work s"
    "fl_ctxDone t = fl_ctxDone s" "fl_envelopesClosed t = fl_envelopesClosed s"
    "fl_received t @ fl_envelopes t = fl_received s @ fl_envelopes s"
    "mg_sent (fl_errs t) 1 = mg_sent (fl_errs s) 1" "mg_sent (fl_ticks t) = mg_sent (fl_ticks s)" by auto
  note ok = channels_ok_reachable [OF t(1)] and data = data_ok_reachable [OF t(1)]
  have returned: "fl_ctxDone s \<or> fl_envelopesClosed s" if "fl_result t \<noteq> None"
    using that ended_reachable [OF t(1)] t(3,4) by (auto simp: ended_ok_def split: option.splits)
  have at_rest: "\<not> (fl_ctxDone s \<or> fl_envelopesClosed s) \<and>
      image_events (fl_choices t) = sent_images (fl_received s @ fl_envelopes s) \<and>
      mset (logged_errors (fl_choices t)) = mset (sent_errors (fl_received s @ fl_envelopes s)) + mset (mg_sent (fl_errs s) 1) \<and>
      full_syncs (fl_choices t) = 1 + length (mg_sent (fl_ticks s) 1)"
    if "\<nexists>t'. program_step R res t t'" "fl_result t = None"
  proof -
    note idle = idle_subscriber [OF ok that(2,1)] and stuck = running_merges [OF that(2,1)]
    from ok have reach: "reachable 2 (fl_errs t)" "reachable 2 (fl_ticks t)" by (simp_all add: channels_ok_def)
    have "length (mg_out (fl_ticks t)) = length (mg_sent (fl_ticks t) 0) + length (mg_sent (fl_ticks t) 1)"
      using arg_cong [OF merged_mset [OF reach(2) stuck(2)], of size] by simp
    with merged_mset [OF reach(1) stuck(1)] idle data ok t(3-7) show ?thesis
      by (simp add: data_ok_def channels_ok_def)
  qed
  from t(2) returned at_rest show ?thesis by (cases "fl_result t = None") auto
qed

text \<open>
  C4. Image state tracking completes: when nothing happens outside, the goroutines come to rest
  after a bounded number of steps. If the context is done or the envelopes have ended, \<open>Track\<close> has
  then returned. Otherwise it still runs, and it has handled the event of every envelope in
  order, logged every error of the envelopes and of the event stream, and synchronised all
  images once at its start and once for every tick of the ticker.
\<close>

theorem flow_completes:
  assumes "flow_reachable R res st s" and "program_run R res k s t"
  shows "k \<le> flow_work s \<and>
    ((\<nexists>t'. program_step R res t t') \<longrightarrow>
       (if fl_ctxDone s \<or> fl_envelopesClosed s then fl_result t \<noteq> None
        else
          fl_result t = None \<and> image_events (fl_choices t) = sent_images (fl_received s @ fl_envelopes s) \<and>
          mset (logged_errors (fl_choices t)) = mset (sent_errors (fl_received s @ fl_envelopes s)) + mset (mg_sent (fl_errs s) 1) \<and>
          full_syncs (fl_choices t) = 1 + length (mg_sent (fl_ticks s) 1)))"
  by (rule flow_at_rest [OF assms])

text \<open>At rest, the event of every envelope has been handled.\<close>

lemma in_image_events: "e \<in> set (image_events evs) \<longleftrightarrow> (\<exists>cl. (cl, ImageEv (Some e)) \<in> set evs)"
proof (induction evs)
  case (Cons p evs)
  then show ?case by (cases p) (auto split: track_event.splits option.splits)
qed simp

lemma in_sent_images: "(S, ev) \<in> set es \<Longrightarrow> subscribe_step S ev = Inr e \<Longrightarrow> e \<in> set (sent_images es)"
  by (force simp: sent_images_def subscribe_sends_def)

lemma event_handled:
  assumes "flow_reachable R res st s" and "program_run R res k s t" and "\<nexists>t'. program_step R res t t'"
    and "\<not> fl_ctxDone s" and "\<not> fl_envelopesClosed s"
    and "(S, ev) \<in> set (fl_received s @ fl_envelopes s)" and "subscribe_step S ev = Inr e"
  shows "fl_result t = None \<and> (\<exists>cl. (cl, ImageEv (Some e)) \<in> set (fl_choices t))"
proof -
  from flow_at_rest [OF assms(1,2)] assms(3-5)
  have t: "fl_result t = None" "image_events (fl_choices t) = sent_images (fl_received s @ fl_envelopes s)" by simp_all
  with in_sent_images [OF assms(6,7)] show ?thesis by (simp flip: in_image_events)
qed

section \<open>After the end\<close>

text \<open>
  Nobody receives from \<open>imgCh\<close> once \<open>Track\<close> has returned: a goroutine of \<open>Subscribe\<close> that is about
  to send an event stays there, whatever else happens, since it does not wait for the context.
\<close>

lemma returned_stays:
  assumes "program_step R res s s' \<or> outside_step s s'" and "fl_result s = Some x" and "fl_subscriber s = SendImage e"
  shows "fl_result s' = Some x \<and> fl_subscriber s' = SendImage e"
  using assms by (auto elim!: program_stepE outside_stepE)

lemma subscriber_leaks:
  assumes "(\<lambda>s s'. program_step R res s s' \<or> outside_step s s')\<^sup>*\<^sup>* s t"
    and "fl_result s = Some x" and "fl_subscriber s = SendImage e"
  shows "fl_subscriber t = SendImage e"
proof -
  from assms(1) have "fl_result t = Some x \<and> fl_subscriber t = SendImage e"
    by (induction rule: rtranclp_induct) (use assms(2,3) returned_stays in blast)+
  then show ?thesis ..
qed

section \<open>A concrete run\<close>

text \<open>A node without images: the first tick is received, handled, and the goroutine of \<open>immediateCh\<close> ends.\<close>

definition no_images :: Client where "no_images = mock_client (NewMockClient [])"

definition idle_start :: "MemoryRouter flow" where "idle_start = flow_start (gauges_Reset, node)"

definition tick_held :: "MemoryRouter flow" where
  "tick_held = idle_start\<lparr>fl_ticks := ticks_start\<lparr>mg_buf := (mg_buf ticks_start)(0 := []), mg_worker := (mg_worker ticks_start)(0 := Sending ())\<rparr>\<rparr>"

definition tick_handled :: "MemoryRouter flow" where
  "tick_handled = track_round memory_router True no_images Tick
     (tick_held\<lparr>fl_ticks := (fl_ticks tick_held)\<lparr>mg_out := [(0, ())], mg_worker := (mg_worker (fl_ticks tick_held))(0 := Receiving)\<rparr>\<rparr>)"

definition idle_end :: "MemoryRouter flow" where
  "idle_end = tick_handled\<lparr>fl_ticks := (fl_ticks tick_handled)\<lparr>mg_worker := (mg_worker (fl_ticks tick_handled))(0 := Returned), mg_wg := 1\<rparr>\<rparr>"

lemmas idle_defs = idle_start_def flow_start_def tick_held_def tick_handled_def idle_end_def ticks_start_def channel_ops Merge_def

lemma idle_steps:
  "program_step memory_router True idle_start tick_held"
  "program_step memory_router True tick_held tick_handled"
  "program_step memory_router True tick_handled idle_end"
proof -
  show "program_step memory_router True idle_start tick_held"
    using program_step.ticks_step [OF merge_step.receive [of 0 2 "fl_ticks idle_start" "()" "[]"]] by (simp add: idle_defs)
  show "program_step memory_router True tick_held tick_handled"
    using program_step.sel_tick [OF _ merge_step.deliver [of 0 2 "fl_ticks tick_held" "()"],
        where R = memory_router and res = True and i = 0 and cl = no_images]
    by (simp add: idle_defs)
  show "program_step memory_router True tick_handled idle_end"
    using program_step.ticks_step [OF merge_step.range_done [of 0 2 "fl_ticks tick_handled"]] by (simp add: idle_defs)
qed

lemma idle_run: "program_run memory_router True 3 idle_start idle_end"
  using idle_steps program_run.intros by (metis numeral_3_eq_3)

lemma idle_reachable: "flow_reachable memory_router True (gauges_Reset, node) idle_start"
  unfolding idle_start_def by (rule flow_init)

lemma no_merge_step:
  assumes "\<forall>i < n. mg_buf m i = [] \<and> (mg_worker m i = Receiving \<and> \<not> mg_closed m i \<or> mg_worker m i = Returned)" and "mg_wg m \<noteq> 0"
  shows "\<not> merge_step n m m'"
  using assms by (auto elim!: merge_stepE)

lemma idle_at_rest: "\<not> program_step memory_router True idle_end t"
proof
  assume "program_step memory_router True idle_end t"
  moreover have "\<not> merge_step 2 (fl_errs idle_end) m" for m
    by (rule no_merge_step) (simp_all add: idle_defs)
  moreover have "\<not> merge_step 2 (fl_ticks idle_end) m" for m
    by (rule no_merge_step) (auto simp: idle_defs less_2_cases_iff)
  ultimately show False by cases (simp_all add: idle_defs)
qed

theorem flow_refines_Track_witness:
  "Track no_images memory_router True (fl_choices idle_end) (gauges_Reset, node) = (None, fl_state idle_end)"
proof -
  have "flow_reachable memory_router True (gauges_Reset, node) idle_end"
    using program_run_bound [OF idle_run idle_reachable] by simp
  moreover have "cl_Subscribe no_images = None" by (simp add: no_images_def mock_client_def)
  moreover have "fl_result idle_end = None" by (simp add: idle_defs)
  ultimately show ?thesis using flow_refines_Track [of memory_router True "(gauges_Reset, node)" idle_end no_images] by simp
qed

theorem flow_completes_witness: "full_syncs (fl_choices idle_end) = 1 \<and> 3 \<le> flow_work idle_start"
proof -
  have "\<nexists>t. program_step memory_router True idle_end t" using idle_at_rest by blast
  with flow_completes [OF idle_reachable idle_run] show ?thesis by (simp add: idle_defs split: if_splits)
qed

theorem flow_ends_witness:
  "fl_ctxDone (track_round memory_router True no_images CtxDone (idle_start\<lparr>fl_ctxDone := True\<rparr>))"
proof -
  let ?s = "idle_start\<lparr>fl_ctxDone := True\<rparr>"
  have "flow_reachable memory_router True (gauges_Reset, node) ?s"
    using flow_outside [OF idle_reachable cancel] .
  moreover have "program_step memory_router True ?s (track_round memory_router True no_images CtxDone ?s)"
    by (rule sel_ctx) (simp_all add: idle_defs)
  ultimately have "flow_reachable memory_router True (gauges_Reset, node) (track_round memory_router True no_images CtxDone ?s)"
    by (rule flow_program)
  from flow_ends [OF this, of None] show ?thesis by simp
qed

end
