(* ===== verification/Spec2Isabelle.thy ===== *)
theory Spec2Isabelle
  imports Cluster Main_Cmd Event_Flow
begin

text \<open>
  Spegel (\<open>src/\<close>) lets the nodes of a cluster pull container images from each other. A node reads
  the images of its containerd daemon, advertises their tags and digests to a router, and runs a
  registry that serves local content to peers and mirrors what it does not have from the peers
  that the router resolves. This development models the program and shows what each part
  promises and that the parts work together.

  \<^bold>\<open>Parts and how they interact.\<close> \<open>main.go\<close> starts a node: an OCI client for containerd
  (\<open>pkg/oci\<close>), a router (\<open>pkg/routing\<close>) that bootstraps from a leader or an HTTP peer, the state tracking
  (\<open>pkg/state\<close>) that passes the keys of images from the client to the router, and the registry
  (\<open>pkg/registry\<close>) that uses client and router to answer requests through the recording mux
  (\<open>internal/mux\<close>) and throttled writers (\<open>pkg/throttle\<close>). A second command writes the mirror
  configuration of containerd.

  \<^bold>\<open>Theories.\<close> Each opens with what it holds; definitions keep the names of the code.

  \<^item> \<open>Go_Prelude\<close>, \<open>Go_Regexp\<close>, \<open>Go_Url\<close>, \<open>Go_Http\<close>, \<open>Go_Netip\<close>, \<open>Reverse_Proxy\<close>: the parts of the Go
    standard library that the code calls, as executable functions: errors and results, strings, numerals,
    backtracking regular expressions with their language, URLs, the response writer of a server,
    readers and copies, paths, IP addresses, and the reverse proxy.
  \<^item> \<open>Distribution\<close> (\<open>registry/distribution.go\<close>) and \<open>Image\<close> (\<open>oci/image.go\<close>): parsing request paths and
    image references. The lemmas characterise what is accepted and what it parses to, and give the
    round trip of images.
  \<^item> \<open>Mux\<close> (\<open>internal/mux\<close>): the response that records status, size and error; an invariant relates
    the record to what was sent.
  \<^item> \<open>Router\<close> (\<open>routing/routing.go\<close>, \<open>memory.go\<close>): the interface of routers as a record, its contract as
    the locale \<open>router_contract\<close>, interpreted for the memory router.
  \<^item> \<open>Bootstrap\<close> (\<open>routing/bootstrap.go\<close>): both bootstrappers, the locale \<open>bootstrapper\<close> for what they have
    in common with an interpretation for each, and the leader callbacks as a step relation.
  \<^item> \<open>P2P\<close> (\<open>routing/p2p.go\<close>): the router over a distributed hash table; it meets \<open>router_contract\<close>
    under the hypotheses \<open>dht_law\<close> and \<open>cid_law\<close>.
  \<^item> \<open>Oci\<close>, \<open>Containerd\<close> and \<open>Mirror_Config\<close> (\<open>oci/oci.go\<close>, \<open>mock.go\<close>, \<open>containerd.go\<close>): the client interface,
    the client for the daemon, and the configuration of mirrors on a file system.
  \<^item> \<open>Tracking\<close> (\<open>state/state.go\<close>): events, full synchronisation and the tracking loop, for every router
    that meets the contract, with the gauges of \<open>metrics.go\<close>.
  \<^item> \<open>Event_Flow\<close>: the goroutines and channels around the tracking loop, from the envelopes of the daemon
    through \<open>Subscribe\<close> and the merges to the select of \<open>Track\<close>, as a step relation. Every
    interleaving refines the sequential loop, nothing is lost, and the whole comes to rest.
  \<^item> \<open>Metrics\<close> (\<open>metrics/metrics.go\<close>): the declared metrics and their registration.
  \<^item> \<open>Throttle\<close> (\<open>throttle/\<close>): byte rates with 64 bit wrap-around, and that throttling does not change what is
    written.
  \<^item> \<open>Registry\<close> and \<open>Mirroring\<close> (\<open>registry/registry.go\<close>): the handlers, metrics and access log; that
    forwarding is marked and ends, and what clients get.
  \<^item> \<open>Channel\<close> (\<open>internal/channel\<close>) and \<open>Errgroup\<close>: goroutines as step relations, for merging
    channels and for the life of a node.
  \<^item> \<open>Main_Cmd\<close> (\<open>main.go\<close>, \<open>internal/kubernetes\<close>): the commands, what is started, that it shuts down, and the exit
    status of the process.
  \<^item> \<open>Cluster\<close> and this theory: nodes that mirror from each other over a network. A client gets content
    when a resolved peer has it, a node can serve what it advertises, and what one node tracks is
    found and served through another, for every router with the contract and for the one over the
    hash table.

  \<^bold>\<open>State and effects.\<close> Structs are records, operations return the updated record. An \<open>error\<close> is a
  value; a pair of a value and an error is of type \<open>'a result\<close>, a call that can panic returns
  an \<open>outcome\<close>. Channels that are only read to their end are the lists of what they deliver;
  where goroutines race (merging, image events, leader callbacks, shutdown, the reader of resolved
  addresses) their interleavings are explicit. The context of a request is given by the round in
  which a select finds it done.

  \<^bold>\<open>Parameters.\<close> Code outside the repository is an argument of the definitions: the daemon behind the
  containerd client and its walk over descriptors, JSON and TOML decoders, the
  file system, libp2p and its hash table, multi-addresses, leader election, the HTTP
  transport, the registerer of Prometheus, and the limiter of \<open>golang.org/x/time/rate\<close>. Hypotheses about them state their documented
  behaviour (\<open>walk_law\<close>, \<open>fs_law\<close>, \<open>dht_law\<close>, \<open>cid_law\<close>, \<open>fq_law\<close>, \<open>register_law\<close>, and hypotheses of single theorems), and
  each is met by a concrete instance in a witness.

  \<^bold>\<open>Bounds.\<close> Nothing runs on fuel: loops are structural recursions, and the step relations of \<open>Channel\<close>,
  \<open>Event_Flow\<close> and \<open>Errgroup\<close> have measures that bound every run. The tracking loop runs for as long as
  there are events, and is a function of the sequence of events; \<open>Event_Flow\<close> says which sequences occur. Ports are words of 16 bits
  and byte rates words of 64 bits, with their wrap-around.

  \<^bold>\<open>Not modelled.\<close> Logging apart from the access log; durations and the histograms of resolve times;
  the imports of \<open>tools.go\<close>; argument parsing (\<open>go-arg\<close>) and the handlers of the metrics server; trailers
  and escaped paths in the reverse proxy; the expiry of records in the hash table.
\<close>

section \<open>What a node advertises it can serve\<close>

text \<open>A blob that is in the store of the daemon with its size and can be read where the client reads it.\<close>

definition stored_blob :: "Daemon \<Rightarrow> Decoders \<Rightarrow> Containerd \<Rightarrow> digest \<Rightarrow> string list \<Rightarrow> bool" where
  "stored_blob S J c d chunks \<longleftrightarrow>
     (case cd_Info S d of Inl _ \<Rightarrow> False | Inr info \<Rightarrow> info_Size info = int (length (concat chunks))) \<and>
     (if ct_contentPath c \<noteq> []
      then cd_Open S (path_Join [ct_contentPath c, ''blobs'', dg_Algorithm J d, dg_Encoded J d])
      else cd_Reader S d) = Inr (chunks, None)"

text \<open>A document of the store that declares its media type.\<close>

definition typed_document :: "Daemon \<Rightarrow> Decoders \<Rightarrow> digest \<Rightarrow> string \<Rightarrow> string \<Rightarrow> bool" where
  "typed_document S J d b mediaType \<longleftrightarrow> cd_ReadBlob S d = Inr b \<and> mediaType \<noteq> [] \<and>
     (case js_UnknownDocument J b of Inl _ \<Rightarrow> False | Inr ud \<Rightarrow> ud_MediaType ud = mediaType)"

abbreviation manifest_by_digest :: "string \<Rightarrow> digest \<Rightarrow> reference" where
  "manifest_by_digest reg d \<equiv> \<lparr>ref_kind = referenceKindManifest, ref_name = [], ref_dgst = d, ref_originalRegistry = reg\<rparr>"

lemma stored_has_blob:
  assumes "ct_client c \<or> ct_clientGetter c = None" and "stored_blob S J c d chunks"
    and "rg_ociClient B = containerd_client walk S J c" and "rg_throttler B = None"
  shows "has_blob L B d chunks"
  using assms(2-4)
  by (auto simp: has_blob_def stored_blob_def containerd_client_def containerd_Size_def containerd_GetBlob_def
      with_client_connected(1) [OF assms(1)] split: sum.splits if_splits)

lemma typed_document_served:
  assumes "ct_client c \<or> ct_clientGetter c = None" and "typed_document S J d b mediaType"
    and "rg_ociClient B = containerd_client walk S J c" and "d \<noteq> []"
  shows "local_manifest B (manifest_by_digest reg d) = Inr (d, mediaType, b)"
  using assms(2-4)
  by (auto simp: local_manifest_def manifest_digest_def typed_document_def containerd_client_def containerd_GetManifest_def
      with_client_connected(2) [OF assms(1)] split: sum.splits)


definition layered_daemon :: Daemon where
  "layered_daemon = example_daemon\<lparr>cd_Info := \<lambda>d. if d = ''sha256:n'' then Inl ErrNotExist else Inr \<lparr>info_Digest = d, info_Size = 8, info_Labels = []\<rparr>\<rparr>"

definition layered_node :: "(MemoryRouter, int) Registry" where
  "layered_node = example_registry\<lparr>rg_ociClient := containerd_client depth_first layered_daemon example_decoders example_containerd\<rparr>"


section \<open>From the state tracking of one node to the client of another\<close>

lemma cluster_has_blob:
  assumes "blob_request req ref" and "client_request req" and "resolved A req ref ps" and "p \<in> set ps"
    and "rg_transport A = cluster_transport L' remote net" and "\<forall>k. net k (AddrPort_String p) = Inr B"
    and "has_blob L' B (ref_dgst ref) chunks"
    and "\<forall>k h. blob_at L' (net k h) (ref_dgst ref) chunks \<or> blob_absent (net k h) (ref_dgst ref)"
  shows "\<exists>A' rw. handle L A (new_response (http_new_writer False None)) req = (A', rw, Done ()) \<and>
    wire_status (Unwrap rw) = 200 \<and> hw_body (Unwrap rw) = concat chunks"
proof -
  from assms(4) obtain i where "i < length ps" "ps ! i = p" by (auto simp: in_set_conv_nth)
  with assms(6,7) have at: "\<exists>i < length ps. blob_at L' (net (i + 1) (AddrPort_String (ps ! i))) (ref_dgst ref) chunks" by auto
  from cluster_blob [OF assms(1-3,5), of chunks L] assms(8) show ?thesis unfolding if_P [OF at] by blast
qed



subsection \<open>A concrete cluster\<close>

definition blob_image :: ImageEvent where
  "blob_image = \<lparr>ev_Image = alpine, ev_Type = UpdateEvent\<rparr>"

definition blob_node :: "(MemoryRouter, int) Registry" where
  "blob_node = example_registry\<lparr>rg_ociClient := example_client\<lparr>cl_AllIdentifiers := \<lambda>img. Inr [''sha256:295c7be0'']\<rparr>\<rparr>"

text \<open>One address is the node that has the blob, the others are not reached.\<close>

definition example_net :: "AddrPort \<Rightarrow> nat \<Rightarrow> string \<Rightarrow> error + (MemoryRouter, int) Registry" where
  "example_net p k h = (if h = AddrPort_String p then Inr blob_node else Inl (Err ''connection refused''))"

definition nginx_blob :: reference where
  "nginx_blob = \<lparr>ref_kind = referenceKindBlob, ref_name = [], ref_dgst = ''sha256:295c7be0'', ref_originalRegistry = ''docker.io''\<rparr>"

definition nginx_request :: Request where
  "nginx_request = example_request ''/v2/library/nginx/blobs/sha256:295c7be0'' Map.empty"

lemma nginx_blob_request: "blob_request nginx_request nginx_blob" "client_request nginx_request"
proof -
  have "matches_all nameRegex ''library/nginx''" "path_digest ''sha256:295c7be0''" by code_simp+
  moreover have "\<not> sublist ''/manifests/'' (''/v2/'' @ ''library/nginx'' @ ''/blobs/'')" by code_simp
  ultimately have "parsePathComponents ''docker.io'' ''/v2/library/nginx/blobs/sha256:295c7be0'' = Inr nginx_blob"
    using parse_blob_path [of "''library/nginx''" "''sha256:295c7be0''" "''docker.io''"] matches_all_iff [OF anchor_free_path_parts(1)]
    by (simp add: nginx_blob_def)
  moreover have "query_Get (ParseQuery ''ns=docker.io'') ''ns'' = ''docker.io''" by code_simp
  moreover have "path_Clean ''/v2/library/nginx/blobs/sha256:295c7be0'' \<noteq> ''/v2''" by code_simp
  ultimately show "blob_request nginx_request nginx_blob"
    by (simp add: blob_request_def content_request_def nginx_request_def example_request_def nginx_blob_def)
  show "client_request nginx_request" by (simp add: client_request_def nginx_request_def example_request_def header_Get_def)
qed

lemma blob_node_has_blob: "has_blob open_limiter blob_node (ref_dgst nginx_blob) [''ab'', ''c'']"
  by (simp add: has_blob_def blob_node_def example_defs)

lemma example_net_blobs:
  "\<forall>k h. blob_at open_limiter (example_net p k h) (ref_dgst nginx_blob) [''ab'', ''c''] \<or>
     blob_absent (example_net p k h) (ref_dgst nginx_blob)"
  using blob_node_has_blob by (simp add: example_net_def)

lemma blob_node_identifiers: "cl_AllIdentifiers (rg_ociClient blob_node) (ev_Image blob_image) = Inr [''sha256:295c7be0'']"
  by (simp add: blob_node_def)

lemma blob_image_type: "ev_Type blob_image \<noteq> DeleteEvent" by (simp add: blob_image_def tracking_run)

text \<open>
  The tracking node: the daemon reports an image, the goroutine of \<open>Subscribe\<close> receives the envelope,
  \<open>Track\<close> handles the event, then the first tick, and all come to rest.
\<close>

definition alpine_envelope :: "Daemon \<times> envelope" where
  "alpine_envelope = (example_daemon, EvImageCreate ''docker.io/library/alpine:3'')"

definition alpine_created :: ImageEvent where
  "alpine_created = \<lparr>ev_Image = alpine\<lparr>img_Name := ''docker.io/library/alpine:3'', img_Digest := ''sha256:i''\<rparr>, ev_Type = CreateEvent\<rparr>"

lemma alpine_subscribed: "subscribe_step (fst alpine_envelope) (snd alpine_envelope) = Inr alpine_created"
proof -
  have "registry_host ''docker.io''" "repository_path ''library/alpine''" "tag_or_empty ''3''" "digest_or_empty []"
    by code_simp+
  from Parse_image_ref [OF this, of "''sha256:i''"] show ?thesis
    by (simp add: alpine_envelope_def alpine_created_def subscribe_step_def example_daemon_def example_index_def
        image_ref_def NewImage_def alpine_def CreateEvent_def)
qed

abbreviation blob_client :: Client where "blob_client \<equiv> rg_ociClient blob_node"

abbreviation flow_a :: "MemoryRouter flow" where "flow_a \<equiv> idle_start\<lparr>fl_envelopes := [alpine_envelope]\<rparr>"

abbreviation flow_b :: "MemoryRouter flow" where
  "flow_b \<equiv> flow_a\<lparr>fl_envelopes := [], fl_received := [alpine_envelope], fl_subscriber := SendImage alpine_created\<rparr>"

definition flow_c :: "MemoryRouter flow" where
  "flow_c = track_round memory_router True blob_client (ImageEv (Some alpine_created)) (flow_b\<lparr>fl_subscriber := SubReceiving\<rparr>)"

definition flow_d :: "MemoryRouter flow" where
  "flow_d = flow_c\<lparr>fl_ticks := fl_ticks tick_held\<rparr>"

definition flow_e :: "MemoryRouter flow" where
  "flow_e = track_round memory_router True no_images Tick (flow_d\<lparr>fl_ticks := fl_ticks tick_handled\<rparr>)"

definition flow_f :: "MemoryRouter flow" where
  "flow_f = flow_e\<lparr>fl_ticks := fl_ticks idle_end\<rparr>"

lemmas flow_defs = flow_c_def flow_d_def flow_e_def flow_f_def idle_defs

lemma flow_f_run: "program_run memory_router True 5 flow_a flow_f"
proof -
  have "program_step memory_router True flow_a flow_b"
    using program_step.sub_receive [of flow_a "fst alpine_envelope" "snd alpine_envelope" "[]"] alpine_subscribed
    by (simp add: idle_defs)
  moreover have "program_step memory_router True flow_b flow_c"
    unfolding flow_c_def by (rule program_step.sel_image) (simp_all add: idle_defs)
  moreover have "program_step memory_router True flow_c flow_d"
    using program_step.ticks_step [OF merge_step.receive [of 0 2 "fl_ticks flow_c" "()" "[]"]] by (simp add: flow_defs)
  moreover have "program_step memory_router True flow_d flow_e"
    using program_step.sel_tick [OF _ merge_step.deliver [of 0 2 "fl_ticks flow_d" "()"],
        where R = memory_router and res = True and i = 0 and cl = no_images]
    by (simp add: flow_defs)
  moreover have "program_step memory_router True flow_e flow_f"
    using program_step.ticks_step [OF merge_step.range_done [of 0 2 "fl_ticks flow_e"]] by (simp add: flow_defs)
  ultimately have "program_run memory_router True (Suc (Suc (Suc (Suc (Suc 0))))) flow_a flow_f" by (blast intro: program_run.intros)
  then show ?thesis by (simp add: eval_nat_numeral)
qed

lemma flow_f_at_rest: "\<not> program_step memory_router True flow_f t"
proof
  assume "program_step memory_router True flow_f t"
  moreover have "\<not> merge_step 2 (fl_errs flow_f) m" for m
    by (rule no_merge_step) (simp_all add: flow_defs)
  moreover have "\<not> merge_step 2 (fl_ticks flow_f) m" for m
    by (rule no_merge_step) (auto simp: flow_defs less_2_cases_iff)
  ultimately show False by cases (simp_all add: flow_defs)
qed

definition mirror_node :: "(MemoryRouter, int) Registry" where
  "mirror_node = example_registry\<lparr>rg_routerState := snd (fl_state flow_f),
     rg_transport := cluster_transport open_limiter ''10.0.0.9:40000'' (example_net (mr_self node))\<rparr>"


text \<open>The same cluster over the hash table: the tracking node \<open>A\<close> and the mirroring node \<open>M\<close> share the table.\<close>

abbreviation example_p2p :: "(string, table) P2PRouter Router" where
  "example_p2p \<equiv> p2p_router example_Multiaddr example_Libp2p (Inl (Err [])) (\<lambda>i. 0)"

definition blob_table :: table where
  "blob_table = [(''sha256:295c7be0'', example_own []), (''docker.io/library/alpine:3'', example_own [])]"

definition p2p_mirror_state :: "(string, table) P2PRouter" where
  "p2p_mirror_state = \<lparr>pr_host = \<lparr>h_ID = ''M'', h_Addrs = [''/ip4/10.0.0.7/tcp/5001'']\<rparr>, pr_kdht = blob_table, pr_registryPort = 5000\<rparr>"

abbreviation p2p_blob_net :: "nat \<Rightarrow> string \<Rightarrow> error + (MemoryRouter, int) Registry" where
  "p2p_blob_net \<equiv> example_net (p2p_self example_Multiaddr example_own example_started)"

definition p2p_mirror_node :: "((string, table) P2PRouter, int) Registry" where
  "p2p_mirror_node =
     NewRegistry example_client example_p2p p2p_mirror_state
       (cluster_transport open_limiter ''10.0.0.9:40000'' p2p_blob_net) (rg_metrics blob_node) 0 [WithLocalAddress ''localhost:5000'']"

lemma p2p_update:
  "update (rg_ociClient blob_node) example_p2p (gauges_Reset, example_started) blob_image False True =
     (Inr 2, gauges_Reset, example_started\<lparr>pr_kdht := blob_table\<rparr>)"
  by (simp add: blob_node_def blob_image_def tracking_run p2p_router_def createCid_def example_Libp2p_def example_started_def
      blob_table_def example_own_def)


text \<open>Two resolved peers of which the first is not reached.\<close>

definition two_peers :: "(MemoryRouter, int) Registry" where
  "two_peers = example_registry\<lparr>
     rg_routerState := NewMemoryRouter [''sha256:295c7be0'' \<mapsto> [peer_a, peer_b], ''docker.io/library/nginx:1'' \<mapsto> [peer_a, peer_b]] peer_b,
     rg_transport := cluster_transport open_limiter ''10.0.0.9:40000'' (example_net peer_b)\<rparr>"


definition nginx_manifest :: reference where
  "nginx_manifest = \<lparr>ref_kind = referenceKindManifest, ref_name = ''docker.io/library/nginx:1'', ref_dgst = [], ref_originalRegistry = ''docker.io''\<rparr>"

definition nginx_pull :: Request where
  "nginx_pull = example_request ''/v2/library/nginx/manifests/1'' Map.empty"

lemma nginx_manifest_request: "manifest_request nginx_pull nginx_manifest" "client_request nginx_pull"
proof -
  have "matches_all nameRegex ''library/nginx''" "matches_all tagRegex ''1''" by code_simp+
  then have "parsePathComponents ''docker.io'' ''/v2/library/nginx/manifests/1'' = Inr nginx_manifest"
    using parse_tag_path [of "''library/nginx''" "''1''" "''docker.io''"] matches_all_iff [OF anchor_free_path_parts(1)]
      matches_all_iff [OF anchor_free_path_parts(2)]
    by (simp add: nginx_manifest_def)
  moreover have "query_Get (ParseQuery ''ns=docker.io'') ''ns'' = ''docker.io''" by code_simp
  moreover have "path_Clean ''/v2/library/nginx/manifests/1'' \<noteq> ''/v2''" by code_simp
  ultimately show "manifest_request nginx_pull nginx_manifest"
    by (simp add: manifest_request_def content_request_def nginx_pull_def example_request_def nginx_manifest_def)
  show "client_request nginx_pull" by (simp add: client_request_def nginx_pull_def example_request_def header_Get_def)
qed

theorem cluster_serves_manifest_witness:
  "\<exists>A rw. handle open_limiter two_peers fresh nginx_pull = (A, rw, Done ()) \<and> hw_body (Unwrap rw) = ''{}''"
proof -
  have lookup: "resolved two_peers nginx_pull nginx_manifest [peer_a, peer_b]"
    by (simp add: resolved_def mirror_key_def nginx_manifest_def two_peers_def example_defs memory_Resolve_def)
  have net: "rg_transport two_peers = cluster_transport open_limiter ''10.0.0.9:40000'' (example_net peer_b)" by (simp add: two_peers_def)
  have "AddrPort_String peer_a \<noteq> AddrPort_String peer_b" by (simp add: AddrPort_String_def peer_a_def peer_b_def)
  then have "map (\<lambda>i. manifest_at (example_net peer_b (i + 1) (AddrPort_String ([peer_a, peer_b] ! i))) nginx_manifest)
      [0..<length [peer_a, peer_b]] = [None, Some (''sha256:m'', ''application/json'', ''{}'')]"
    by (simp add: example_net_def local_manifest_def manifest_digest_def nginx_manifest_def blob_node_def example_defs)
  with cluster_serves_manifest [OF nginx_manifest_request lookup net, of open_limiter] show ?thesis by auto
qed

end
